(* ===== verification/Prelude.thy ===== *)
theory Prelude
  imports Main "HOL-Library.Word" "HOL-Library.Char_ord" "HOL-Library.List_Lexorder"
begin

section \<open>Prelude: the shared vocabulary of the development\<close>

text \<open>
  What every component theory uses: the Rust integer widths and byte strings, the
  \<open>Result\<close> type and the shape of a method taking \<open>&mut self\<close>, loops that leave early, the
  standard-library string operations the sources call, and the interfaces (locales) that
  several components implement: loops that agree step by step, state machines that keep an
  invariant, machines whose failed operations change nothing, machines that freeze a part of
  their state.
\<close>

named_theorems rust_simps \<open>unfolding rules for the modelled standard-library operations\<close>

subsection \<open>Integers, bytes and strings\<close>

type_synonym u8 = "8 word"
type_synonym u16 = "16 word"
type_synonym u32 = "32 word"
type_synonym u64 = "64 word"
type_synonym u128 = "128 word"
type_synonym byte = "8 word"

text \<open>A \<open>[u8; 32]\<close>: the length is a fact of the Rust type, carried here by \<open>is_digest\<close>.\<close>

type_synonym digest = "byte list"

definition is_digest :: "digest \<Rightarrow> bool" where
  "is_digest d \<longleftrightarrow> length d = 32"

definition zero_digest :: digest where
  "zero_digest = replicate 32 0"

lemma is_digest_zero [simp]: "is_digest zero_digest"
  by (simp add: is_digest_def zero_digest_def)

text \<open>
  A Rust \<open>String\<close> is its UTF-8 byte sequence. An Isabelle \<open>char\<close> is one byte, so a \<open>string\<close>
  below is the byte sequence, \<open>length\<close> is Rust's \<open>len()\<close>, and \<open>as_bytes\<close> only changes the type.
\<close>

definition byte_of_char :: "char \<Rightarrow> byte" where
  "byte_of_char c = of_nat (of_char c)"

definition as_bytes :: "string \<Rightarrow> byte list" where
  "as_bytes s = map byte_of_char s"

lemma byte_of_char_inject [simp]: "byte_of_char c = byte_of_char d \<longleftrightarrow> c = d"
proof
  assume "byte_of_char c = byte_of_char d"
  then have "unat (byte_of_char c) = unat (byte_of_char d)" by simp
  then have "(of_char c :: nat) mod 256 = of_char d mod 256"
    by (simp add: byte_of_char_def unat_of_nat)
  then show "c = d" by simp
qed simp

lemma as_bytes_inject [simp]: "as_bytes s = as_bytes t \<longleftrightarrow> s = t"
proof -
  have "inj byte_of_char" by (simp add: inj_def)
  then show ?thesis by (simp add: as_bytes_def)
qed

lemma as_bytes_append [simp]: "as_bytes (s @ t) = as_bytes s @ as_bytes t"
  by (simp add: as_bytes_def)

lemma length_as_bytes [simp]: "length (as_bytes s) = length s"
  by (simp add: as_bytes_def)

text \<open>\<open>u64::to_be_bytes\<close>: the eight octets, the most significant first.\<close>

definition to_be_bytes :: "u64 \<Rightarrow> byte list" where
  "to_be_bytes w = map (\<lambda>i. ucast (drop_bit (8 * i) w)) [7, 6, 5, 4, 3, 2, 1, 0]"

lemma length_to_be_bytes [simp]: "length (to_be_bytes w) = 8"
  by (simp add: to_be_bytes_def)

lemma to_be_bytes_inject [simp]: "to_be_bytes v = to_be_bytes w \<longleftrightarrow> v = w"
proof
  assume eq: "to_be_bytes v = to_be_bytes w"
  have octet: "(ucast (drop_bit (8 * i) v) :: byte) = ucast (drop_bit (8 * i) w)" if "i < 8" for i
  proof -
    from that have "i \<in> {0, 1, 2, 3, 4, 5, 6, 7}" by auto
    with eq show ?thesis by (auto simp: to_be_bytes_def)
  qed
  show "v = w"
  proof (rule bit_word_eqI)
    fix n assume "n < LENGTH(64)"
    then have "n div 8 < 8" and n: "n = 8 * (n div 8) + n mod 8" by simp_all
    from octet [OF this(1)]
    have "bit (ucast (drop_bit (8 * (n div 8)) v) :: byte) (n mod 8)
        = bit (ucast (drop_bit (8 * (n div 8)) w) :: byte) (n mod 8)"
      by simp
    then show "bit v n = bit w n"
      by (simp add: bit_ucast_iff bit_drop_bit_eq)
  qed
qed simp

subsection \<open>\<open>Result\<close>, and methods on \<open>&mut self\<close>\<close>

text \<open>
  \<open>Result<T, E>\<close> is the sum \<open>'e + 'a\<close>. A method on \<open>&mut self\<close> returns the result together
  with the value of \<open>self\<close> afterwards, so that what an error path leaves behind is part of the
  model and not assumed.
\<close>

abbreviation Err :: "'e \<Rightarrow> 'e + 'a" where
  "Err \<equiv> Inl"

abbreviation Ok :: "'a \<Rightarrow> 'e + 'a" where
  "Ok \<equiv> Inr"

type_synonym ('e, 'a, 's) call = "('e + 'a) \<times> 's"

definition is_ok :: "'e + 'a \<Rightarrow> bool" where
  "is_ok r \<longleftrightarrow> (case r of Inl _ \<Rightarrow> False | Inr _ \<Rightarrow> True)"

lemma is_ok_simps [simp]: "is_ok (Inr a)" "\<not> is_ok (Inl e)"
  by (simp_all add: is_ok_def)

lemma is_ok_iff: "is_ok r \<longleftrightarrow> (\<exists>a. r = Inr a)"
  by (cases r) simp_all

lemma not_is_ok_iff: "\<not> is_ok r \<longleftrightarrow> (\<exists>e. r = Inl e)"
  by (cases r) simp_all

subsection \<open>Loops with an early return\<close>

text \<open>
  \<open>for x in xs { ... return Err(e) ... }\<close>: the body maps the loop state to an error or to the
  next state, and the first error ends the loop.
\<close>

fun try_fold :: "('s \<Rightarrow> 'a \<Rightarrow> 'e + 's) \<Rightarrow> 's \<Rightarrow> 'a list \<Rightarrow> 'e + 's" where
  "try_fold f s [] = Inr s"
| "try_fold f s (x # xs) = (case f s x of Inl e \<Rightarrow> Inl e | Inr s' \<Rightarrow> try_fold f s' xs)"

lemma try_fold_append:
  "try_fold f s (xs @ ys) =
     (case try_fold f s xs of Inl e \<Rightarrow> Inl e | Inr s' \<Rightarrow> try_fold f s' ys)"
  by (induction xs arbitrary: s) (simp_all split: sum.split)

lemma try_fold_append_ok [simp]:
  "try_fold f s xs = Inr s' \<Longrightarrow> try_fold f s (xs @ ys) = try_fold f s' ys"
  by (simp add: try_fold_append)

lemma try_fold_snoc_ok:
  "try_fold f s (xs @ [x]) = Inr r \<longleftrightarrow> (\<exists>m. try_fold f s xs = Inr m \<and> f m x = Inr r)"
  by (auto simp: try_fold_append split: sum.splits)

lemma try_fold_map: "try_fold f s (map g xs) = try_fold (\<lambda>s x. f s (g x)) s xs"
  by (induction xs arbitrary: s) (simp_all split: sum.split)

lemma enumerate_map: "List.enumerate n (map g xs) = map (\<lambda>(i, x). (i, g x)) (List.enumerate n xs)"
  by (induction xs arbitrary: n) simp_all

lemma try_fold_invariant:
  assumes "try_fold f s xs = Inr s'" and "P s"
    and "\<And>s x s'. x \<in> set xs \<Longrightarrow> P s \<Longrightarrow> f s x = Inr s' \<Longrightarrow> P s'"
  shows "P s'"
  using assms
proof (induction xs arbitrary: s)
  case (Cons x xs)
  then show ?case by (auto split: sum.splits intro: Cons.IH)
qed simp

lemma try_fold_cong:
  assumes "\<And>s x. x \<in> set xs \<Longrightarrow> f s x = g s x"
  shows "try_fold f s xs = try_fold g s xs"
  using assms by (induction xs arbitrary: s) (auto split: sum.split)

text \<open>A body that skips the elements outside \<open>P\<close> (\<open>continue\<close>) runs on the filtered list.\<close>

lemma try_fold_filter:
  assumes "\<And>s x. x \<in> set xs \<Longrightarrow> \<not> P x \<Longrightarrow> f s x = Inr s"
  shows "try_fold f s (filter P xs) = try_fold f s xs"
  using assms by (induction xs arbitrary: s) (auto split: sum.split)

text \<open>
  A loop over checks that carry no state: it succeeds when every check does, and it reports
  the first failing element.
\<close>

lemma try_fold_unit_ok:
  "try_fold (\<lambda>s x. case c x of None \<Rightarrow> Inr s | Some e \<Rightarrow> Inl e) s xs = Inr s'
     \<longleftrightarrow> s' = s \<and> (\<forall>x \<in> set xs. c x = None)"
  by (induction xs) (auto split: option.splits)

paragraph \<open>Two loops that agree step by step\<close>

text \<open>
  The sources contain several loops over the same events that must agree: a verifier, its
  break-locating twin, and the one for exported bundles. The interface: both bodies, a relation
  between their states and one between their errors; the laws: related states give related
  results on every element.
\<close>

locale lockstep =
  fixes f :: "'s \<Rightarrow> 'a \<Rightarrow> 'e + 's"
    and g :: "'t \<Rightarrow> 'a \<Rightarrow> 'd + 't"
    and rel_state :: "'s \<Rightarrow> 't \<Rightarrow> bool"
    and rel_error :: "'e \<Rightarrow> 'd \<Rightarrow> bool"
  assumes step: "rel_state s t \<Longrightarrow> rel_sum rel_error rel_state (f s x) (g t x)"
begin

lemma folds: "rel_state s t \<Longrightarrow> rel_sum rel_error rel_state (try_fold f s xs) (try_fold g t xs)"
proof (induction xs arbitrary: s t)
  case (Cons x xs)
  from step [OF Cons.prems, of x] show ?case
    by (cases rule: rel_sum.cases) (simp_all add: Cons.IH)
qed simp

lemma folds_ok: "rel_state s t \<Longrightarrow> is_ok (try_fold f s xs) \<longleftrightarrow> is_ok (try_fold g t xs)"
  using folds [of s t xs] by (auto elim!: rel_sum.cases)

lemma folds_error:
  "rel_state s t \<Longrightarrow> try_fold f s xs = Inl e \<Longrightarrow> \<exists>d. try_fold g t xs = Inl d \<and> rel_error e d"
  using folds [of s t xs] by (auto elim: rel_sum.cases)

end

subsection \<open>State machines\<close>

text \<open>
  A component's mutating methods, gathered into one \<open>exec\<close> over a datatype of operations, form
  a machine. \<open>run\<close> performs a sequence of operations; a failed one is a step too, and leaves
  whatever the method left.
\<close>

fun run :: "('op \<Rightarrow> 's \<Rightarrow> ('e, 'r, 's) call) \<Rightarrow> 'op list \<Rightarrow> 's \<Rightarrow> 's" where
  "run exec [] s = s"
| "run exec (op # ops) s = run exec ops (snd (exec op s))"

lemma run_append: "run exec (xs @ ys) s = run exec ys (run exec xs s)"
  by (induction xs arbitrary: s) simp_all

locale machine =
  fixes exec :: "'op \<Rightarrow> 's \<Rightarrow> ('e + 'r) \<times> 's"
    and inv :: "'s \<Rightarrow> bool"
  assumes exec_inv: "inv s \<Longrightarrow> inv (snd (exec op s))"
begin

lemma run_inv: "inv s \<Longrightarrow> inv (run exec ops s)"
  by (induction ops arbitrary: s) (simp_all add: exec_inv)

end

text \<open>
  Machines whose callers keep a discipline: the invariant is preserved by the operations that
  satisfy \<open>ok\<close> in the state they meet, and by sequences of such operations.
\<close>

fun guarded :: "('op \<Rightarrow> 's \<Rightarrow> bool) \<Rightarrow> ('op \<Rightarrow> 's \<Rightarrow> ('e, 'r, 's) call) \<Rightarrow> 'op list \<Rightarrow> 's \<Rightarrow> bool" where
  "guarded ok exec [] s = True"
| "guarded ok exec (op # ops) s = (ok op s \<and> guarded ok exec ops (snd (exec op s)))"

locale guarded_machine =
  fixes exec :: "'op \<Rightarrow> 's \<Rightarrow> ('e + 'r) \<times> 's"
    and ok :: "'op \<Rightarrow> 's \<Rightarrow> bool"
    and inv :: "'s \<Rightarrow> bool"
  assumes exec_inv: "ok op s \<Longrightarrow> inv s \<Longrightarrow> inv (snd (exec op s))"
begin

lemma run_inv: "guarded ok exec ops s \<Longrightarrow> inv s \<Longrightarrow> inv (run exec ops s)"
  by (induction ops arbitrary: s) (simp_all add: exec_inv)

end

text \<open>Machines whose failed operations change nothing.\<close>

locale atomic_machine =
  fixes exec :: "'op \<Rightarrow> 's \<Rightarrow> ('e + 'r) \<times> 's"
  assumes failed_unchanged: "fst (exec op s) = Inl e \<Longrightarrow> snd (exec op s) = s"
begin

lemma changed_succeeded: "snd (exec op s) \<noteq> s \<Longrightarrow> is_ok (fst (exec op s))"
  using failed_unchanged by (cases "fst (exec op s)") auto

lemma all_failed_unchanged:
  "(\<And>op. op \<in> set ops \<Longrightarrow> \<not> is_ok (fst (exec op s))) \<Longrightarrow> run exec ops s = s"
proof (induction ops)
  case (Cons op ops)
  then have "snd (exec op s) = s" using changed_succeeded by fastforce
  with Cons show ?case by simp
qed simp

end

text \<open>A call that fails returns the state it was given.\<close>

definition failure_keeps :: "('e, 'r, 's) call \<Rightarrow> 's \<Rightarrow> bool" where
  "failure_keeps c s \<longleftrightarrow> is_ok (fst c) \<or> snd c = s"

lemma failure_keeps_intros:
  "failure_keeps (Err e, s) s" "failure_keeps (Ok r, s') s"
  by (simp_all add: failure_keeps_def)

text \<open>
  Machines with a region of states (\<open>frozen\<close>) that no operation leaves and in which no
  operation changes the \<open>view\<close>: the append-only guarantees of the sources.
\<close>

locale freezing_machine = machine exec inv
  for exec :: "'op \<Rightarrow> 's \<Rightarrow> ('e + 'r) \<times> 's" and inv :: "'s \<Rightarrow> bool" +
  fixes frozen :: "'s \<Rightarrow> bool"
    and view :: "'s \<Rightarrow> 'v"
  assumes stays_frozen: "inv s \<Longrightarrow> frozen s \<Longrightarrow> frozen (snd (exec op s))"
    and frozen_view: "inv s \<Longrightarrow> frozen s \<Longrightarrow> view (snd (exec op s)) = view s"
begin

lemma run_frozen: "inv s \<Longrightarrow> frozen s \<Longrightarrow> frozen (run exec ops s) \<and> view (run exec ops s) = view s"
  by (induction ops arbitrary: s) (simp_all add: exec_inv stays_frozen frozen_view)

end

subsection \<open>Standard-library string operations\<close>

text \<open>
  \<open>char::is_whitespace\<close> is the Unicode property White_Space. \<open>ws_len\<close> gives the number of
  bytes of the UTF-8 encoding of a white-space character at the head of the string, and 0
  when the head is not one: U+0009 to U+000D and U+0020; U+0085, U+00A0; U+1680; U+2000 to
  U+200A, U+2028, U+2029, U+202F; U+205F; U+3000.
\<close>

fun ws_len_bytes :: "nat list \<Rightarrow> nat" where
  "ws_len_bytes (a # bs) =
     (if 9 \<le> a \<and> a \<le> 13 \<or> a = 32 then 1
      else if a = 194 then (case bs of b # _ \<Rightarrow> if b = 133 \<or> b = 160 then 2 else 0 | [] \<Rightarrow> 0)
      else case bs of
        b # c # _ \<Rightarrow>
          if a = 225 \<and> b = 154 \<and> c = 128
             \<or> a = 226 \<and> b = 128 \<and> (128 \<le> c \<and> c \<le> 138 \<or> c = 168 \<or> c = 169 \<or> c = 175)
             \<or> a = 226 \<and> b = 129 \<and> c = 159
             \<or> a = 227 \<and> b = 128 \<and> c = 128
          then 3 else 0
      | _ \<Rightarrow> 0)"
| "ws_len_bytes [] = 0"

definition ws_len :: "string \<Rightarrow> nat" where
  "ws_len s = ws_len_bytes (map of_char (take 3 s))"

function trim_start :: "string \<Rightarrow> string" where
  "trim_start s = (if ws_len s = 0 \<or> s = [] then s else trim_start (drop (ws_len s) s))"
  by pat_completeness auto
termination
  by (relation "measure length") auto

declare trim_start.simps [simp del]

lemma trim_start_Nil [simp]: "trim_start [] = []"
  by (subst trim_start.simps) simp

fun trim_end :: "string \<Rightarrow> string" where
  "trim_end [] = []"
| "trim_end (c # cs) = (if trim_start (c # cs) = [] then [] else c # trim_end cs)"

text \<open>\<open>str::trim\<close>, and \<open>s.trim().is_empty()\<close>.\<close>

definition trim :: "string \<Rightarrow> string" where
  "trim s = trim_end (trim_start s)"

definition is_blank :: "string \<Rightarrow> bool" where
  "is_blank s \<longleftrightarrow> trim s = []"

lemma trim_start_idem [simp]: "trim_start (trim_start s) = trim_start s"
proof (induction s rule: trim_start.induct)
  case (1 s)
  then show ?case by (subst (2 3) trim_start.simps) (auto simp: trim_start.simps [of s])
qed

lemma is_blank_iff: "is_blank s \<longleftrightarrow> trim_start s = []"
proof -
  have "trim_end t = [] \<longleftrightarrow> trim_start t = []" for t by (cases t) auto
  then show ?thesis by (simp add: is_blank_def trim_def)
qed

lemma is_blank_Nil [simp]: "is_blank []"
  by (simp add: is_blank_iff)

text \<open>\<open>s.chars().filter(|c| !c.is_whitespace()).collect()\<close>.\<close>

function remove_whitespace :: "string \<Rightarrow> string" where
  "remove_whitespace s =
     (case s of [] \<Rightarrow> []
      | c # cs \<Rightarrow> if ws_len s = 0 then c # remove_whitespace cs
                  else remove_whitespace (drop (ws_len s) s))"
  by pat_completeness auto
termination
  by (relation "measure length") auto

declare remove_whitespace.simps [simp del]

text \<open>\<open>s.chars().count()\<close>: the bytes that are not UTF-8 continuation bytes.\<close>

definition char_count :: "string \<Rightarrow> nat" where
  "char_count s = length (filter (\<lambda>c. \<not> (128 \<le> (of_char c :: nat) \<and> (of_char c :: nat) < 192)) s)"

lemma char_count_le: "char_count s \<le> length s"
  by (simp add: char_count_def)

text \<open>\<open>str::strip_prefix\<close>, \<open>str::split(char)\<close>, \<open>str::contains(&str)\<close>.\<close>

fun strip_prefix :: "string \<Rightarrow> string \<Rightarrow> string option" where
  "strip_prefix [] s = Some s"
| "strip_prefix (p # ps) [] = None"
| "strip_prefix (p # ps) (c # cs) = (if p = c then strip_prefix ps cs else None)"

lemma strip_prefix_append [simp]: "strip_prefix p (p @ s) = Some s"
  by (induction p) simp_all

lemma strip_prefix_Some_iff: "strip_prefix p s = Some t \<longleftrightarrow> s = p @ t"
  by (induction p s rule: strip_prefix.induct) auto

fun split_on :: "char \<Rightarrow> string \<Rightarrow> string list" where
  "split_on c [] = [[]]"
| "split_on c (x # xs) =
     (if x = c then [] # split_on c xs
      else case split_on c xs of [] \<Rightarrow> [[x]] | seg # segs \<Rightarrow> (x # seg) # segs)"

lemma split_on_ne [simp]: "split_on c s \<noteq> []"
  by (induction s) (auto split: list.split)

lemma split_on_free: "c \<notin> set s \<Longrightarrow> split_on c s = [s]"
  by (induction s) auto

lemma split_on_join: "c \<notin> set s \<Longrightarrow> split_on c (s @ c # t) = s # split_on c t"
  by (induction s) auto

fun contains_str :: "string \<Rightarrow> string \<Rightarrow> bool" where
  "contains_str needle [] = (needle = [])"
| "contains_str needle (c # cs) = (strip_prefix needle (c # cs) \<noteq> None \<or> contains_str needle cs)"

lemma contains_str_iff: "contains_str needle s \<longleftrightarrow> (\<exists>pre post. s = pre @ needle @ post)"
proof (induction s)
  case (Cons c cs)
  show ?case
  proof
    assume "contains_str needle (c # cs)"
    then consider t where "c # cs = needle @ t" | "contains_str needle cs"
      by (auto simp: strip_prefix_Some_iff)
    then show "\<exists>pre post. c # cs = pre @ needle @ post"
      using Cons.IH by cases (metis append_Nil, metis append_Cons)
  next
    assume "\<exists>pre post. c # cs = pre @ needle @ post"
    then obtain pre post where eq: "c # cs = pre @ needle @ post" by blast
    show "contains_str needle (c # cs)"
    proof (cases pre)
      case Nil
      with eq have "strip_prefix needle (c # cs) = Some post"
        by (simp add: strip_prefix_Some_iff)
      then show ?thesis by simp
    next
      case (Cons _ pre')
      with eq show ?thesis using \<open>contains_str needle cs \<longleftrightarrow> _\<close> by auto
    qed
  qed
qed simp

definition ascii_lower :: "char \<Rightarrow> char" where
  "ascii_lower c = (let n = (of_char c :: nat) in
     if 65 \<le> n \<and> n \<le> 90 then char_of (n + 32) else c)"

definition to_ascii_lowercase :: "string \<Rightarrow> string" where
  "to_ascii_lowercase s = map ascii_lower s"

text \<open>\<open>str::rsplit_once(char)\<close>: the parts before and after the last occurrence.\<close>

fun rsplit_once :: "char \<Rightarrow> string \<Rightarrow> (string \<times> string) option" where
  "rsplit_once c [] = None"
| "rsplit_once c (x # xs) =
     (case rsplit_once c xs of
        Some (a, b) \<Rightarrow> Some (x # a, b)
      | None \<Rightarrow> if x = c then Some ([], xs) else None)"

lemma rsplit_once_None_iff: "rsplit_once c s = None \<longleftrightarrow> c \<notin> set s"
  by (induction s) (auto split: option.split)

lemma rsplit_once_last:
  assumes "c \<notin> set t"
  shows "rsplit_once c (s @ c # t) = Some (s, t)"
proof -
  from assms have "rsplit_once c t = None" by (simp add: rsplit_once_None_iff)
  then show ?thesis by (induction s) simp_all
qed

text \<open>\<open>Iterator::find_map\<close>.\<close>

fun find_map :: "('a \<Rightarrow> 'b option) \<Rightarrow> 'a list \<Rightarrow> 'b option" where
  "find_map f [] = None"
| "find_map f (x # xs) = (case f x of Some y \<Rightarrow> Some y | None \<Rightarrow> find_map f xs)"

lemma find_map_None_iff: "find_map f xs = None \<longleftrightarrow> (\<forall>x \<in> set xs. f x = None)"
  by (induction xs) (auto split: option.split)

text \<open>
  A list in which every element stands in a relation to its position and to the element before
  it: the declarative form of the chains that the loops check.
\<close>

definition linked :: "(nat \<Rightarrow> 'a option \<Rightarrow> 'a \<Rightarrow> bool) \<Rightarrow> 'a list \<Rightarrow> bool" where
  "linked P xs \<longleftrightarrow> (\<forall>i < length xs. P i (if i = 0 then None else Some (xs ! (i - 1))) (xs ! i))"

lemma linked_Nil [simp]: "linked P []"
  by (simp add: linked_def)

lemma linked_snoc [simp]:
  "linked P (xs @ [x]) \<longleftrightarrow>
     linked P xs \<and> P (length xs) (if xs = [] then None else Some (last xs)) x"
proof -
  have pre: "(if i = 0 then None else Some ((xs @ [x]) ! (i - 1))) =
      (if i = 0 then None else Some (xs ! (i - 1)))" if "i \<le> length xs" for i
    using that by (auto simp: nth_append)
  have "linked P (xs @ [x]) \<longleftrightarrow>
      (\<forall>i < length xs. P i (if i = 0 then None else Some (xs ! (i - 1))) (xs ! i))
      \<and> P (length xs) (if length xs = 0 then None else Some (xs ! (length xs - 1))) x"
    by (auto simp: linked_def All_less_Suc pre nth_append)
  then show ?thesis by (cases "xs = []") (simp_all add: linked_def last_conv_nth)
qed

lemma linked_mono: "linked P xs \<Longrightarrow> (\<And>i b x. x \<in> set xs \<Longrightarrow> P i b x \<Longrightarrow> Q i b x) \<Longrightarrow> linked Q xs"
  by (simp add: linked_def)

lemma sep_append_eq:
  "x \<notin> set xs \<Longrightarrow> x \<notin> set xs' \<Longrightarrow> xs @ x # ys = xs' @ x # ys' \<longleftrightarrow> xs = xs' \<and> ys = ys'"
  by (auto simp: append_eq_Cons_conv Cons_eq_append_conv append_eq_append_conv2)

text \<open>\<open>format!("{n}")\<close> of an integer, and \<open>{b:02x}\<close> of each byte.\<close>

fun nat_decimal :: "nat \<Rightarrow> string" where
  "nat_decimal n = (if n < 10 then [char_of (48 + n)]
     else nat_decimal (n div 10) @ [char_of (48 + n mod 10)])"

declare nat_decimal.simps [simp del]

definition hex_digit :: "nat \<Rightarrow> char" where
  "hex_digit n = (if n < 10 then char_of (48 + n) else char_of (87 + n))"

definition hex_bytes :: "byte list \<Rightarrow> string" where
  "hex_bytes bs = concat (map (\<lambda>b. [hex_digit (unat b div 16), hex_digit (unat b mod 16)]) bs)"

text \<open>\<open>time::OffsetDateTime\<close>: an instant and the offset it is written in.\<close>

record offset_date_time =
  unix_nanos :: int
  utc_offset :: int

end
