(* ===== verification/Chain_Id.thy ===== *)
theory Chain_Id
  imports Prelude
begin

section \<open>Chain identities and chain membership\<close>

text \<open>
  \<open>src/crates/chancela-ledger/src/lib.rs\<close>: the \<open>ChainId\<close> enum with its canonical string form,
  ordering and parser, and \<open>Ledger::memberships\<close>, which derives from an event's scope the
  non-global chains the event joins. \<open>uuid::Uuid::parse_str\<close> is code outside the repository: the
  parameter \<open>uuid_ok\<close> says on which strings it succeeds.
\<close>

datatype chain_id =
    Global
  | Application
  | Tenant string
  | Company string
  | Book string

definition is_global :: "chain_id \<Rightarrow> bool" where
  "is_global c \<longleftrightarrow> (case c of Global \<Rightarrow> True | _ \<Rightarrow> False)"

text \<open>\<open>fmt::Display\<close>, which \<open>canonical\<close> and the serialiser use.\<close>

fun canonical :: "chain_id \<Rightarrow> string" where
  "canonical Global = ''global''"
| "canonical Application = ''application''"
| "canonical (Tenant i) = ''tenant:'' @ i"
| "canonical (Company i) = ''company:'' @ i"
| "canonical (Book i) = ''book:'' @ i"

fun expected_genesis_kind :: "chain_id \<Rightarrow> string option" where
  "expected_genesis_kind (Book _) = Some ''book.opened''"
| "expected_genesis_kind (Company _) = Some ''entity.created''"
| "expected_genesis_kind (Tenant _) = None"
| "expected_genesis_kind Global = None"
| "expected_genesis_kind Application = None"

datatype chain_id_parse_error = ChainIdParseError string

definition parse_chain_id :: "string \<Rightarrow> chain_id_parse_error + chain_id" where
  "parse_chain_id s =
     (if s = ''global'' then Ok Global
      else if s = ''application'' then Ok Application
      else case strip_prefix ''tenant:'' s of
        Some i \<Rightarrow> if i = [] then Err (ChainIdParseError s) else Ok (Tenant i)
      | None \<Rightarrow> (case strip_prefix ''company:'' s of
          Some i \<Rightarrow> if i = [] then Err (ChainIdParseError s) else Ok (Company i)
        | None \<Rightarrow> (case strip_prefix ''book:'' s of
            Some i \<Rightarrow> if i = [] then Err (ChainIdParseError s) else Ok (Book i)
          | None \<Rightarrow> Err (ChainIdParseError s))))"

lemma is_global_iff [simp]: "is_global c \<longleftrightarrow> c = Global"
  by (cases c) (simp_all add: is_global_def)

lemma canonical_inject [simp]: "canonical c = canonical d \<longleftrightarrow> c = d"
  by (cases c; cases d) auto

subsection \<open>Ordering by the canonical form\<close>

text \<open>
  \<open>impl Ord for ChainId\<close>: ascending by the canonical string, byte by byte. The comparison is the
  code's; the order of the type is read off it, and evaluated on the canonical strings.
\<close>

datatype ordering = Less | Equal | Greater

definition chain_id_cmp :: "chain_id \<Rightarrow> chain_id \<Rightarrow> ordering" where
  "chain_id_cmp c d =
     (if canonical c < canonical d then Less else if canonical c = canonical d then Equal else Greater)"

definition chain_id_partial_cmp :: "chain_id \<Rightarrow> chain_id \<Rightarrow> ordering option" where
  "chain_id_partial_cmp c d = Some (chain_id_cmp c d)"

lemma chain_id_cmp_iff:
  "chain_id_cmp c d \<noteq> Greater \<longleftrightarrow> canonical c \<le> canonical d"
  "chain_id_cmp c d = Less \<longleftrightarrow> canonical c < canonical d"
  "chain_id_cmp c d = Equal \<longleftrightarrow> c = d"
  by (auto simp: chain_id_cmp_def)

instantiation chain_id :: linorder
begin

definition less_eq_chain_id :: "chain_id \<Rightarrow> chain_id \<Rightarrow> bool" where
  "less_eq_chain_id c d \<longleftrightarrow> chain_id_cmp c d \<noteq> Greater"

definition less_chain_id :: "chain_id \<Rightarrow> chain_id \<Rightarrow> bool" where
  "less_chain_id c d \<longleftrightarrow> chain_id_partial_cmp c d = Some Less"

instance
  by intro_classes
    (auto simp: less_eq_chain_id_def less_chain_id_def chain_id_partial_cmp_def chain_id_cmp_iff less_le_not_le)

end

lemma chain_id_order [code]:
  "(c :: chain_id) \<le> d \<longleftrightarrow> canonical c \<le> canonical d"
  "(c :: chain_id) < d \<longleftrightarrow> canonical c < canonical d"
  by (simp_all add: less_eq_chain_id_def less_chain_id_def chain_id_partial_cmp_def chain_id_cmp_iff)

subsection \<open>Membership\<close>

text \<open>The value of the first \<open>/\<close>-separated segment that begins with the prefix.\<close>

definition segment_value :: "string \<Rightarrow> string \<Rightarrow> string option" where
  "segment_value scope prefix = find_map (strip_prefix prefix) (split_on (CHR ''/'') scope)"

text \<open>\<open>segment_value(scope, p).filter(|s| !s.is_empty())\<close>.\<close>

definition nonempty_segment :: "string \<Rightarrow> string \<Rightarrow> string option" where
  "nonempty_segment scope prefix =
     (case segment_value scope prefix of
        Some v \<Rightarrow> if v = [] then None else Some v
      | None \<Rightarrow> None)"

definition memberships :: "(string \<Rightarrow> bool) \<Rightarrow> string \<Rightarrow> string \<Rightarrow> chain_id list" where
  "memberships uuid_ok scope kind =
     (let tenant_id = nonempty_segment scope ''tenant:'';
          entity_id = nonempty_segment scope ''entity:'';
          book_id = nonempty_segment scope ''book:'';
          chains = (case tenant_id of Some tid \<Rightarrow> [Tenant tid] | None \<Rightarrow> []);
          chains' =
            (case entity_id of
               Some eid \<Rightarrow> chains @ [Company eid]
                 @ (case book_id of Some bid \<Rightarrow> [Book bid] | None \<Rightarrow> [])
             | None \<Rightarrow> (case book_id of
                 Some bid \<Rightarrow> chains @ [Book bid]
               | None \<Rightarrow>
                   if tenant_id = None \<and> uuid_ok scope then chains @ [Company scope]
                   else if chains = [] then chains @ [Application]
                   else chains))
      in sort chains')"

lemma nonempty_segment_not_empty: "nonempty_segment scope p = Some v \<Longrightarrow> v \<noteq> []"
  by (auto simp: nonempty_segment_def split: option.splits if_splits)

text \<open>Every branch of the scope grammar.\<close>

lemma set_memberships:
  "set (memberships uuid_ok scope kind) =
     set_option (map_option Tenant (nonempty_segment scope ''tenant:''))
     \<union> set_option (map_option Company (nonempty_segment scope ''entity:''))
     \<union> set_option (map_option Book (nonempty_segment scope ''book:''))
     \<union> (if nonempty_segment scope ''tenant:'' = None \<and> nonempty_segment scope ''entity:'' = None
           \<and> nonempty_segment scope ''book:'' = None
        then {if uuid_ok scope then Company scope else Application} else {})"
  by (simp add: memberships_def Let_def insert_commute split: option.split)

lemma distinct_memberships [simp]: "distinct (memberships uuid_ok scope kind)"
  by (simp add: memberships_def Let_def split: option.split)

lemma sorted_memberships [simp]: "sorted (memberships uuid_ok scope kind)"
  by (simp add: memberships_def Let_def)

lemma memberships_not_empty [simp]: "memberships uuid_ok scope kind \<noteq> []"
proof -
  have "set (memberships uuid_ok scope kind) \<noteq> {}"
    by (cases "nonempty_segment scope ''tenant:''"; cases "nonempty_segment scope ''entity:''";
        cases "nonempty_segment scope ''book:''") (simp_all add: set_memberships)
  then show ?thesis by auto
qed

lemma Global_notin_memberships [simp]: "Global \<notin> set (memberships uuid_ok scope kind)"
  by (auto simp: set_memberships)

text \<open>The identifiers of the derived chains are not empty, so that each parses back.\<close>

lemma memberships_ids:
  assumes "\<not> uuid_ok []" and "c \<in> set (memberships uuid_ok scope kind)"
  shows "c \<notin> {Tenant [], Company [], Book []}"
  using assms by (auto simp: set_memberships nonempty_segment_def split: option.splits if_splits)

lemma parse_canonical:
  "parse_chain_id (canonical c) =
     (if c \<in> {Tenant [], Company [], Book []} then Err (ChainIdParseError (canonical c)) else Ok c)"
  by (cases c) (auto simp: parse_chain_id_def)

lemma parse_chain_id_Ok: "parse_chain_id s = Ok c \<longleftrightarrow> s = canonical c \<and> c \<notin> {Tenant [], Company [], Book []}"
proof
  assume "parse_chain_id s = Ok c"
  then show "s = canonical c \<and> c \<notin> {Tenant [], Company [], Book []}"
    by (auto simp: parse_chain_id_def strip_prefix_Some_iff split: if_splits option.splits)
next
  assume "s = canonical c \<and> c \<notin> {Tenant [], Company [], Book []}"
  then show "parse_chain_id s = Ok c" using parse_canonical [of c] by auto
qed

end
