(* ===== verification/Ledger.thy ===== *)
theory Ledger
  imports Chain_Id
begin

section \<open>The hash-chained ledger\<close>

text \<open>
  \<open>src/crates/chancela-ledger/src/lib.rs\<close>: events, the hash preimage, \<open>append\<close>, and the
  verifiers \<open>verify\<close>, \<open>verify_chain\<close> and \<open>verify_global\<close>. The loops run over the event vector in
  the order of the code; the loop state of \<open>verify\<close> is the pair of its two mutable variables.

  SHA-256, the RFC 3339 formatter and the UUID parser are code outside the repository: they are
  the fields of \<open>ledger_env\<close>. Nothing is assumed of them here; the theorems on tampering name
  the collision they would need.
\<close>

unbundle bit_operations_syntax

record ledger_env =
  sha256 :: "byte list \<Rightarrow> digest"
  format_rfc3339 :: "offset_date_time \<Rightarrow> string option"
  uuid_parses :: "string \<Rightarrow> bool"

type_synonym uuid = u128

record chain_link =
  ln_chain :: chain_id
  ln_seq :: u64
  ln_prev_hash :: digest

record event =
  ev_id :: uuid
  ev_seq :: u64
  ev_actor :: string
  ev_justification :: "string option"
  ev_timestamp :: offset_date_time
  ev_scope :: string
  ev_kind :: string
  ev_payload_digest :: digest
  ev_prev_hash :: digest
  ev_links :: "chain_link list"
  ev_hash :: digest

datatype ledger_error =
    BadGenesis
  | SequenceBroken (err_index: nat) (err_expected: u64) (err_found: u64)
  | LinkBroken u64
  | HashMismatch u64
  | ChainSequenceBroken chain_id u64 u64
  | ChainLinkBroken chain_id u64
  | ChainGenesisWrong chain_id string string

record ledger =
  events :: "event list"

definition ledger_new :: ledger where
  "ledger_new = \<lparr>events = []\<rparr>"

subsection \<open>The hash preimage\<close>

definition FIELD_SEP :: byte where "FIELD_SEP = 0x1F"

definition RECORD_SEP :: byte where "RECORD_SEP = 0x1E"

definition digest_of :: "ledger_env \<Rightarrow> byte list \<Rightarrow> digest" where
  "digest_of env payload = sha256 env payload"

text \<open>The text of the timestamp in the preimage, with the fallback of \<open>unwrap_or_else\<close>.\<close>

definition timestamp_text :: "ledger_env \<Rightarrow> offset_date_time \<Rightarrow> string" where
  "timestamp_text env ts =
     (case format_rfc3339 env ts of Some s \<Rightarrow> s | None \<Rightarrow> ''1970-01-01T00:00:00Z'')"

text \<open>\<open>ordered.sort_by(|a, b| a.chain.cmp(&b.chain))\<close> is a stable sort, as \<open>sort_key\<close> is.\<close>

definition link_bytes :: "chain_link \<Rightarrow> byte list" where
  "link_bytes link =
     as_bytes (canonical (ln_chain link)) @ [FIELD_SEP] @ to_be_bytes (ln_seq link)
       @ ln_prev_hash link @ [RECORD_SEP]"

definition hash_preimage ::
  "ledger_env \<Rightarrow> digest \<Rightarrow> u64 \<Rightarrow> string \<Rightarrow> string \<Rightarrow> string \<Rightarrow> offset_date_time \<Rightarrow> digest
     \<Rightarrow> chain_link list \<Rightarrow> byte list" where
  "hash_preimage env prev_hash seq actor scope kind timestamp payload_digest links =
     prev_hash @ to_be_bytes seq @ as_bytes actor @ [FIELD_SEP] @ as_bytes scope @ [FIELD_SEP]
       @ as_bytes kind @ [FIELD_SEP] @ as_bytes (timestamp_text env timestamp) @ [FIELD_SEP]
       @ payload_digest @ [RECORD_SEP] @ concat (map link_bytes (sort_key ln_chain links))"

definition compute_hash ::
  "ledger_env \<Rightarrow> digest \<Rightarrow> u64 \<Rightarrow> string \<Rightarrow> string \<Rightarrow> string \<Rightarrow> offset_date_time \<Rightarrow> digest
     \<Rightarrow> chain_link list \<Rightarrow> digest" where
  "compute_hash env prev_hash seq actor scope kind timestamp payload_digest links =
     sha256 env (hash_preimage env prev_hash seq actor scope kind timestamp payload_digest links)"

text \<open>\<open>Event::compute_hash\<close>.\<close>

definition event_preimage :: "ledger_env \<Rightarrow> event \<Rightarrow> digest \<Rightarrow> byte list" where
  "event_preimage env e prev_hash =
     hash_preimage env prev_hash (ev_seq e) (ev_actor e) (ev_scope e) (ev_kind e)
       (ev_timestamp e) (ev_payload_digest e) (ev_links e)"

definition event_compute_hash :: "ledger_env \<Rightarrow> event \<Rightarrow> digest \<Rightarrow> digest" where
  "event_compute_hash env e prev_hash =
     compute_hash env prev_hash (ev_seq e) (ev_actor e) (ev_scope e) (ev_kind e)
       (ev_timestamp e) (ev_payload_digest e) (ev_links e)"

subsection \<open>Heads and appending\<close>

type_synonym heads = "chain_id \<rightharpoonup> u64 \<times> digest"

definition insert_link_heads :: "event \<Rightarrow> heads \<Rightarrow> heads" where
  "insert_link_heads e heads =
     fold (\<lambda>link h. h(ln_chain link \<mapsto> (ln_seq link, ev_hash e))) (ev_links e) heads"

definition chain_heads :: "ledger \<Rightarrow> heads" where
  "chain_heads l = fold insert_link_heads (events l) Map.empty"

definition head :: "ledger \<Rightarrow> digest option" where
  "head l = (if events l = [] then None else Some (ev_hash (last (events l))))"

definition next_link :: "heads \<Rightarrow> chain_id \<Rightarrow> chain_link" where
  "next_link heads chain =
     (case heads chain of
        Some (head_seq, head_hash) \<Rightarrow>
          \<lparr>ln_chain = chain, ln_seq = head_seq + 1, ln_prev_hash = head_hash\<rparr>
      | None \<Rightarrow> \<lparr>ln_chain = chain, ln_seq = 0, ln_prev_hash = zero_digest\<rparr>)"

text \<open>
  \<open>append_at\<close>. \<open>EventId::new()\<close> draws a random identifier: it is the argument \<open>new_id\<close>. The
  returned reference is to the event pushed last.
\<close>

definition append_at ::
  "ledger_env \<Rightarrow> ledger \<Rightarrow> uuid \<Rightarrow> string \<Rightarrow> string \<Rightarrow> string \<Rightarrow> string option \<Rightarrow> byte list
     \<Rightarrow> offset_date_time \<Rightarrow> event \<times> ledger" where
  "append_at env l new_id actor scope kind justification payload timestamp =
     (let seq = of_nat (length (events l));
          prev_hash = (case head l of Some h \<Rightarrow> h | None \<Rightarrow> zero_digest);
          payload_digest = digest_of env payload;
          heads = chain_heads l;
          links = sort_key ln_chain
            (map (next_link heads) (memberships (uuid_parses env) scope kind));
          hash = compute_hash env prev_hash seq actor scope kind timestamp payload_digest links;
          e = \<lparr>ev_id = new_id, ev_seq = seq, ev_actor = actor, ev_justification = justification,
               ev_timestamp = timestamp, ev_scope = scope, ev_kind = kind,
               ev_payload_digest = payload_digest, ev_prev_hash = prev_hash, ev_links = links,
               ev_hash = hash\<rparr>
      in (e, l\<lparr>events := events l @ [e]\<rparr>))"

text \<open>\<open>append\<close> reads the clock: \<open>now\<close> is \<open>OffsetDateTime::now_utc()\<close>.\<close>

definition append_event ::
  "ledger_env \<Rightarrow> ledger \<Rightarrow> uuid \<Rightarrow> offset_date_time \<Rightarrow> string \<Rightarrow> string \<Rightarrow> string
     \<Rightarrow> string option \<Rightarrow> byte list \<Rightarrow> event \<times> ledger" where
  "append_event env l new_id now actor scope kind justification payload =
     append_at env l new_id actor scope kind justification payload now"

subsection \<open>Verification\<close>

definition check_chain_genesis :: "chain_id \<Rightarrow> chain_link \<Rightarrow> string \<Rightarrow> ledger_error + unit" where
  "check_chain_genesis chain link event_kind =
     (if ln_seq link \<noteq> 0 then Err (ChainSequenceBroken chain 0 (ln_seq link))
      else if ln_prev_hash link \<noteq> zero_digest then Err (ChainLinkBroken chain (ln_seq link))
      else case expected_genesis_kind chain of
        Some expected \<Rightarrow>
          if event_kind \<noteq> expected then Err (ChainGenesisWrong chain expected event_kind)
          else Ok ()
      | None \<Rightarrow> Ok ())"

text \<open>The match on the chain's state that \<open>verify\<close> and \<open>verify_chain\<close> share.\<close>

definition check_link ::
  "chain_id \<Rightarrow> (u64 \<times> digest) option \<Rightarrow> chain_link \<Rightarrow> string \<Rightarrow> ledger_error + unit" where
  "check_link chain state link event_kind =
     (case state of
        None \<Rightarrow> check_chain_genesis chain link event_kind
      | Some (last_seq, last_hash) \<Rightarrow>
          (let expected = last_seq + 1 in
           if ln_seq link \<noteq> expected then Err (ChainSequenceBroken chain expected (ln_seq link))
           else if ln_prev_hash link \<noteq> last_hash then Err (ChainLinkBroken chain (ln_seq link))
           else Ok ()))"

text \<open>The checks of the global spine on one event.\<close>

definition check_spine :: "ledger_env \<Rightarrow> digest \<Rightarrow> nat \<Rightarrow> event \<Rightarrow> ledger_error + unit" where
  "check_spine env global_prev index event =
     (let expected_seq = of_nat index in
      if ev_seq event \<noteq> expected_seq
      then Err (SequenceBroken index expected_seq (ev_seq event))
      else if index = 0 \<and> ev_prev_hash event \<noteq> zero_digest then Err BadGenesis
      else if ev_prev_hash event \<noteq> global_prev then Err (LinkBroken (ev_seq event))
      else if event_compute_hash env event (ev_prev_hash event) \<noteq> ev_hash event
      then Err (HashMismatch (ev_seq event))
      else Ok ())"

definition verify_link :: "event \<Rightarrow> heads \<Rightarrow> chain_link \<Rightarrow> ledger_error + heads" where
  "verify_link event chain_state link =
     (case check_link (ln_chain link) (chain_state (ln_chain link)) link (ev_kind event) of
        Inl err \<Rightarrow> Err err
      | Inr _ \<Rightarrow> Ok (chain_state(ln_chain link \<mapsto> (ln_seq link, ev_hash event))))"

definition verify_event ::
  "ledger_env \<Rightarrow> digest \<times> heads \<Rightarrow> nat \<times> event \<Rightarrow> ledger_error + digest \<times> heads" where
  "verify_event env = (\<lambda>(global_prev, chain_state) (index, event).
     case check_spine env global_prev index event of
       Inl err \<Rightarrow> Err err
     | Inr _ \<Rightarrow> (case try_fold (verify_link event) chain_state (ev_links event) of
         Inl err \<Rightarrow> Err err
       | Inr chain_state' \<Rightarrow> Ok (ev_hash event, chain_state')))"

definition verify :: "ledger_env \<Rightarrow> ledger \<Rightarrow> ledger_error + u64" where
  "verify env l =
     (case try_fold (verify_event env) (zero_digest, Map.empty) (List.enumerate 0 (events l)) of
        Inl err \<Rightarrow> Err err
      | Inr _ \<Rightarrow> Ok (of_nat (length (events l))))"

definition verify_global_event ::
  "ledger_env \<Rightarrow> digest \<Rightarrow> nat \<times> event \<Rightarrow> ledger_error + digest" where
  "verify_global_event env = (\<lambda>global_prev (index, event).
     case check_spine env global_prev index event of
       Inl err \<Rightarrow> Err err
     | Inr _ \<Rightarrow> Ok (ev_hash event))"

definition verify_global :: "ledger_env \<Rightarrow> ledger \<Rightarrow> ledger_error + u64" where
  "verify_global env l =
     (case try_fold (verify_global_event env) zero_digest (List.enumerate 0 (events l)) of
        Inl err \<Rightarrow> Err err
      | Inr _ \<Rightarrow> Ok (of_nat (length (events l))))"

text \<open>\<open>event.links.iter().find(|l| &l.chain == chain)\<close>.\<close>

definition chain_link_of :: "chain_id \<Rightarrow> event \<Rightarrow> chain_link option" where
  "chain_link_of chain event = List.find (\<lambda>l. ln_chain l = chain) (ev_links event)"

definition verify_chain_event ::
  "ledger_env \<Rightarrow> chain_id \<Rightarrow> (u64 \<times> digest) option \<times> u64 \<Rightarrow> event
     \<Rightarrow> ledger_error + (u64 \<times> digest) option \<times> u64" where
  "verify_chain_event env chain = (\<lambda>(state, count) event.
     case chain_link_of chain event of
       None \<Rightarrow> Ok (state, count)
     | Some link \<Rightarrow>
         if event_compute_hash env event (ev_prev_hash event) \<noteq> ev_hash event
         then Err (HashMismatch (ev_seq event))
         else (case check_link chain state link (ev_kind event) of
             Inl err \<Rightarrow> Err err
           | Inr _ \<Rightarrow> Ok (Some (ln_seq link, ev_hash event), count + 1)))"

definition verify_chain :: "ledger_env \<Rightarrow> ledger \<Rightarrow> chain_id \<Rightarrow> ledger_error + u64" where
  "verify_chain env l chain =
     (if is_global chain then verify_global env l
      else case try_fold (verify_chain_event env chain) (None, 0) (events l) of
        Inl err \<Rightarrow> Err err
      | Inr (_, count) \<Rightarrow> Ok count)"

definition try_from_events :: "ledger_env \<Rightarrow> event list \<Rightarrow> ledger \<times> (ledger_error + u64)" where
  "try_from_events env evs = (let l = \<lparr>events = evs\<rparr> in (l, verify env l))"

subsection \<open>Read-only views\<close>

definition distinct_non_global_chains :: "ledger \<Rightarrow> chain_id list" where
  "distinct_non_global_chains l =
     sorted_list_of_set (\<Union>e \<in> set (events l). ln_chain ` set (ev_links e))"

definition in_chain :: "chain_id \<Rightarrow> event \<Rightarrow> bool" where
  "in_chain chain e \<longleftrightarrow> (\<exists>l \<in> set (ev_links e). ln_chain l = chain)"

definition events_in_chain :: "ledger \<Rightarrow> chain_id \<Rightarrow> event list" where
  "events_in_chain l chain =
     (if is_global chain then events l else filter (in_chain chain) (events l))"

definition chain_length :: "ledger \<Rightarrow> chain_id \<Rightarrow> u64" where
  "chain_length l chain =
     (if is_global chain then of_nat (length (events l))
      else of_nat (length (filter (in_chain chain) (events l))))"

definition chain_head :: "ledger \<Rightarrow> chain_id \<Rightarrow> digest option" where
  "chain_head l chain =
     (if is_global chain then head l
      else map_option ev_hash (List.find (in_chain chain) (rev (events l))))"


section \<open>What the verifiers check\<close>

text \<open>
  The specification, by position and without loops. The members of a chain are the events that
  carry a link to it, each with that link. A chain is linked when at every position the member's
  stored hash is the one recomputed, its sequence number is the position, its backward hash is
  the hash of the member before it (all zeroes at the first), and the first member has the kind
  the chain requires.
\<close>

fun chain_members :: "chain_id \<Rightarrow> event list \<Rightarrow> (chain_link \<times> event) list" where
  "chain_members c [] = []"
| "chain_members c (e # es) =
     (case chain_link_of c e of None \<Rightarrow> [] | Some l \<Rightarrow> [(l, e)]) @ chain_members c es"

definition hash_fits :: "ledger_env \<Rightarrow> event \<Rightarrow> bool" where
  "hash_fits env e \<longleftrightarrow> event_compute_hash env e (ev_prev_hash e) = ev_hash e"

definition genesis_fits :: "chain_id \<Rightarrow> string \<Rightarrow> bool" where
  "genesis_fits c kind \<longleftrightarrow> expected_genesis_kind c \<in> {None, Some kind}"

definition chain_linked :: "ledger_env \<Rightarrow> chain_id \<Rightarrow> (chain_link \<times> event) list \<Rightarrow> bool" where
  "chain_linked env c = linked (\<lambda>i before (l, e).
     hash_fits env e
     \<and> ln_seq l = of_nat i
     \<and> ln_prev_hash l = (case before of None \<Rightarrow> zero_digest | Some (_, e') \<Rightarrow> ev_hash e')
     \<and> (before = None \<longrightarrow> genesis_fits c (ev_kind e)))"

definition spine_linked :: "ledger_env \<Rightarrow> event list \<Rightarrow> bool" where
  "spine_linked env = linked (\<lambda>i before e.
     hash_fits env e
     \<and> ev_seq e = of_nat i
     \<and> ev_prev_hash e = (case before of None \<Rightarrow> zero_digest | Some e' \<Rightarrow> ev_hash e'))"

text \<open>Events as \<open>append\<close> makes them: at most one link for each chain, none for the spine.\<close>

definition links_canonical :: "event list \<Rightarrow> bool" where
  "links_canonical evs \<longleftrightarrow> (\<forall>e \<in> set evs.
     distinct (map ln_chain (ev_links e)) \<and> Global \<notin> ln_chain ` set (ev_links e))"

subsection \<open>The loop states\<close>

definition prev_of :: "event list \<Rightarrow> digest" where
  "prev_of evs = (if evs = [] then zero_digest else ev_hash (last evs))"

definition heads_of :: "event list \<Rightarrow> heads" where
  "heads_of evs = fold insert_link_heads evs Map.empty"

definition chain_state_of :: "(chain_link \<times> event) list \<Rightarrow> (u64 \<times> digest) option" where
  "chain_state_of ms =
     (if ms = [] then None else Some (of_nat (length ms - 1), ev_hash (snd (last ms))))"

definition link_fits :: "(u64 \<times> digest) option \<Rightarrow> chain_link \<Rightarrow> string \<Rightarrow> bool" where
  "link_fits state l kind \<longleftrightarrow>
     (case state of
        None \<Rightarrow> ln_seq l = 0 \<and> ln_prev_hash l = zero_digest \<and> genesis_fits (ln_chain l) kind
      | Some (s, h) \<Rightarrow> ln_seq l = s + 1 \<and> ln_prev_hash l = h)"

lemma check_link_ok: "ln_chain l = c \<Longrightarrow> check_link c state l kind = Ok u \<longleftrightarrow> link_fits state l kind"
  by (auto simp: check_link_def check_chain_genesis_def link_fits_def genesis_fits_def Let_def
      split: option.splits if_splits)

lemma check_spine_ok:
  assumes "index = 0 \<longrightarrow> prev = zero_digest"
  shows "check_spine env prev index e = Ok u \<longleftrightarrow>
           hash_fits env e \<and> ev_seq e = of_nat index \<and> ev_prev_hash e = prev"
  using assms by (auto simp: check_spine_def hash_fits_def Let_def)

lemma chain_heads_eq: "chain_heads l = heads_of (events l)"
  by (simp add: chain_heads_def heads_of_def)

lemma prev_of_simps [simp]: "prev_of [] = zero_digest" "prev_of (evs @ [e]) = ev_hash e"
  by (simp_all add: prev_of_def)

lemma head_prev_of: "(case head l of Some h \<Rightarrow> h | None \<Rightarrow> zero_digest) = prev_of (events l)"
  by (simp add: head_def prev_of_def)

lemma heads_of_simps [simp]:
  "heads_of [] = Map.empty" "heads_of (evs @ [e]) = insert_link_heads e (heads_of evs)"
  by (simp_all add: heads_of_def)

lemma fold_links_other:
  "c \<notin> ln_chain ` set ls \<Longrightarrow> fold (\<lambda>l h. h(ln_chain l \<mapsto> f l)) ls h c = h c"
  by (induction ls arbitrary: h) auto

lemma fold_links_member:
  "distinct (map ln_chain ls) \<Longrightarrow> l \<in> set ls \<Longrightarrow>
     fold (\<lambda>l h. h(ln_chain l \<mapsto> f l)) ls h (ln_chain l) = Some (f l)"
  by (induction ls arbitrary: h) (auto simp: fold_links_other)

lemma chain_link_of_Some: "chain_link_of c e = Some l \<Longrightarrow> l \<in> set (ev_links e) \<and> ln_chain l = c"
  by (auto simp: chain_link_of_def find_Some_iff)

lemma chain_link_of_None: "chain_link_of c e = None \<longleftrightarrow> c \<notin> ln_chain ` set (ev_links e)"
  by (auto simp: chain_link_of_def find_None_iff)

lemma in_chain_iff: "in_chain c e \<longleftrightarrow> chain_link_of c e \<noteq> None"
  by (auto simp: in_chain_def chain_link_of_None)

lemma chain_link_of_eq:
  assumes "distinct (map ln_chain (ev_links e))" and "l \<in> set (ev_links e)"
  shows "chain_link_of (ln_chain l) e = Some l"
proof (cases "chain_link_of (ln_chain l) e")
  case None
  then show ?thesis using assms by (simp add: chain_link_of_None)
next
  case (Some l')
  then have "l' \<in> set (ev_links e)" "ln_chain l' = ln_chain l"
    by (auto dest: chain_link_of_Some)
  then have "l' = l" using assms by (meson distinct_map inj_onD)
  with Some show ?thesis by simp
qed

lemma insert_link_heads_apply:
  assumes "distinct (map ln_chain (ev_links e))"
  shows "insert_link_heads e h c =
     (case chain_link_of c e of None \<Rightarrow> h c | Some l \<Rightarrow> Some (ln_seq l, ev_hash e))"
proof (cases "chain_link_of c e")
  case None
  then have "c \<notin> ln_chain ` set (ev_links e)" by (simp add: chain_link_of_None)
  with None show ?thesis by (simp add: insert_link_heads_def fold_links_other)
next
  case (Some l)
  then have "l \<in> set (ev_links e)" "c = ln_chain l" by (auto dest: chain_link_of_Some)
  with Some assms show ?thesis by (simp add: insert_link_heads_def fold_links_member)
qed

lemma verify_links_ok:
  assumes "distinct (map ln_chain ls)"
  shows "try_fold (verify_link e) h ls = Ok h' \<longleftrightarrow>
     (\<forall>l \<in> set ls. link_fits (h (ln_chain l)) l (ev_kind e))
     \<and> h' = fold (\<lambda>l h. h(ln_chain l \<mapsto> (ln_seq l, ev_hash e))) ls h"
  using assms
proof (induction ls arbitrary: h)
  case (Cons l ls)
  let ?h = "h(ln_chain l \<mapsto> (ln_seq l, ev_hash e))"
  from Cons.prems have other: "?h (ln_chain l') = h (ln_chain l')" if "l' \<in> set ls" for l'
    using that by (metis distinct.simps(2) fun_upd_other image_eqI list.set_map list.simps(9))
  have "try_fold (verify_link e) h (l # ls) = Ok h' \<longleftrightarrow>
      link_fits (h (ln_chain l)) l (ev_kind e) \<and> try_fold (verify_link e) ?h ls = Ok h'"
    using check_link_ok [of l "ln_chain l" "h (ln_chain l)" "ev_kind e"]
    by (auto simp: verify_link_def split: sum.splits)
  also have "\<dots> \<longleftrightarrow> link_fits (h (ln_chain l)) l (ev_kind e)
      \<and> (\<forall>l' \<in> set ls. link_fits (?h (ln_chain l')) l' (ev_kind e))
      \<and> h' = fold (\<lambda>l h. h(ln_chain l \<mapsto> (ln_seq l, ev_hash e))) ls ?h"
    using Cons.IH [of ?h] Cons.prems by (simp del: fun_upd_apply)
  finally show ?case by (simp add: other del: fun_upd_apply cong: ball_cong)
qed auto

lemma links_canonical_simps [simp]:
  "links_canonical []"
  "links_canonical (evs @ [e]) \<longleftrightarrow> links_canonical evs
     \<and> distinct (map ln_chain (ev_links e)) \<and> Global \<notin> ln_chain ` set (ev_links e)"
  by (auto simp: links_canonical_def)

lemma chain_members_append [simp]:
  "chain_members c (xs @ ys) = chain_members c xs @ chain_members c ys"
  by (induction xs) simp_all

lemma chain_members_chain: "(l, e) \<in> set (chain_members c evs) \<Longrightarrow> ln_chain l = c \<and> e \<in> set evs"
  by (induction evs) (auto dest: chain_link_of_Some [OF sym] split: option.splits)

lemma no_global_members: "links_canonical evs \<Longrightarrow> chain_members Global evs = []"
  by (induction evs) (auto simp: links_canonical_def chain_link_of_None split: option.splits
      dest: chain_link_of_Some)

lemma chain_linked_snoc:
  assumes "ln_chain l = c"
  shows "chain_linked env c (ms @ [(l, e)]) \<longleftrightarrow>
     chain_linked env c ms \<and> hash_fits env e \<and> link_fits (chain_state_of ms) l (ev_kind e)"
proof -
  have "(of_nat (length ms - 1) :: u64) + 1 = of_nat (length ms)" if "ms \<noteq> []"
    using that by (cases ms) simp_all
  then show ?thesis
    using assms by (auto simp: chain_linked_def link_fits_def chain_state_of_def case_prod_beta)
qed

lemma spine_linked_snoc:
  "spine_linked env (evs @ [e]) \<longleftrightarrow> spine_linked env evs \<and> hash_fits env e
     \<and> ev_seq e = of_nat (length evs) \<and> ev_prev_hash e = prev_of evs"
  by (auto simp: spine_linked_def prev_of_def)

subsection \<open>The verifiers meet the specification\<close>

lemma check_link_total:
  "ln_chain l = c \<Longrightarrow> (case check_link c state l kind of Inl err \<Rightarrow> Err err | Inr _ \<Rightarrow> Ok x) = Ok y
     \<longleftrightarrow> link_fits state l kind \<and> y = x"
  using check_link_ok [of l c state kind] by (auto split: sum.split)

lemma verify_event_ok:
  assumes "index = 0 \<longrightarrow> p = zero_digest" and "distinct (map ln_chain (ev_links e))"
  shows "verify_event env (p, h) (index, e) = Ok r \<longleftrightarrow>
     hash_fits env e \<and> ev_seq e = of_nat index \<and> ev_prev_hash e = p
     \<and> (\<forall>l \<in> set (ev_links e). link_fits (h (ln_chain l)) l (ev_kind e))
     \<and> r = (ev_hash e, insert_link_heads e h)"
proof (cases "check_spine env p index e")
  case (Inl err)
  with check_spine_ok [OF assms(1), of env e] show ?thesis by (auto simp: verify_event_def)
next
  case (Inr u)
  with check_spine_ok [OF assms(1), of env e]
  have "hash_fits env e \<and> ev_seq e = of_nat index \<and> ev_prev_hash e = p" by simp
  moreover have "verify_event env (p, h) (index, e) = Ok r \<longleftrightarrow>
      (\<exists>h'. try_fold (verify_link e) h (ev_links e) = Ok h' \<and> r = (ev_hash e, h'))"
    using Inr by (auto simp: verify_event_def split: sum.splits)
  ultimately show ?thesis
    using verify_links_ok [OF assms(2), of e h] by (auto simp: insert_link_heads_def)
qed

lemma verify_loop_snoc:
  assumes "try_fold (verify_event env) (zero_digest, Map.empty) (List.enumerate 0 (evs @ [e])) = Ok r"
    and "links_canonical (evs @ [e])"
  obtains p h where
    "try_fold (verify_event env) (zero_digest, Map.empty) (List.enumerate 0 evs) = Ok (p, h)"
    "verify_event env (p, h) (length evs, e) = Ok r"
  using assms by (auto simp: enumerate_append_eq try_fold_snoc_ok)

lemma verify_loop:
  "links_canonical evs \<Longrightarrow>
     try_fold (verify_event env) (zero_digest, Map.empty) (List.enumerate 0 evs) = Ok r
     \<Longrightarrow> r = (prev_of evs, heads_of evs)"
proof (induction evs arbitrary: r rule: rev_induct)
  case (snoc e evs)
  from snoc.prems obtain p h where
    pre: "try_fold (verify_event env) (zero_digest, Map.empty) (List.enumerate 0 evs) = Ok (p, h)"
    and step: "verify_event env (p, h) (length evs, e) = Ok r"
    by (auto elim: verify_loop_snoc)
  from pre snoc have ph: "p = prev_of evs" "h = heads_of evs" by auto
  with step snoc.prems show ?case
    using verify_event_ok [of "length evs" "prev_of evs" e env "heads_of evs" r] by simp
qed simp

lemma verify_is_ok: "is_ok (verify env l) \<longleftrightarrow>
    is_ok (try_fold (verify_event env) (zero_digest, Map.empty) (List.enumerate 0 (events l)))"
  by (simp add: verify_def split: sum.split)

lemma verify_Ok_iff: "verify env l = Ok n \<longleftrightarrow> is_ok (verify env l) \<and> n = of_nat (length (events l))"
  by (auto simp: verify_def split: sum.splits)

lemma verify_Nil [simp]: "is_ok (verify env \<lparr>events = []\<rparr>)"
  by (simp add: verify_def)

lemma verify_snoc:
  assumes "links_canonical (evs @ [e])"
  shows "is_ok (verify env \<lparr>events = evs @ [e]\<rparr>) \<longleftrightarrow>
     is_ok (verify env \<lparr>events = evs\<rparr>)
     \<and> hash_fits env e \<and> ev_seq e = of_nat (length evs) \<and> ev_prev_hash e = prev_of evs
     \<and> (\<forall>l \<in> set (ev_links e). link_fits (heads_of evs (ln_chain l)) l (ev_kind e))"
proof -
  let ?loop = "\<lambda>evs. try_fold (verify_event env) (zero_digest, Map.empty) (List.enumerate 0 evs)"
  have "is_ok (?loop (evs @ [e])) \<longleftrightarrow> (\<exists>m r. ?loop evs = Ok m \<and> verify_event env m (length evs, e) = Ok r)"
    by (auto simp: enumerate_append_eq try_fold_snoc_ok is_ok_iff)
  also have "\<dots> \<longleftrightarrow> is_ok (?loop evs)
      \<and> (\<exists>r. verify_event env (prev_of evs, heads_of evs) (length evs, e) = Ok r)"
    using verify_loop [of evs env] assms by (auto simp: is_ok_iff)
  finally show ?thesis
    using verify_event_ok [of "length evs" "prev_of evs" e env "heads_of evs"] assms
    by (simp add: verify_is_ok)
qed

lemma verify_chain_event_ok:
  "verify_chain_event env c (state, count) e = Ok r \<longleftrightarrow>
     (case chain_link_of c e of
        None \<Rightarrow> r = (state, count)
      | Some l \<Rightarrow> hash_fits env e \<and> link_fits state l (ev_kind e)
          \<and> r = (Some (ln_seq l, ev_hash e), count + 1))"
proof (cases "chain_link_of c e")
  case (Some l)
  then have "ln_chain l = c" by (auto dest: chain_link_of_Some)
  with Some show ?thesis
    by (simp add: verify_chain_event_def hash_fits_def check_link_total)
qed (auto simp: verify_chain_event_def)

lemma verify_chain_loop:
  "try_fold (verify_chain_event env c) (None, 0) evs = Ok r \<longleftrightarrow>
     chain_linked env c (chain_members c evs)
     \<and> r = (chain_state_of (chain_members c evs), of_nat (length (chain_members c evs)))"
proof (induction evs arbitrary: r rule: rev_induct)
  case Nil
  then show ?case by (auto simp: chain_linked_def chain_state_of_def)
next
  case (snoc e evs)
  let ?ms = "chain_members c evs"
  have step: "try_fold (verify_chain_event env c) (None, 0) (evs @ [e]) = Ok r \<longleftrightarrow>
      chain_linked env c ?ms
      \<and> verify_chain_event env c (chain_state_of ?ms, of_nat (length ?ms)) e = Ok r"
    using snoc by (auto simp: try_fold_snoc_ok)
  show ?case
  proof (cases "chain_link_of c e")
    case None
    then show ?thesis unfolding step by (auto simp: verify_chain_event_ok)
  next
    case (Some l)
    then have l: "ln_chain l = c" by (auto dest: chain_link_of_Some)
    have "chain_linked env c (?ms @ [(l, e)]) \<Longrightarrow> ln_seq l = of_nat (length ?ms)"
      by (simp add: chain_linked_def)
    then show ?thesis
      unfolding step using Some chain_linked_snoc [OF l, of env ?ms e]
      by (auto simp: verify_chain_event_ok chain_state_of_def)
  qed
qed

lemma verify_chain_spec:
  assumes "c \<noteq> Global"
  shows "verify_chain env l c = Ok n \<longleftrightarrow>
     chain_linked env c (chain_members c (events l)) \<and> n = of_nat (length (chain_members c (events l)))"
proof -
  have "verify_chain env l c = Ok n \<longleftrightarrow>
      (\<exists>state. try_fold (verify_chain_event env c) (None, 0) (events l) = Ok (state, n))"
    using assms by (auto simp: verify_chain_def split: sum.splits)
  then show ?thesis by (auto simp: verify_chain_loop)
qed

lemma verify_global_loop:
  "try_fold (verify_global_event env) zero_digest (List.enumerate 0 evs) = Ok p \<longleftrightarrow>
     spine_linked env evs \<and> p = prev_of evs"
proof (induction evs arbitrary: p rule: rev_induct)
  case Nil
  then show ?case by (auto simp: spine_linked_def)
next
  case (snoc e evs)
  have "verify_global_event env (prev_of evs) (length evs, e) = Ok p \<longleftrightarrow>
      check_spine env (prev_of evs) (length evs) e = Ok () \<and> p = ev_hash e"
    by (auto simp: verify_global_event_def split: sum.split)
  then show ?case
    using check_spine_ok [of "length evs" "prev_of evs" env e "()"] snoc
    by (auto simp: enumerate_append_eq try_fold_snoc_ok spine_linked_snoc)
qed

lemma verify_global_spec:
  "verify_global env l = Ok n \<longleftrightarrow> spine_linked env (events l) \<and> n = of_nat (length (events l))"
proof -
  have "verify_global env l = Ok n \<longleftrightarrow> n = of_nat (length (events l))
      \<and> (\<exists>p. try_fold (verify_global_event env) zero_digest (List.enumerate 0 (events l)) = Ok p)"
    by (auto simp: verify_global_def split: sum.splits)
  then show ?thesis by (auto simp: verify_global_loop)
qed

text \<open>With sound chains, the derived heads are the last members.\<close>

lemma heads_of_linked:
  "links_canonical evs \<Longrightarrow> chain_linked env c (chain_members c evs)
     \<Longrightarrow> heads_of evs c = chain_state_of (chain_members c evs)"
proof (induction evs rule: rev_induct)
  case (snoc e evs)
  show ?case
  proof (cases "chain_link_of c e")
    case None
    with snoc show ?thesis by (simp add: insert_link_heads_apply)
  next
    case (Some l)
    then have "chain_linked env c (chain_members c evs @ [(l, e)])" using snoc.prems by simp
    then have "ln_seq l = of_nat (length (chain_members c evs))" by (simp add: chain_linked_def)
    with Some snoc.prems show ?thesis by (simp add: insert_link_heads_apply chain_state_of_def)
  qed
qed (simp add: chain_state_of_def)

lemma verify_split:
  "links_canonical evs \<Longrightarrow>
     is_ok (verify env \<lparr>events = evs\<rparr>) \<longleftrightarrow>
     spine_linked env evs \<and> (\<forall>c. chain_linked env c (chain_members c evs))"
proof (induction evs rule: rev_induct)
  case Nil
  then show ?case by (simp add: spine_linked_def chain_linked_def)
next
  case (snoc e evs)
  have d: "distinct (map ln_chain (ev_links e))" using snoc.prems by simp
  have links: "(\<forall>l \<in> set (ev_links e). link_fits (heads_of evs (ln_chain l)) l (ev_kind e)) \<longleftrightarrow>
      (\<forall>c. chain_linked env c (chain_members c (evs @ [e])))"
    if sound: "\<And>c. chain_linked env c (chain_members c evs)" and "hash_fits env e"
  proof -
    have "chain_linked env c (chain_members c (evs @ [e])) \<longleftrightarrow>
        (\<forall>l. chain_link_of c e = Some l \<longrightarrow> link_fits (heads_of evs c) l (ev_kind e))" for c
      using sound heads_of_linked [OF _ sound] snoc.prems \<open>hash_fits env e\<close>
      by (auto simp: chain_linked_snoc chain_link_of_Some split: option.split)
    then show ?thesis using chain_link_of_eq [OF d] chain_link_of_Some by metis
  qed
  have prefix: "\<forall>c. chain_linked env c (chain_members c evs)"
    if "\<forall>c. chain_linked env c (chain_members c (evs @ [e]))"
  proof
    fix c
    show "chain_linked env c (chain_members c evs)"
      using that [rule_format, of c]
      by (auto simp: chain_linked_def split: option.splits)
  qed
  show ?case
    using snoc links prefix by (auto simp: verify_snoc spine_linked_snoc)
qed

lemma verify_all_chains:
  assumes "links_canonical (events l)"
  shows "is_ok (verify env l) \<longleftrightarrow> (\<forall>c. is_ok (verify_chain env l c))"
proof -
  have chain: "is_ok (verify_chain env l c) \<longleftrightarrow> chain_linked env c (chain_members c (events l))"
    if "c \<noteq> Global" for c
    using verify_chain_spec [OF that, of env l] by (simp add: is_ok_iff)
  have spine: "is_ok (verify_chain env l Global) \<longleftrightarrow> spine_linked env (events l)"
    using verify_global_spec [of env l] by (simp add: is_ok_iff verify_chain_def)
  have global: "chain_linked env Global (chain_members Global (events l))"
    by (simp add: no_global_members [OF assms] chain_linked_def)
  have "is_ok (verify env l) \<longleftrightarrow> spine_linked env (events l)
      \<and> (\<forall>c. c \<noteq> Global \<longrightarrow> chain_linked env c (chain_members c (events l)))"
    using verify_split [OF assms, of env] global by (cases l) (simp, metis)
  then show ?thesis using chain spine by metis
qed

text \<open>
  C3: the one-pass verifier accepts a ledger exactly when the global spine and every single
  chain verify on their own, for ledgers whose events have at most one link for each chain and none for
  the spine (\<open>links_canonical\<close>). Every event made by \<open>append\<close>, \<open>try_append\<close> or a re-anchor is of that form; on a loaded
  event with two links for one chain the two checks can differ, since the verifier of a chain looks at the first link only.
\<close>

theorem verify_iff_all_chains:
  assumes "links_canonical (events l)"
  shows "is_ok (verify env l) \<longleftrightarrow> (\<forall>c. is_ok (verify_chain env l c))"
  by (rule verify_all_chains [OF assms])

subsection \<open>Appending\<close>

lemma ln_chain_next_link [simp]: "ln_chain (next_link heads c) = c"
  by (simp add: next_link_def split: option.split)

lemma link_fits_next_link:
  "link_fits (heads c) (next_link heads c) kind \<longleftrightarrow> (heads c = None \<longrightarrow> genesis_fits c kind)"
  by (auto simp: link_fits_def next_link_def split: option.split)

lemma append_links_sorted:
  "sort_key ln_chain (map (next_link heads) (memberships u scope kind))
     = map (next_link heads) (memberships u scope kind)"
  by (simp add: sort_key_id_if_sorted comp_def)

lemma append_at_event:
  assumes "append_at env l new_id actor scope kind j payload ts = (e, l')"
  shows "l' = \<lparr>events = events l @ [e]\<rparr>"
    and "ev_links e = map (next_link (chain_heads l)) (memberships (uuid_parses env) scope kind)"
    and "ev_seq e = of_nat (length (events l))" and "ev_prev_hash e = prev_of (events l)"
    and "hash_fits env e"
    and "ev_id e = new_id" "ev_actor e = actor" "ev_scope e = scope" "ev_kind e = kind"
      "ev_justification e = j" "ev_timestamp e = ts" "ev_payload_digest e = digest_of env payload"
  using assms
  by (auto simp: append_at_def Let_def append_links_sorted head_prev_of hash_fits_def
      event_compute_hash_def)

lemma append_at_canonical:
  assumes "append_at env l new_id actor scope kind j payload ts = (e, l')"
  shows "links_canonical (events l') \<longleftrightarrow> links_canonical (events l)"
  using append_at_event(1, 2) [OF assms] by (simp add: comp_def image_image)

lemma append_at_verify:
  assumes "append_at env l new_id actor scope kind j payload ts = (e, l')"
    and "links_canonical (events l)"
  shows "is_ok (verify env l') \<longleftrightarrow> is_ok (verify env l)
    \<and> (\<forall>c \<in> set (memberships (uuid_parses env) scope kind).
         chain_heads l c = None \<longrightarrow> genesis_fits c kind)"
proof -
  note e = append_at_event [OF assms(1)]
  have "links_canonical (events l')" using append_at_canonical [OF assms(1)] assms(2) by simp
  then have "is_ok (verify env l') \<longleftrightarrow> is_ok (verify env \<lparr>events = events l\<rparr>)
      \<and> (\<forall>c \<in> set (memberships (uuid_parses env) scope kind).
         link_fits (chain_heads l c) (next_link (chain_heads l) c) kind)"
    using e verify_snoc [of "events l" e env] by (simp add: chain_heads_eq [symmetric])
  then show ?thesis by (cases l) (simp add: link_fits_next_link)
qed

text \<open>
  appending to a ledger that verifies. The result verifies exactly when every chain the new
  event opens gets an event of its required genesis kind (\<open>book.opened\<close> for a book,
  \<open>entity.created\<close> for a company); nothing else can go wrong.
\<close>

theorem append_verifies:
  assumes "links_canonical (events l)" and "is_ok (verify env l)"
  shows "is_ok (verify env (snd (append_event env l i now actor scope kind j payload))) \<longleftrightarrow>
    (\<forall>c \<in> set (memberships (uuid_parses env) scope kind).
       chain_heads l c = None \<longrightarrow> genesis_fits c kind)"
proof -
  obtain e l' where "append_at env l i actor scope kind j payload now = (e, l')" by fastforce
  with append_at_verify [OF this assms(1)] assms(2) show ?thesis by (simp add: append_event_def)
qed

section \<open>Evaluated instances\<close>

text \<open>
  A concrete environment and a ledger of two events on which the theorems are evaluated: a
  32-byte checksum in place of SHA-256, a fixed time text, and UUIDs recognised by length.
\<close>

definition sample_env :: ledger_env where
  "sample_env = \<lparr>sha256 = (\<lambda>bs. replicate 31 0 @ [foldl (\<lambda>a b. 31 * a + b) 7 bs]),
     format_rfc3339 = (\<lambda>ts. Some ''2026-01-01T00:00:00Z''), uuid_parses = (\<lambda>s. length s = 36)\<rparr>"

definition sample_time :: offset_date_time where
  "sample_time = \<lparr>unix_nanos = 0, utc_offset = 0\<rparr>"

definition sample_ledger :: ledger where
  "sample_ledger = snd (append_event sample_env
     (snd (append_event sample_env ledger_new 1 sample_time ''ana'' ''entity:E'' ''entity.created'' None [1, 2]))
     2 sample_time ''rui'' ''entity:E/book:B'' ''book.opened'' None [3])"

theorem verify_iff_all_chains_witness:
  "is_ok (verify_chain sample_env sample_ledger (Book ''B''))"
proof -
  have "links_canonical (events sample_ledger)" "is_ok (verify sample_env sample_ledger)"
    by code_simp+
  then show ?thesis using verify_iff_all_chains [of sample_ledger sample_env] by blast
qed

theorem append_verifies_witness:
  "is_ok (verify sample_env
     (snd (append_event sample_env sample_ledger 3 sample_time ''ana'' ''book:B/act:A'' ''act.sealed'' None [])))
   \<and> \<not> is_ok (verify sample_env
     (snd (append_event sample_env sample_ledger 3 sample_time ''ana'' ''book:C/act:A'' ''act.sealed'' None [])))"
proof -
  have ok: "links_canonical (events sample_ledger)" "is_ok (verify sample_env sample_ledger)"
    by code_simp+
  have "\<not> (\<forall>c \<in> set (memberships (uuid_parses sample_env) ''book:C/act:A'' ''act.sealed'').
      chain_heads sample_ledger c = None \<longrightarrow> genesis_fits c ''act.sealed'')" by code_simp
  moreover have "\<forall>c \<in> set (memberships (uuid_parses sample_env) ''book:B/act:A'' ''act.sealed'').
      chain_heads sample_ledger c = None \<longrightarrow> genesis_fits c ''act.sealed''" by code_simp
  ultimately show ?thesis using append_verifies [OF ok] by blast
qed

end
