(* ===== verification/Ledger_Tamper.thy ===== *)
theory Ledger_Tamper
  imports Ledger
begin

section \<open>Tamper evidence\<close>

text \<open>
  What a chain head pins down. The preimage is injective on events whose text fields hold no
  0x1F byte; two chains that verify and end in the same hash then agree in every hashed field, or
  contain a collision of SHA-256: a pair of their own preimages, named in the theorem. The
  argument is the same for the global spine and for each single chain, so it is made once, for
  the interface \<open>hash_chain\<close>, and interpreted on both.
\<close>

subsection \<open>The preimage is injective\<close>

definition sep_free :: "string \<Rightarrow> bool" where
  "sep_free s \<longleftrightarrow> FIELD_SEP \<notin> set (as_bytes s)"

definition link_wf :: "chain_link \<Rightarrow> bool" where
  "link_wf l \<longleftrightarrow> sep_free (canonical (ln_chain l)) \<and> is_digest (ln_prev_hash l)"

definition event_wf :: "ledger_env \<Rightarrow> event \<Rightarrow> bool" where
  "event_wf env e \<longleftrightarrow>
     sep_free (ev_actor e) \<and> sep_free (ev_scope e) \<and> sep_free (ev_kind e)
     \<and> sep_free (timestamp_text env (ev_timestamp e))
     \<and> is_digest (ev_payload_digest e) \<and> is_digest (ev_prev_hash e)
     \<and> distinct (map ln_chain (ev_links e)) \<and> list_all link_wf (ev_links e)"

text \<open>What the hash commits to: every field but the identifier and the justification.\<close>

definition committed ::
  "ledger_env \<Rightarrow> event \<Rightarrow>
     digest \<times> u64 \<times> string \<times> string \<times> string \<times> string \<times> digest \<times> chain_link list" where
  "committed env e =
     (ev_prev_hash e, ev_seq e, ev_actor e, ev_scope e, ev_kind e,
      timestamp_text env (ev_timestamp e), ev_payload_digest e, sort_key ln_chain (ev_links e))"

lemma link_bytes_inject:
  assumes "link_wf l" and "link_wf l'"
  shows "link_bytes l @ xs = link_bytes l' @ ys \<longleftrightarrow> l = l' \<and> xs = ys"
proof -
  have "link_bytes l @ xs = link_bytes l' @ ys \<longleftrightarrow>
      ln_chain l = ln_chain l' \<and> ln_seq l = ln_seq l' \<and> ln_prev_hash l = ln_prev_hash l' \<and> xs = ys"
    using assms by (auto simp: link_bytes_def sep_append_eq link_wf_def sep_free_def is_digest_def)
  then show ?thesis by (auto simp: chain_link.equality)
qed

lemma links_bytes_inject:
  "list_all link_wf ls \<Longrightarrow> list_all link_wf ls' \<Longrightarrow>
     concat (map link_bytes ls) = concat (map link_bytes ls') \<longleftrightarrow> ls = ls'"
proof (induction ls arbitrary: ls')
  case Nil
  then show ?case by (cases ls') (auto simp: link_bytes_def)
next
  case (Cons l ls)
  then show ?case
    by (cases ls') (auto simp: link_bytes_inject, auto simp: link_bytes_def)
qed

lemma event_preimage_inject:
  assumes "event_wf env e" and "event_wf env e'"
  shows "event_preimage env e (ev_prev_hash e) = event_preimage env e' (ev_prev_hash e')
     \<longleftrightarrow> committed env e = committed env e'"
proof -
  have "list_all link_wf (sort_key ln_chain (ev_links e))"
    "list_all link_wf (sort_key ln_chain (ev_links e'))"
    using assms by (simp_all add: event_wf_def list_all_iff)
  note links = links_bytes_inject [OF this]
  show ?thesis
    using assms
    by (auto simp: event_preimage_def hash_preimage_def committed_def event_wf_def sep_free_def
        is_digest_def sep_append_eq links)
qed

text \<open>
  the hash preimage determines every field it covers. Two events whose text fields hold no
  0x1F byte have the same preimage exactly when they agree on the global link, position, actor,
  scope, kind, timestamp text, payload digest and the canonically ordered chain links.
\<close>

theorem hash_preimage_injective:
  assumes "event_wf env e" and "event_wf env e'"
  shows "event_preimage env e (ev_prev_hash e) = event_preimage env e' (ev_prev_hash e')
     \<longleftrightarrow> committed env e = committed env e'"
  by (rule event_preimage_inject [OF assms])

subsection \<open>Hash chains\<close>

text \<open>
  The interface: elements with a preimage, a stored hash, a backward hash and a position. The
  law: the preimages of well-formed elements determine the backward hash and the position.
\<close>

locale hash_chain =
  fixes H :: "byte list \<Rightarrow> digest"
    and preimage :: "'a \<Rightarrow> byte list"
    and stored :: "'a \<Rightarrow> digest"
    and backward :: "'a \<Rightarrow> digest"
    and pos :: "'a \<Rightarrow> u64"
    and wf :: "'a \<Rightarrow> bool"
  assumes covers: "wf x \<Longrightarrow> wf y \<Longrightarrow> preimage x = preimage y \<Longrightarrow> backward x = backward y \<and> pos x = pos y"
begin

definition chained :: "'a list \<Rightarrow> bool" where
  "chained = linked (\<lambda>i before x. stored x = H (preimage x) \<and> pos x = of_nat i
     \<and> backward x = (case before of None \<Rightarrow> zero_digest | Some y \<Rightarrow> stored y))"

definition collision :: "'a list \<Rightarrow> 'a list \<Rightarrow> bool" where
  "collision xs ys \<longleftrightarrow>
     (\<exists>x \<in> set xs. \<exists>y \<in> set ys. preimage x \<noteq> preimage y \<and> H (preimage x) = H (preimage y))"

lemma collision_append: "collision xs ys \<Longrightarrow> collision (xs @ xs') (ys @ ys')"
  by (auto simp: collision_def)

lemma pinned_same_length:
  "length xs = length ys \<Longrightarrow> chained xs \<Longrightarrow> chained ys \<Longrightarrow> (\<forall>x \<in> set xs \<union> set ys. wf x)
     \<Longrightarrow> xs \<noteq> [] \<Longrightarrow> stored (last xs) = stored (last ys)
     \<Longrightarrow> map preimage xs = map preimage ys \<or> collision xs ys"
proof (induction xs arbitrary: ys rule: rev_induct)
  case (snoc x xs)
  then obtain ys' y where ys: "ys = ys' @ [y]" by (cases ys rule: rev_cases) auto
  with snoc.prems have same: "H (preimage x) = H (preimage y)" by (simp add: chained_def)
  show ?case
  proof (cases "preimage x = preimage y")
    case False
    with same ys show ?thesis by (auto simp: collision_def)
  next
    case True
    then have "backward x = backward y" using covers snoc.prems ys by simp
    show ?thesis
    proof (cases "xs = []")
      case True
      with \<open>preimage x = preimage y\<close> snoc.prems ys show ?thesis by simp
    next
      case False
      have "length xs = length ys'" using snoc.prems(1) ys by simp
      moreover from this False have "stored (last xs) = stored (last ys')"
        using snoc.prems ys \<open>backward x = backward y\<close> by (auto simp: chained_def)
      ultimately have "map preimage xs = map preimage ys' \<or> collision xs ys'"
        using snoc.IH [of ys'] snoc.prems ys False by (simp add: chained_def)
      then show ?thesis using \<open>preimage x = preimage y\<close> ys collision_append by auto
    qed
  qed
qed simp

lemma pinned:
  assumes "chained xs" "chained ys" "\<forall>x \<in> set xs \<union> set ys. wf x"
    and "length xs < 2 ^ 64" "length ys < 2 ^ 64"
    and "xs \<noteq> []" "ys \<noteq> []" "stored (last xs) = stored (last ys)"
  shows "map preimage xs = map preimage ys \<or> collision xs ys"
proof (cases "preimage (last xs) = preimage (last ys)")
  case False
  have "stored (last zs) = H (preimage (last zs))" if "chained zs" "zs \<noteq> []" for zs
    using that by (cases zs rule: rev_cases) (simp_all add: chained_def)
  with assms False show ?thesis unfolding collision_def by (metis last_in_set)
next
  case True
  have "pos (last zs) = of_nat (length zs - 1)" if "chained zs" "zs \<noteq> []" for zs
    using that by (cases zs rule: rev_cases) (simp_all add: chained_def)
  then have "(of_nat (length xs - 1) :: u64) = of_nat (length ys - 1)"
    using covers True assms by (metis UnI1 UnI2 last_in_set)
  then have "length xs - 1 = length ys - 1"
    using assms by (simp add: word_of_nat_eq_iff take_bit_nat_eq_self_iff take_bit_nat_eq_self)
  moreover have "length xs > 0" "length ys > 0" using assms by auto
  ultimately have "length xs = length ys" by linarith
  with pinned_same_length assms show ?thesis by simp
qed

end

text \<open>The global spine, and the members of one chain.\<close>

definition member_wf :: "ledger_env \<Rightarrow> chain_id \<Rightarrow> chain_link \<times> event \<Rightarrow> bool" where
  "member_wf env c = (\<lambda>(l, e). event_wf env e \<and> chain_link_of c e = Some l)"

lemma committed_link:
  assumes "committed env e = committed env e'" and "distinct (map ln_chain (ev_links e'))"
    and "chain_link_of c e = Some l" and "chain_link_of c e' = Some l'"
  shows "l = l'"
proof -
  have "sort_key ln_chain (ev_links e) = sort_key ln_chain (ev_links e')"
    using assms(1) by (simp add: committed_def)
  then have "set (ev_links e) = set (ev_links e')" by (metis set_sort)
  then have "l \<in> set (ev_links e')" "ln_chain l = c"
    using chain_link_of_Some [OF assms(3)] by auto
  with chain_link_of_eq [OF assms(2)] assms(4) show ?thesis by force
qed

interpretation spine: hash_chain "sha256 env" "\<lambda>e. event_preimage env e (ev_prev_hash e)"
    ev_hash ev_prev_hash ev_seq "event_wf env"
  for env
  by unfold_locales (simp add: event_preimage_inject committed_def)

interpretation member: hash_chain "sha256 env" "\<lambda>m. event_preimage env (snd m) (ev_prev_hash (snd m))"
    "\<lambda>m. ev_hash (snd m)" "\<lambda>m. ln_prev_hash (fst m)" "\<lambda>m. ln_seq (fst m)" "member_wf env c"
  for env c
proof unfold_locales
  fix x y
  assume wf: "member_wf env c x" "member_wf env c y"
    and "event_preimage env (snd x) (ev_prev_hash (snd x)) = event_preimage env (snd y) (ev_prev_hash (snd y))"
  then have "committed env (snd x) = committed env (snd y)"
    by (auto simp: member_wf_def event_preimage_inject)
  then have "fst x = fst y"
    using wf by (auto simp: member_wf_def event_wf_def intro: committed_link)
  then show "ln_prev_hash (fst x) = ln_prev_hash (fst y) \<and> ln_seq (fst x) = ln_seq (fst y)" by simp
qed

lemma hash_fits_preimage: "hash_fits env e \<longleftrightarrow> ev_hash e = sha256 env (event_preimage env e (ev_prev_hash e))"
  by (auto simp: hash_fits_def event_compute_hash_def compute_hash_def event_preimage_def)

lemma spine_chained: "spine_linked env evs \<longleftrightarrow> spine.chained env evs"
  by (simp add: spine_linked_def spine.chained_def hash_fits_preimage)

lemma member_chained: "chain_linked env c ms \<Longrightarrow> member.chained env ms"
  unfolding chain_linked_def member.chained_def
  by (rule linked_mono, assumption)
     (auto simp: hash_fits_preimage split: option.splits)

text \<open>Two ledgers' own preimages that collide.\<close>

definition sha256_collision :: "ledger_env \<Rightarrow> event list \<Rightarrow> event list \<Rightarrow> bool" where
  "sha256_collision env evs evs' \<longleftrightarrow> (\<exists>e \<in> set evs. \<exists>e' \<in> set evs'.
     event_preimage env e (ev_prev_hash e) \<noteq> event_preimage env e' (ev_prev_hash e')
     \<and> sha256 env (event_preimage env e (ev_prev_hash e))
       = sha256 env (event_preimage env e' (ev_prev_hash e')))"

lemma map_preimage_committed:
  "(\<forall>e \<in> set evs \<union> set evs'. event_wf env e) \<Longrightarrow>
     map (\<lambda>e. event_preimage env e (ev_prev_hash e)) evs
       = map (\<lambda>e. event_preimage env e (ev_prev_hash e)) evs'
     \<Longrightarrow> map (committed env) evs = map (committed env) evs'"
proof (induction evs arbitrary: evs')
  case (Cons e evs)
  then obtain e' evs'' where "evs' = e' # evs''" by (cases evs') auto
  with Cons show ?case by (auto simp: event_preimage_inject)
qed simp

text \<open>
  C1: the global head commits to the hashed history. Take two ledgers of fewer than 2 to the 64th
  events whose spines verify and whose events are separable (\<open>event_wf\<close>: no unit separator in actor, scope,
  kind, time or chain names, digests of 32 bytes, at most one link for each chain). With the same head they have
  as many events, and event by event the same hashed fields (\<open>committed\<close>: predecessor hash, sequence number, actor,
  scope, kind, time as rendered, payload digest, and the links up to their order), or two of their own preimages are
  a SHA-256 collision. The event identifier and the justification are outside the hash: the instance
  below has two ledgers with one head that differ in them.
\<close>

theorem head_commits_to_history:
  assumes "is_ok (verify_chain env l Global)" and "is_ok (verify_chain env l' Global)"
    and "\<forall>e \<in> set (events l) \<union> set (events l'). event_wf env e"
    and "length (events l) < 2 ^ 64" and "length (events l') < 2 ^ 64"
    and "head l = head l'"
  shows "map (committed env) (events l) = map (committed env) (events l')
    \<or> sha256_collision env (events l) (events l')"
proof (cases "events l = []")
  case True
  with assms(6) show ?thesis by (auto simp: head_def split: if_splits)
next
  case False
  with assms(6) have ne: "events l' \<noteq> []" and "ev_hash (last (events l)) = ev_hash (last (events l'))"
    by (auto simp: head_def split: if_splits)
  moreover have "spine.chained env (events l)" "spine.chained env (events l')"
    using assms(1, 2) by (auto simp: verify_chain_def is_ok_iff verify_global_spec spine_chained)
  ultimately have "map (\<lambda>e. event_preimage env e (ev_prev_hash e)) (events l)
      = map (\<lambda>e. event_preimage env e (ev_prev_hash e)) (events l')
      \<or> spine.collision env (events l) (events l')"
    using spine.pinned [of env "events l" "events l'"] assms(3-5) False by blast
  then show ?thesis
    using map_preimage_committed [OF assms(3)]
    by (auto simp: spine.collision_def sha256_collision_def)
qed

lemma map_snd_chain_members: "map snd (chain_members c evs) = filter (in_chain c) evs"
  by (induction evs) (auto simp: in_chain_iff split: option.split)

lemma chain_members_link: "m \<in> set (chain_members c evs) \<Longrightarrow> chain_link_of c (snd m) = Some (fst m)"
  by (induction evs) (auto split: option.splits)

lemma chain_head_members:
  assumes "c \<noteq> Global"
  shows "chain_head l c =
    (let ms = chain_members c (events l) in if ms = [] then None else Some (ev_hash (snd (last ms))))"
proof -
  have find: "List.find P (rev xs) = (if filter P xs = [] then None else Some (last (filter P xs)))"
    for P and xs :: "event list"
    by (induction xs rule: rev_induct) auto
  have "snd (last (chain_members c (events l))) = last (filter (in_chain c) (events l))"
    if "chain_members c (events l) \<noteq> []"
    using that by (simp flip: map_snd_chain_members add: last_map)
  moreover have "filter (in_chain c) (events l) = [] \<longleftrightarrow> chain_members c (events l) = []"
    by (simp flip: map_snd_chain_members)
  ultimately show ?thesis using assms by (auto simp: chain_head_def find Let_def)
qed

text \<open>
  a chain head commits to the chain. When the same company, book, tenant or application
  chain verifies in two ledgers and has the same head, its events agree field by field, or two
  of their preimages are a SHA-256 collision; the rest of the two ledgers may differ.
\<close>

theorem chain_head_commits_to_chain:
  assumes "is_ok (verify_chain env l c)" and "is_ok (verify_chain env l' c)" and "c \<noteq> Global"
    and "\<forall>e \<in> set (events_in_chain l c) \<union> set (events_in_chain l' c). event_wf env e"
    and "length (events l) < 2 ^ 64" and "length (events l') < 2 ^ 64"
    and "chain_head l c = chain_head l' c"
  shows "map (committed env) (events_in_chain l c) = map (committed env) (events_in_chain l' c)
    \<or> sha256_collision env (events_in_chain l c) (events_in_chain l' c)"
proof -
  let ?ms = "\<lambda>l. chain_members c (events l)"
  have members: "events_in_chain l c = map snd (?ms l)" for l
    using assms(3) by (simp add: events_in_chain_def map_snd_chain_members)
  have short: "length (?ms l) \<le> length (events l)" for l
    by (metis length_filter_le length_map map_snd_chain_members)
  have wf: "\<forall>m \<in> set (?ms l) \<union> set (?ms l'). member_wf env c m"
  proof
    fix m
    assume m: "m \<in> set (?ms l) \<union> set (?ms l')"
    then have "snd m \<in> set (events_in_chain l c) \<union> set (events_in_chain l' c)"
      by (auto simp: members)
    with assms(4) have "event_wf env (snd m)" by blast
    moreover have "chain_link_of c (snd m) = Some (fst m)"
      using m by (auto intro: chain_members_link)
    ultimately show "member_wf env c m" by (simp add: member_wf_def case_prod_beta)
  qed
  have chained: "member.chained env (?ms l)" "member.chained env (?ms l')"
    using assms(1-3) by (auto simp: is_ok_iff verify_chain_spec member_chained)
  show ?thesis
  proof (cases "?ms l = []")
    case True
    then have "?ms l' = []" using assms(3, 7) by (auto simp: chain_head_members Let_def split: if_splits)
    with True show ?thesis by (simp add: members)
  next
    case False
    then have ne: "?ms l' \<noteq> []" and last: "ev_hash (snd (last (?ms l))) = ev_hash (snd (last (?ms l')))"
      using assms(3, 7) by (auto simp: chain_head_members Let_def split: if_splits)
    have "map (\<lambda>m. event_preimage env (snd m) (ev_prev_hash (snd m))) (?ms l)
        = map (\<lambda>m. event_preimage env (snd m) (ev_prev_hash (snd m))) (?ms l')
        \<or> member.collision env (?ms l) (?ms l')"
      by (rule member.pinned [OF chained wf]) (use short assms(5,6) False ne last in \<open>auto intro: le_less_trans\<close>)
    then show ?thesis
      using map_preimage_committed [OF assms(4)]
      by (auto simp: members member.collision_def sha256_collision_def comp_def)
  qed
qed

subsection \<open>Isolation\<close>

text \<open>
  per-chain tamper isolation. The outcome of verifying a chain depends on that chain's
  events alone: two ledgers with the same events in a chain give the same result for it,
  whatever was altered, added or removed elsewhere.
\<close>

theorem verify_chain_isolated:
  assumes "events_in_chain l c = events_in_chain l' c"
  shows "verify_chain env l c = verify_chain env l' c"
proof (cases "c = Global")
  case True
  with assms have "l = l'" by (simp add: events_in_chain_def ledger.equality)
  then show ?thesis by simp
next
  case False
  have "try_fold (verify_chain_event env c) (None, 0) (filter (in_chain c) evs)
      = try_fold (verify_chain_event env c) (None, 0) evs" for evs
    by (rule try_fold_filter)
      (auto simp: verify_chain_event_def in_chain_iff)
  with assms False show ?thesis
    by (simp add: verify_chain_def events_in_chain_def) metis
qed

text \<open>
  the separator does not protect fields that contain it. For any texts a, b, c, the actor
  \<open>a 0x1F b\<close> with scope c and the actor a with scope \<open>b 0x1F c\<close> give the same preimage, hence the
  same hash, for every other field.
\<close>

theorem separator_in_field_ambiguous:
  "hash_preimage env p s (a @ [CHR 0x1F] @ b) c k ts pd ls
     = hash_preimage env p s a (b @ [CHR 0x1F] @ c) k ts pd ls"
  by (simp add: hash_preimage_def as_bytes_def byte_of_char_def FIELD_SEP_def)

section \<open>Evaluated instances\<close>

text \<open>The sample ledger with other justifications, which the hash does not cover.\<close>

definition annotated_ledger :: ledger where
  "annotated_ledger = \<lparr>events = map (\<lambda>e. e\<lparr>ev_justification := Some ''later''\<rparr>) (events sample_ledger)\<rparr>"

lemma sample_wf:
  "\<forall>e \<in> set (events sample_ledger) \<union> set (events annotated_ledger). event_wf sample_env e"
  by code_simp

lemma sample_lengths: "length (events sample_ledger) = 2" "length (events annotated_ledger) = 2"
  by code_simp+

theorem hash_preimage_injective_witness:
  "event_preimage sample_env (events sample_ledger ! 0) (ev_prev_hash (events sample_ledger ! 0))
     \<noteq> event_preimage sample_env (events sample_ledger ! 1) (ev_prev_hash (events sample_ledger ! 1))"
proof -
  have "event_wf sample_env (events sample_ledger ! 0)" "event_wf sample_env (events sample_ledger ! 1)"
    "committed sample_env (events sample_ledger ! 0) \<noteq> committed sample_env (events sample_ledger ! 1)"
    by code_simp+
  then show ?thesis using hash_preimage_injective by blast
qed

theorem head_commits_to_history_witness:
  "sample_ledger \<noteq> annotated_ledger
   \<and> (map (committed sample_env) (events sample_ledger) = map (committed sample_env) (events annotated_ledger)
      \<or> sha256_collision sample_env (events sample_ledger) (events annotated_ledger))"
proof -
  have "is_ok (verify_chain sample_env sample_ledger Global)"
    "is_ok (verify_chain sample_env annotated_ledger Global)"
    "head sample_ledger = head annotated_ledger" "sample_ledger \<noteq> annotated_ledger"
    by code_simp+
  moreover have "length (events sample_ledger) < 2 ^ 64" "length (events annotated_ledger) < 2 ^ 64"
    by (simp_all add: sample_lengths)
  ultimately show ?thesis using head_commits_to_history [OF _ _ sample_wf] by blast
qed

theorem chain_head_commits_to_chain_witness:
  "map (committed sample_env) (events_in_chain sample_ledger (Company ''E''))
     = map (committed sample_env) (events_in_chain annotated_ledger (Company ''E''))
   \<or> sha256_collision sample_env (events_in_chain sample_ledger (Company ''E''))
       (events_in_chain annotated_ledger (Company ''E''))"
proof -
  have "is_ok (verify_chain sample_env sample_ledger (Company ''E''))"
    "is_ok (verify_chain sample_env annotated_ledger (Company ''E''))"
    "chain_head sample_ledger (Company ''E'') = chain_head annotated_ledger (Company ''E'')"
    by code_simp+
  moreover have "length (events sample_ledger) < 2 ^ 64" "length (events annotated_ledger) < 2 ^ 64"
    by (simp_all add: sample_lengths)
  moreover have "\<forall>e \<in> set (events_in_chain sample_ledger (Company ''E''))
      \<union> set (events_in_chain annotated_ledger (Company ''E'')). event_wf sample_env e"
    using sample_wf by (auto simp: events_in_chain_def)
  ultimately show ?thesis by (intro chain_head_commits_to_chain) simp_all
qed

theorem verify_chain_isolated_witness:
  "verify_chain sample_env \<lparr>events = take 1 (events sample_ledger)\<rparr> (Book ''C'')
     = verify_chain sample_env sample_ledger (Book ''C'')"
proof -
  have "events_in_chain \<lparr>events = take 1 (events sample_ledger)\<rparr> (Book ''C'')
      = events_in_chain sample_ledger (Book ''C'')" by code_simp
  then show ?thesis by (rule verify_chain_isolated)
qed

end
