(* ===== verification/Ledger_Recovery.thy ===== *)
theory Ledger_Recovery
  imports Ledger
begin

section \<open>Break location, validating append, re-anchoring and bundles\<close>

text \<open>
  \<open>src/crates/chancela-ledger/src/lib.rs\<close>, the recovery half: \<open>locate_break\<close> and the integrity
  report, \<open>try_append\<close>, \<open>reanchor\<close> with its disclosure, and the verifier of exported bundles. The
  human-readable \<open>message\<close> of a \<open>ChainBreak\<close> is left out; every other field is modelled.
  \<open>serde_json\<close> is code outside the repository: \<open>to_json\<close> and \<open>from_json\<close> of \<open>json_codec\<close>.
\<close>

datatype break_kind =
    BK_BadGenesis
  | BK_SequenceBroken
  | BK_LinkBroken
  | BK_HashMismatch
  | BK_ChainSequenceBroken
  | BK_ChainLinkBroken
  | BK_ChainGenesisWrong

record chain_break =
  brk_chain :: chain_id
  brk_kind :: break_kind
  brk_global_seq :: "u64 option"
  brk_chain_seq :: "u64 option"
  brk_event_id :: "uuid option"
  brk_expected_hash :: "digest option"
  brk_actual_hash :: "digest option"

record chain_status =
  st_chain :: chain_id
  st_genesis_kind :: "string option"
  st_length :: u64
  st_head :: "digest option"
  st_verified :: bool
  st_first_break :: "chain_break option"

record reanchor_segment =
  seg_chain :: chain_id
  seg_from :: u64
  seg_to :: u64

record reanchor_record =
  rr_actor :: string
  rr_at :: offset_date_time
  rr_reason :: string
  rr_affected :: "reanchor_segment list"
  rr_original_global_head :: "digest option"
  rr_new_global_head :: digest
  rr_pre_reanchor_digest :: digest

record integrity_report =
  ir_global :: chain_status
  ir_chains :: "chain_status list"
  ir_healthy :: bool
  ir_reanchored_segments :: "reanchor_record list"

datatype append_error =
    AppendGenesisWrong chain_id string string
  | BrokenChainTail chain_id chain_break

datatype reanchor_error =
    AlreadyValid
  | EmptyReason
  | VerificationFailed ledger_error

datatype bundle_verdict = Verified u64 | Broken chain_break

record json_codec =
  to_json :: "reanchor_record \<Rightarrow> string"
  from_json :: "string \<Rightarrow> reanchor_record option"

definition REANCHOR_EVENT_KIND :: string where
  "REANCHOR_EVENT_KIND = ''ledger.reanchored''"

definition RECOVERY_SCOPE :: string where
  "RECOVERY_SCOPE = ''recovery''"

subsection \<open>Locating a break\<close>

text \<open>The break of kind \<open>k\<close> at one event; the hash fields are filled by the caller.\<close>

definition chain_break_at ::
  "chain_id \<Rightarrow> break_kind \<Rightarrow> event \<Rightarrow> u64 option \<Rightarrow> digest option \<Rightarrow> digest option \<Rightarrow> chain_break" where
  "chain_break_at chain k event chain_seq expected actual =
     \<lparr>brk_chain = chain, brk_kind = k, brk_global_seq = Some (ev_seq event),
      brk_chain_seq = chain_seq, brk_event_id = Some (ev_id event),
      brk_expected_hash = expected, brk_actual_hash = actual\<rparr>"

definition genesis_break :: "chain_id \<Rightarrow> event \<Rightarrow> chain_link \<Rightarrow> chain_break option" where
  "genesis_break chain event link =
     (if ln_seq link \<noteq> 0
      then Some (chain_break_at chain BK_ChainSequenceBroken event (Some (ln_seq link)) None None)
      else if ln_prev_hash link \<noteq> zero_digest
      then Some (chain_break_at chain BK_ChainLinkBroken event (Some (ln_seq link))
             (Some zero_digest) (Some (ln_prev_hash link)))
      else case expected_genesis_kind chain of
        Some expected \<Rightarrow>
          if ev_kind event \<noteq> expected
          then Some (chain_break_at chain BK_ChainGenesisWrong event (Some (ln_seq link)) None None)
          else None
      | None \<Rightarrow> None)"

text \<open>
  The checks on one member of a chain, which \<open>locate_break\<close> and \<open>verify_bundle_chain\<close> both
  spell out: the first break, if there is one.
\<close>

definition member_break ::
  "ledger_env \<Rightarrow> chain_id \<Rightarrow> (u64 \<times> digest) option \<Rightarrow> event \<Rightarrow> chain_link \<Rightarrow> chain_break option" where
  "member_break env chain state event link =
     (let recomputed = event_compute_hash env event (ev_prev_hash event) in
      if recomputed \<noteq> ev_hash event
      then Some (chain_break_at chain BK_HashMismatch event (Some (ln_seq link))
             (Some recomputed) (Some (ev_hash event)))
      else case state of
        None \<Rightarrow> genesis_break chain event link
      | Some (last_seq, last_hash) \<Rightarrow>
          (let expected = last_seq + 1 in
           if ln_seq link \<noteq> expected
           then Some (chain_break_at chain BK_ChainSequenceBroken event (Some (ln_seq link)) None None)
           else if ln_prev_hash link \<noteq> last_hash
           then Some (chain_break_at chain BK_ChainLinkBroken event (Some (ln_seq link))
                  (Some last_hash) (Some (ln_prev_hash link)))
           else None))"

definition locate_break_event ::
  "ledger_env \<Rightarrow> chain_id \<Rightarrow> (u64 \<times> digest) option \<Rightarrow> event \<Rightarrow> chain_break + (u64 \<times> digest) option" where
  "locate_break_event env chain state event =
     (case chain_link_of chain event of
        None \<Rightarrow> Ok state
      | Some link \<Rightarrow> (case member_break env chain state event link of
          Some b \<Rightarrow> Err b
        | None \<Rightarrow> Ok (Some (ln_seq link, ev_hash event))))"

definition global_break :: "ledger_env \<Rightarrow> digest \<Rightarrow> nat \<Rightarrow> event \<Rightarrow> chain_break option" where
  "global_break env global_prev index event =
     (let expected_seq = of_nat index;
          recomputed = event_compute_hash env event (ev_prev_hash event) in
      if ev_seq event \<noteq> expected_seq
      then Some (chain_break_at Global BK_SequenceBroken event None None None)
      else if index = 0 \<and> ev_prev_hash event \<noteq> zero_digest
      then Some (chain_break_at Global BK_BadGenesis event None
             (Some zero_digest) (Some (ev_prev_hash event)))
      else if ev_prev_hash event \<noteq> global_prev
      then Some (chain_break_at Global BK_LinkBroken event None
             (Some global_prev) (Some (ev_prev_hash event)))
      else if recomputed \<noteq> ev_hash event
      then Some (chain_break_at Global BK_HashMismatch event None
             (Some recomputed) (Some (ev_hash event)))
      else None)"

definition locate_global_event :: "ledger_env \<Rightarrow> digest \<Rightarrow> nat \<times> event \<Rightarrow> chain_break + digest" where
  "locate_global_event env = (\<lambda>global_prev (index, event).
     case global_break env global_prev index event of
       Some b \<Rightarrow> Err b
     | None \<Rightarrow> Ok (ev_hash event))"

definition locate_global_break :: "ledger_env \<Rightarrow> ledger \<Rightarrow> chain_break option" where
  "locate_global_break env l =
     (case try_fold (locate_global_event env) zero_digest (List.enumerate 0 (events l)) of
        Inl b \<Rightarrow> Some b
      | Inr _ \<Rightarrow> None)"

definition locate_break :: "ledger_env \<Rightarrow> ledger \<Rightarrow> chain_id \<Rightarrow> chain_break option" where
  "locate_break env l chain =
     (if is_global chain then locate_global_break env l
      else case try_fold (locate_break_event env chain) None (events l) of
        Inl b \<Rightarrow> Some b
      | Inr _ \<Rightarrow> None)"

definition first_break :: "ledger_env \<Rightarrow> ledger \<Rightarrow> chain_break option" where
  "first_break env l = locate_global_break env l"

subsection \<open>Status of every chain\<close>

definition first_kind :: "event list \<Rightarrow> string option" where
  "first_kind evs = (case evs of [] \<Rightarrow> None | e # _ \<Rightarrow> Some (ev_kind e))"

definition chain_status :: "ledger_env \<Rightarrow> ledger \<Rightarrow> chain_id \<Rightarrow> chain_status option" where
  "chain_status env l chain =
     (if is_global chain then
        (let brk = locate_break env l chain in
         Some \<lparr>st_chain = chain, st_genesis_kind = first_kind (events l),
               st_length = of_nat (length (events l)), st_head = head l,
               st_verified = (brk = None), st_first_break = brk\<rparr>)
      else
        (let members = events_in_chain l chain in
         if members = [] then None
         else
           (let brk = locate_break env l chain in
            Some \<lparr>st_chain = chain, st_genesis_kind = first_kind members,
                  st_length = of_nat (length members), st_head = Some (ev_hash (last members)),
                  st_verified = (brk = None), st_first_break = brk\<rparr>)))"

definition chains :: "ledger_env \<Rightarrow> ledger \<Rightarrow> chain_status list" where
  "chains env l = List.map_filter (chain_status env l) (distinct_non_global_chains l)"

subsection \<open>Validating append\<close>

definition insert_link_indices :: "nat \<times> event \<Rightarrow> (chain_id \<rightharpoonup> nat) \<Rightarrow> (chain_id \<rightharpoonup> nat)" where
  "insert_link_indices = (\<lambda>(i, e) m. fold (\<lambda>link m. m(ln_chain link \<mapsto> i)) (ev_links e) m)"

definition head_event_indices :: "ledger \<Rightarrow> (chain_id \<rightharpoonup> nat)" where
  "head_event_indices l = fold insert_link_indices (List.enumerate 0 (events l)) Map.empty"

definition tail_break :: "ledger_env \<Rightarrow> ledger \<Rightarrow> chain_id \<Rightarrow> nat \<Rightarrow> chain_break option" where
  "tail_break env l chain idx =
     (let event = events l ! idx;
          recomputed = event_compute_hash env event (ev_prev_hash event) in
      if recomputed = ev_hash event then None
      else Some (chain_break_at chain BK_HashMismatch event
             (map_option ln_seq (chain_link_of chain event))
             (Some recomputed) (Some (ev_hash event))))"

definition try_append_check ::
  "ledger_env \<Rightarrow> ledger \<Rightarrow> string \<Rightarrow> (chain_id \<rightharpoonup> nat) \<Rightarrow> chain_id \<Rightarrow> append_error option" where
  "try_append_check env l kind head_idx chain =
     (case head_idx chain of
        None \<Rightarrow> (case expected_genesis_kind chain of
            Some expected \<Rightarrow>
              if kind \<noteq> expected then Some (AppendGenesisWrong chain expected kind) else None
          | None \<Rightarrow> None)
      | Some idx \<Rightarrow> (case tail_break env l chain idx of
            Some b \<Rightarrow> Some (BrokenChainTail chain b)
          | None \<Rightarrow> None))"

text \<open>The first failing check, in the order of the code: each joined chain, then the spine.\<close>

definition try_append_rejection :: "ledger_env \<Rightarrow> ledger \<Rightarrow> string \<Rightarrow> string \<Rightarrow> append_error option" where
  "try_append_rejection env l scope kind =
     (case find_map (try_append_check env l kind (head_event_indices l))
             (memberships (uuid_parses env) scope kind) of
        Some err \<Rightarrow> Some err
      | None \<Rightarrow>
          if events l = [] then None
          else map_option (BrokenChainTail Global) (tail_break env l Global (length (events l) - 1)))"

definition try_append ::
  "ledger_env \<Rightarrow> ledger \<Rightarrow> uuid \<Rightarrow> offset_date_time \<Rightarrow> string \<Rightarrow> string \<Rightarrow> string
     \<Rightarrow> string option \<Rightarrow> byte list \<Rightarrow> (append_error, event, ledger) call" where
  "try_append env l new_id now actor scope kind justification payload =
     (case try_append_rejection env l scope kind of
        Some err \<Rightarrow> (Err err, l)
      | None \<Rightarrow> (let (e, l') = append_at env l new_id actor scope kind justification payload now
                 in (Ok e, l')))"

subsection \<open>Re-anchoring\<close>

text \<open>One turn of the rebuilding loop: the two mutable variables, and the events done so far.\<close>

definition rebuild_event ::
  "ledger_env \<Rightarrow> digest \<Rightarrow> heads \<Rightarrow> nat \<Rightarrow> event \<Rightarrow> event" where
  "rebuild_event env global_prev heads index event =
     (let seq = of_nat index;
          links = sort_key ln_chain
            (map (next_link heads) (memberships (uuid_parses env) (ev_scope event) (ev_kind event)));
          hash = compute_hash env global_prev seq (ev_actor event) (ev_scope event) (ev_kind event)
            (ev_timestamp event) (ev_payload_digest event) links
      in event\<lparr>ev_seq := seq, ev_prev_hash := global_prev, ev_links := links, ev_hash := hash\<rparr>)"

definition rebuild_step ::
  "ledger_env \<Rightarrow> digest \<times> heads \<times> event list \<Rightarrow> nat \<times> event \<Rightarrow> digest \<times> heads \<times> event list" where
  "rebuild_step env = (\<lambda>(global_prev, heads, rebuilt) (index, event).
     let event' = rebuild_event env global_prev heads index event
     in (ev_hash event', insert_link_heads event' heads, rebuilt @ [event']))"

definition rebuild :: "ledger_env \<Rightarrow> event list \<Rightarrow> event list" where
  "rebuild env evs =
     (case foldl (rebuild_step env) (zero_digest, Map.empty, []) (List.enumerate 0 evs) of
        (_, _, rebuilt) \<Rightarrow> rebuilt)"

text \<open>The chain-seq range of one changed link, merged into the ranges collected so far.\<close>

definition widen_range :: "chain_link \<Rightarrow> (chain_id \<rightharpoonup> u64 \<times> u64) \<Rightarrow> (chain_id \<rightharpoonup> u64 \<times> u64)" where
  "widen_range link ranges =
     (let (from, to) = (case ranges (ln_chain link) of
            Some r \<Rightarrow> r | None \<Rightarrow> (ln_seq link, ln_seq link))
      in ranges(ln_chain link \<mapsto> (min from (ln_seq link), max to (ln_seq link))))"

definition changed_events :: "digest list \<Rightarrow> event list \<Rightarrow> event list" where
  "changed_events old_hashes evs =
     map snd (filter (\<lambda>(old, e). old \<noteq> ev_hash e) (zip old_hashes evs))"

definition affected_segments :: "digest list \<Rightarrow> event list \<Rightarrow> reanchor_segment list" where
  "affected_segments old_hashes evs =
     (let links = concat (map ev_links (changed_events old_hashes evs));
          ranges = fold widen_range links Map.empty
      in List.map_filter
           (\<lambda>c. map_option (\<lambda>(from, to). \<lparr>seg_chain = c, seg_from = from, seg_to = to\<rparr>) (ranges c))
           (sorted_list_of_set (set (map ln_chain links))))"

text \<open>
  The \<open>expect\<close> on the head after the rebuild cannot fail: an empty ledger verifies and is
  refused before (lemma \<open>broken_not_empty\<close>).
\<close>

definition reanchor ::
  "ledger_env \<Rightarrow> json_codec \<Rightarrow> ledger \<Rightarrow> uuid \<Rightarrow> string \<Rightarrow> string \<Rightarrow> offset_date_time
     \<Rightarrow> (reanchor_error, reanchor_record, ledger) call" where
  "reanchor env codec l new_id actor reason at =
     (if is_blank reason then (Err EmptyReason, l)
      else if is_ok (verify env l) then (Err AlreadyValid, l)
      else
        (let original_global_head = head l;
             old_hashes = map ev_hash (events l);
             l1 = l\<lparr>events := rebuild env (events l)\<rparr>;
             affected = affected_segments old_hashes (events l1);
             new_global_head = (case head l1 of Some h \<Rightarrow> h | None \<Rightarrow> zero_digest);
             pre_reanchor_digest = sha256 env (concat old_hashes);
             record = \<lparr>rr_actor = actor, rr_at = at, rr_reason = reason, rr_affected = affected,
                       rr_original_global_head = original_global_head,
                       rr_new_global_head = new_global_head,
                       rr_pre_reanchor_digest = pre_reanchor_digest\<rparr>;
             record_json = to_json codec record;
             (_, l2) = append_at env l1 new_id actor RECOVERY_SCOPE REANCHOR_EVENT_KIND
                         (Some record_json) (as_bytes record_json) at
         in case verify env l2 of
              Inr _ \<Rightarrow> (Ok record, l2)
            | Inl e \<Rightarrow> (Err (VerificationFailed e), l2)))"

definition disclosed_record :: "ledger_env \<Rightarrow> json_codec \<Rightarrow> event \<Rightarrow> reanchor_record option" where
  "disclosed_record env codec e =
     (case ev_justification e of
        None \<Rightarrow> None
      | Some json \<Rightarrow>
          if digest_of env (as_bytes json) \<noteq> ev_payload_digest e then None
          else from_json codec json)"

definition reanchored_segments :: "ledger_env \<Rightarrow> json_codec \<Rightarrow> ledger \<Rightarrow> reanchor_record list" where
  "reanchored_segments env codec l =
     List.map_filter (disclosed_record env codec)
       (filter (\<lambda>e. ev_kind e = REANCHOR_EVENT_KIND \<and> ev_scope e = RECOVERY_SCOPE) (events l))"

text \<open>The \<open>expect\<close> on the global status cannot fail: that branch of \<open>chain_status\<close> returns \<open>Some\<close>.\<close>

definition integrity_report ::
  "ledger_env \<Rightarrow> json_codec \<Rightarrow> ledger \<Rightarrow> integrity_report option" where
  "integrity_report env codec l =
     (case chain_status env l Global of
        None \<Rightarrow> None
      | Some global \<Rightarrow>
          Some \<lparr>ir_global = global, ir_chains = chains env l,
                ir_healthy = (st_first_break global = None
                  \<and> list_all (\<lambda>c. st_first_break c = None) (chains env l)),
                ir_reanchored_segments = reanchored_segments env codec l\<rparr>)"

subsection \<open>Exported bundles\<close>

definition verify_bundle_event ::
  "ledger_env \<Rightarrow> chain_id \<Rightarrow> (u64 \<times> digest) option \<times> u64 \<Rightarrow> event
     \<Rightarrow> chain_break + (u64 \<times> digest) option \<times> u64" where
  "verify_bundle_event env chain = (\<lambda>(state, count) event.
     case chain_link_of chain event of
       None \<Rightarrow> Ok (state, count)
     | Some link \<Rightarrow> (case member_break env chain state event link of
         Some b \<Rightarrow> Err b
       | None \<Rightarrow> Ok (Some (ln_seq link, ev_hash event), count + 1)))"

definition verify_bundle_chain :: "ledger_env \<Rightarrow> event list \<Rightarrow> chain_id \<Rightarrow> chain_break + u64" where
  "verify_bundle_chain env evs chain =
     (case try_fold (verify_bundle_event env chain) (None, 0) evs of
        Inl b \<Rightarrow> Err b
      | Inr (_, count) \<Rightarrow> Ok count)"

definition verify_bundle_chain_verdict :: "ledger_env \<Rightarrow> event list \<Rightarrow> chain_id \<Rightarrow> bundle_verdict" where
  "verify_bundle_chain_verdict env evs chain =
     (case verify_bundle_chain env evs chain of Inr n \<Rightarrow> Verified n | Inl b \<Rightarrow> Broken b)"

section \<open>The break locators agree with the verifiers\<close>

text \<open>The classification of an error: \<open>BreakKind\<close> is documented to mirror \<open>LedgerError\<close>.\<close>

fun error_kind :: "ledger_error \<Rightarrow> break_kind" where
  "error_kind BadGenesis = BK_BadGenesis"
| "error_kind (SequenceBroken _ _ _) = BK_SequenceBroken"
| "error_kind (LinkBroken _) = BK_LinkBroken"
| "error_kind (HashMismatch _) = BK_HashMismatch"
| "error_kind (ChainSequenceBroken _ _ _) = BK_ChainSequenceBroken"
| "error_kind (ChainLinkBroken _ _) = BK_ChainLinkBroken"
| "error_kind (ChainGenesisWrong _ _ _) = BK_ChainGenesisWrong"

definition same_break :: "ledger_error \<Rightarrow> chain_break \<Rightarrow> bool" where
  "same_break err b \<longleftrightarrow> brk_kind b = error_kind err"

lemma member_break_agrees:
  "rel_sum same_break (\<lambda>_ _. True)
     (if event_compute_hash env e (ev_prev_hash e) \<noteq> ev_hash e then Err (HashMismatch (ev_seq e))
      else check_link c state link (ev_kind e))
     (case member_break env c state e link of Some b \<Rightarrow> Err b | None \<Rightarrow> Ok ())"
  by (simp add: member_break_def check_link_def check_chain_genesis_def genesis_break_def
      chain_break_at_def same_break_def Let_def split: option.split)

interpretation global_lockstep: lockstep "verify_global_event env" "locate_global_event env" "(=)" same_break
  for env
  by unfold_locales
    (auto simp: verify_global_event_def locate_global_event_def check_spine_def global_break_def
      chain_break_at_def same_break_def Let_def)

interpretation chain_lockstep:
  lockstep "verify_chain_event env c" "locate_break_event env c" "\<lambda>(state, _) state'. state = state'" same_break
  for env c
proof unfold_locales
  fix s :: "(u64 \<times> digest) option \<times> u64" and t and x :: event
  assume "(\<lambda>(state, _) state'. state = state') s t"
  then obtain n where s: "s = (t, n)" by (cases s) simp
  show "rel_sum same_break (\<lambda>(state, _) state'. state = state')
      (verify_chain_event env c s x) (locate_break_event env c t x)"
  proof (cases "chain_link_of c x")
    case (Some link)
    with member_break_agrees [of env x c t link] show ?thesis
      by (auto simp: s verify_chain_event_def locate_break_event_def
          split: option.splits sum.splits if_splits elim: rel_sum.cases)
  qed (simp add: s verify_chain_event_def locate_break_event_def)
qed

interpretation bundle_lockstep:
  lockstep "verify_chain_event env c" "verify_bundle_event env c" "(=)" same_break
  for env c
proof unfold_locales
  fix s t :: "(u64 \<times> digest) option \<times> u64" and x :: event
  assume "s = t"
  then obtain state n where s: "s = (state, n)" "t = (state, n)" by (cases s) auto
  show "rel_sum same_break (=) (verify_chain_event env c s x) (verify_bundle_event env c t x)"
  proof (cases "chain_link_of c x")
    case (Some link)
    with member_break_agrees [of env x c state link] show ?thesis
      by (auto simp: s verify_chain_event_def verify_bundle_event_def
          split: option.splits sum.splits if_splits elim: rel_sum.cases)
  qed (simp add: s verify_chain_event_def verify_bundle_event_def)
qed

text \<open>
  C6: locating a break and verifying agree on every chain, the global spine included: there is
  no break when the chain verifies, and otherwise the break found has the kind of the error the
  verifier returns.
\<close>

theorem locate_break_agrees:
  "case verify_chain env l c of
     Inr _ \<Rightarrow> locate_break env l c = None
   | Inl err \<Rightarrow> \<exists>b. locate_break env l c = Some b \<and> brk_kind b = error_kind err"
proof (cases "c = Global")
  case True
  show ?thesis
    using global_lockstep.folds [of zero_digest zero_digest env "List.enumerate 0 (events l)"]
    by (auto simp: True locate_break_def locate_global_break_def verify_chain_def verify_global_def
        same_break_def split: sum.splits elim: rel_sum.cases)
next
  case False
  show ?thesis
    using chain_lockstep.folds [of "(None, 0)" None env c "events l"] False
    by (auto simp: locate_break_def verify_chain_def same_break_def
        split: sum.splits elim: rel_sum.cases)
qed

lemma locate_break_None_iff: "locate_break env l c = None \<longleftrightarrow> is_ok (verify_chain env l c)"
proof (cases "c = Global")
  case True
  then show ?thesis
    using global_lockstep.folds_ok [of zero_digest zero_digest env "List.enumerate 0 (events l)"]
    by (auto simp: locate_break_def locate_global_break_def verify_chain_def verify_global_def
        split: sum.splits)
next
  case False
  then show ?thesis
    using chain_lockstep.folds_ok [of "(None, 0)" None env c "events l"]
    by (auto simp: locate_break_def verify_chain_def split: sum.splits)
qed

lemma verify_bundle_outcome:
  assumes "c \<noteq> Global"
  shows "rel_sum same_break (=) (verify_chain env l c) (verify_bundle_chain env (events l) c)"
  using bundle_lockstep.folds [of "(None, 0)" "(None, 0)" env c "events l"] assms
  by (auto simp: verify_chain_def verify_bundle_chain_def split: sum.splits elim: rel_sum.cases)

text \<open>
  what the holder of an exported bundle checks is what the full ledger checks. The bundle of
  a chain is the chain's events alone; verifying it gives the length that \<open>verify_chain\<close> gives on
  the whole ledger, and fails exactly when \<open>verify_chain\<close> fails, with the same kind of break.
\<close>

theorem bundle_verification_agrees:
  assumes "c \<noteq> Global"
  shows "rel_sum same_break (=) (verify_chain env l c)
           (verify_bundle_chain env (events_in_chain l c) c)"
proof -
  have "try_fold (verify_bundle_event env c) (None, 0) (filter (in_chain c) (events l))
      = try_fold (verify_bundle_event env c) (None, 0) (events l)"
    by (rule try_fold_filter) (auto simp: verify_bundle_event_def in_chain_iff)
  then have "verify_bundle_chain env (events_in_chain l c) c = verify_bundle_chain env (events l) c"
    using assms by (simp add: verify_bundle_chain_def events_in_chain_def)
  then show ?thesis using verify_bundle_outcome [OF assms, of env l] by simp
qed

text \<open>
  asked for the global chain, the bundle verifier checks nothing: on events as the ledger
  makes them (none carries a link to the global chain) it accepts any list, altered events
  included, with length 0.
\<close>

theorem bundle_global_unchecked:
  assumes "links_canonical evs"
  shows "verify_bundle_chain env evs Global = Ok 0"
proof -
  have "try_fold (verify_bundle_event env Global) (None, 0) evs
      = try_fold (verify_bundle_event env Global) (None, 0) (filter (in_chain Global) evs)"
    by (rule try_fold_filter [symmetric]) (auto simp: verify_bundle_event_def in_chain_iff)
  moreover have "filter (in_chain Global) evs = []"
    using assms by (force simp: filter_empty_conv links_canonical_def in_chain_def)
  ultimately show ?thesis by (simp add: verify_bundle_chain_def)
qed

subsection \<open>The integrity report\<close>

lemma set_distinct_non_global_chains:
  "set (distinct_non_global_chains l) = (\<Union>e \<in> set (events l). ln_chain ` set (ev_links e))"
  by (simp add: distinct_non_global_chains_def)

lemma absent_chain_verifies:
  assumes "c \<notin> set (distinct_non_global_chains l)" and "c \<noteq> Global"
  shows "is_ok (verify_chain env l c)"
proof -
  have none: "chain_link_of c e = None" if "e \<in> set (events l)" for e
    using that assms(1) by (auto simp: set_distinct_non_global_chains chain_link_of_None)
  have "chain_members c evs = []" if "\<And>e. e \<in> set evs \<Longrightarrow> chain_link_of c e = None" for evs
    using that by (induction evs) simp_all
  with none have "chain_members c (events l) = []" by blast
  then show ?thesis
    using verify_chain_spec [OF assms(2), of env l] by (simp add: is_ok_iff chain_linked_def)
qed

lemma chain_status_break: "chain_status env l c = Some s \<Longrightarrow> st_first_break s = locate_break env l c"
  by (auto simp: chain_status_def Let_def split: if_splits)

lemma chain_status_present:
  "c \<in> set (distinct_non_global_chains l) \<Longrightarrow> \<exists>s. chain_status env l c = Some s"
  by (auto simp: chain_status_def Let_def set_distinct_non_global_chains events_in_chain_def
      in_chain_def filter_empty_conv)

text \<open>
  the integrity report is always produced, and its \<open>healthy\<close> flag is exactly the outcome of
  \<open>verify\<close>.
\<close>

theorem integrity_report_healthy:
  assumes "links_canonical (events l)"
  shows "\<exists>r. integrity_report env codec l = Some r \<and> (ir_healthy r \<longleftrightarrow> is_ok (verify env l))"
proof -
  have "(\<forall>s \<in> set (chains env l). st_first_break s = None) \<longleftrightarrow>
      (\<forall>c \<in> set (distinct_non_global_chains l). is_ok (verify_chain env l c))"
    using chain_status_present [of _ l env] chain_status_break [of env l]
    by (fastforce simp: chains_def map_filter_def locate_break_None_iff)
  moreover have "Global \<notin> set (distinct_non_global_chains l)"
    using assms by (auto simp: set_distinct_non_global_chains links_canonical_def)
  ultimately have "is_ok (verify_chain env l Global) \<and> (\<forall>s \<in> set (chains env l). st_first_break s = None)
      \<longleftrightarrow> (\<forall>c. is_ok (verify_chain env l c))"
    using absent_chain_verifies [of _ l env] by metis
  then show ?thesis
    using verify_all_chains [OF assms, of env]
    by (simp add: integrity_report_def chain_status_def Let_def list_all_iff locate_break_None_iff)
qed

subsection \<open>Validating append\<close>

definition indices_of :: "event list \<Rightarrow> chain_id \<rightharpoonup> nat" where
  "indices_of evs = fold insert_link_indices (List.enumerate 0 evs) Map.empty"

lemma indices_of_snoc [simp]:
  "indices_of (evs @ [e]) = fold (\<lambda>l m. m(ln_chain l \<mapsto> length evs)) (ev_links e) (indices_of evs)"
  by (simp add: indices_of_def enumerate_append_eq insert_link_indices_def)

lemma fold_upd_None_iff:
  "fold (\<lambda>l m. m(ln_chain l \<mapsto> f l)) ls m c = None \<longleftrightarrow> m c = None \<and> c \<notin> ln_chain ` set ls"
  by (induction ls arbitrary: m) auto

lemma indices_of_None_iff: "indices_of evs c = None \<longleftrightarrow> heads_of evs c = None"
  by (induction evs rule: rev_induct)
    (auto simp: fold_upd_None_iff insert_link_heads_def, simp add: indices_of_def)

lemma fold_upd_bound:
  "\<forall>c i. m c = Some i \<longrightarrow> i < n \<Longrightarrow> k < n \<Longrightarrow>
     fold (\<lambda>l m. m(ln_chain l \<mapsto> k)) ls m c = Some i \<Longrightarrow> i < n"
proof (induction ls arbitrary: m)
  case (Cons l ls)
  have "\<forall>d j. (m(ln_chain l \<mapsto> k)) d = Some j \<longrightarrow> j < n" using Cons.prems(1, 2) by auto
  from Cons.IH [OF this Cons.prems(2)] Cons.prems(3) show ?case by (simp del: fun_upd_apply)
qed simp

lemma indices_of_bound: "indices_of evs c = Some i \<Longrightarrow> i < length evs"
proof (induction evs arbitrary: c i rule: rev_induct)
  case Nil
  then show ?case by (simp add: indices_of_def)
next
  case (snoc e evs)
  have "j < length (evs @ [e])" if "indices_of evs d = Some j" for d j
    using snoc.IH [OF that] by simp
  with snoc.prems show ?case
    using fold_upd_bound [of "indices_of evs" "length (evs @ [e])" "length evs"] by auto
qed

lemma tail_break_None: "hash_fits env (events l ! i) \<Longrightarrow> tail_break env l c i = None"
  by (simp add: tail_break_def hash_fits_def)

lemma verified_hash_fits:
  assumes "is_ok (verify env l)" and "links_canonical (events l)" and "e \<in> set (events l)"
  shows "hash_fits env e"
proof -
  have "spine_linked env (events l)"
    using assms verify_split [of "events l" env] by (cases l) simp
  then show ?thesis using assms(3) by (auto simp: spine_linked_def linked_def in_set_conv_nth)
qed

lemma try_append_failed: "fst (try_append env l i now a s k j p) = Err err \<Longrightarrow>
    snd (try_append env l i now a s k j p) = l"
  by (auto simp: try_append_def split: option.splits prod.splits)

lemma try_append_Ok:
  "fst (try_append env l i now a s k j p) = Ok e \<Longrightarrow>
     append_at env l i a s k j p now = (e, snd (try_append env l i now a s k j p))
     \<and> try_append_rejection env l s k = None"
  by (auto simp: try_append_def split: option.splits prod.splits)

lemma try_append_is_ok:
  "is_ok (fst (try_append env l i now a s k j p)) \<longleftrightarrow> try_append_rejection env l s k = None"
  by (auto simp: try_append_def split: option.splits prod.splits)

lemma try_append_check_genesis:
  "head_event_indices l c = None \<Longrightarrow>
     try_append_check env l k (head_event_indices l) c = None \<longleftrightarrow> genesis_fits c k"
  by (auto simp: try_append_check_def genesis_fits_def split: option.splits)

lemma head_event_indices_None: "head_event_indices l c = None \<longleftrightarrow> chain_heads l c = None"
  by (simp add: head_event_indices_def indices_of_def [symmetric] indices_of_None_iff chain_heads_eq)

lemma rejection_None_genesis:
  assumes "try_append_rejection env l s k = None"
    and "c \<in> set (memberships (uuid_parses env) s k)" and "chain_heads l c = None"
  shows "genesis_fits c k"
proof -
  have "try_append_check env l k (head_event_indices l) c = None"
    using assms(1, 2) by (auto simp: try_append_rejection_def find_map_None_iff split: option.splits)
  then show ?thesis using try_append_check_genesis assms(3) head_event_indices_None by blast
qed

lemma rejection_of_verified:
  assumes "is_ok (verify env l)" and "links_canonical (events l)"
  shows "try_append_rejection env l s k = None \<longleftrightarrow>
    (\<forall>c \<in> set (memberships (uuid_parses env) s k). chain_heads l c = None \<longrightarrow> genesis_fits c k)"
proof
  show "try_append_rejection env l s k = None \<Longrightarrow>
    \<forall>c \<in> set (memberships (uuid_parses env) s k). chain_heads l c = None \<longrightarrow> genesis_fits c k"
    using rejection_None_genesis by blast
next
  assume ok: "\<forall>c \<in> set (memberships (uuid_parses env) s k). chain_heads l c = None \<longrightarrow> genesis_fits c k"
  have tail: "tail_break env l c n = None" if "n < length (events l)" for c n
    using verified_hash_fits [OF assms] that by (simp add: tail_break_None)
  have "try_append_check env l k (head_event_indices l) c = None"
    if "c \<in> set (memberships (uuid_parses env) s k)" for c
  proof (cases "head_event_indices l c")
    case None
    with ok that show ?thesis using try_append_check_genesis head_event_indices_None by blast
  next
    case (Some n)
    then have "n < length (events l)"
      by (simp add: head_event_indices_def indices_of_def [symmetric] indices_of_bound)
    with Some tail show ?thesis by (simp add: try_append_check_def)
  qed
  then have "find_map (try_append_check env l k (head_event_indices l))
      (memberships (uuid_parses env) s k) = None" by (simp add: find_map_None_iff)
  with tail [of "length (events l) - 1"] show "try_append_rejection env l s k = None"
    by (simp add: try_append_rejection_def)
qed

text \<open>The ledger as a machine whose only operation is the validating append.\<close>

datatype ledger_op = TryAppend uuid offset_date_time string string string "string option" "byte list"

fun ledger_exec :: "ledger_env \<Rightarrow> ledger_op \<Rightarrow> ledger \<Rightarrow> (append_error, event, ledger) call" where
  "ledger_exec env (TryAppend i now a s k j p) l = try_append env l i now a s k j p"

definition ledger_inv :: "ledger_env \<Rightarrow> ledger \<Rightarrow> bool" where
  "ledger_inv env l \<longleftrightarrow> links_canonical (events l) \<and> is_ok (verify env l)"

interpretation ledger_atomic: atomic_machine "ledger_exec env" for env
proof unfold_locales
  fix op and s :: ledger and e
  assume "fst (ledger_exec env op s) = Inl e"
  then show "snd (ledger_exec env op s) = s" by (cases op) (simp add: try_append_failed)
qed

interpretation ledger_machine: machine "ledger_exec env" "ledger_inv env" for env
proof unfold_locales
  fix op and l :: ledger
  assume inv: "ledger_inv env l"
  show "ledger_inv env (snd (ledger_exec env op l))"
  proof (cases "fst (ledger_exec env op l)")
    case (Inl e)
    with inv show ?thesis by (simp add: ledger_atomic.failed_unchanged)
  next
    case (Inr e)
    obtain i now a s k j p where "op = TryAppend i now a s k j p" by (cases op)
    with Inr have "append_at env l i a s k j p now = (e, snd (ledger_exec env op l))"
      "try_append_rejection env l s k = None"
      using try_append_Ok [of env l i now a s k j p e] by simp_all
    with inv show ?thesis
      using append_at_canonical append_at_verify rejection_None_genesis
      unfolding ledger_inv_def by metis
  qed
qed

lemma ledger_exec_extends: "\<exists>evs. events (snd (ledger_exec env op l)) = events l @ evs"
proof (cases "fst (ledger_exec env op l)")
  case (Inl e)
  then show ?thesis by (simp add: ledger_atomic.failed_unchanged)
next
  case (Inr e)
  obtain i now a s k j p where "op = TryAppend i now a s k j p" by (cases op)
  with Inr try_append_Ok [of env l i now a s k j p e] show ?thesis
    using append_at_event(1) by fastforce
qed

text \<open>
  C2: a ledger built from the empty one by any sequence of validating appends, accepted and
  refused ones mixed, always verifies, on every chain.
\<close>

theorem validated_ledger_verifies:
  "is_ok (verify env (run (ledger_exec env) ops ledger_new))
   \<and> (\<forall>c. is_ok (verify_chain env (run (ledger_exec env) ops ledger_new) c))"
proof -
  have "ledger_inv env ledger_new" by (simp add: ledger_inv_def ledger_new_def)
  then have "ledger_inv env (run (ledger_exec env) ops ledger_new)" by (rule ledger_machine.run_inv)
  then show ?thesis unfolding ledger_inv_def using verify_all_chains by blast
qed

text \<open>
  Appending is append-only. Whatever sequence of validating appends follows, the events
  already recorded stay where they are, unchanged.
\<close>

theorem ledger_append_only:
  "\<exists>evs. events (run (ledger_exec env) ops l) = events l @ evs"
proof (induction ops arbitrary: l)
  case (Cons op ops)
  obtain es es' where "events (snd (ledger_exec env op l)) = events l @ es"
    "events (run (ledger_exec env) ops (snd (ledger_exec env op l))) =
       events (snd (ledger_exec env op l)) @ es'"
    using ledger_exec_extends Cons.IH by meson
  then show ?case by simp
qed simp

text \<open>
  C4: the validating append on a sound ledger. It succeeds exactly when every chain the event
  would open gets its required genesis kind; on success one event is added and the ledger still
  verifies, and a refusal leaves the ledger untouched.
\<close>

theorem try_append_outcome:
  assumes "links_canonical (events l)" and "is_ok (verify env l)"
    and "try_append env l i now a s k j p = (r, l')"
  shows "(is_ok r \<longleftrightarrow> (\<forall>c \<in> set (memberships (uuid_parses env) s k).
            chain_heads l c = None \<longrightarrow> genesis_fits c k))
    \<and> is_ok (verify env l')
    \<and> (case r of Inl _ \<Rightarrow> l' = l | Inr e \<Rightarrow> events l' = events l @ [e])"
proof -
  have inv: "ledger_inv env l'"
    using ledger_machine.exec_inv [of env l "TryAppend i now a s k j p"] assms
    by (simp add: ledger_inv_def)
  have ok: "is_ok r \<longleftrightarrow> (\<forall>c \<in> set (memberships (uuid_parses env) s k).
      chain_heads l c = None \<longrightarrow> genesis_fits c k)"
    using try_append_is_ok [of env l i now a s k j p] rejection_of_verified [OF assms(2, 1), of s k]
      assms(3) by simp
  have "case r of Inl _ \<Rightarrow> l' = l | Inr e \<Rightarrow> events l' = events l @ [e]"
  proof (cases r)
    case (Inl err)
    with try_append_failed [of env l i now a s k j p err] assms(3) show ?thesis by simp
  next
    case (Inr e)
    with try_append_Ok [of env l i now a s k j p e] assms(3)
    have "append_at env l i a s k j p now = (e, l')" by simp
    from append_at_event(1) [OF this] Inr show ?thesis by simp
  qed
  with inv ok show ?thesis by (simp add: ledger_inv_def)
qed

subsection \<open>Re-anchoring\<close>

text \<open>What a re-anchor must keep of an event: everything but the linkage.\<close>

definition content ::
  "event \<Rightarrow> uuid \<times> string \<times> string option \<times> offset_date_time \<times> string \<times> string \<times> digest" where
  "content e = (ev_id e, ev_actor e, ev_justification e, ev_timestamp e, ev_scope e, ev_kind e,
     ev_payload_digest e)"

definition rebuilt_links :: "(string \<Rightarrow> bool) \<Rightarrow> event \<Rightarrow> chain_id set" where
  "rebuilt_links u e = set (memberships u (ev_scope e) (ev_kind e))"

text \<open>Every chain the events' scopes name starts with an event of the kind it requires.\<close>

definition genesis_kinds_fit :: "(string \<Rightarrow> bool) \<Rightarrow> event list \<Rightarrow> bool" where
  "genesis_kinds_fit u evs \<longleftrightarrow> (\<forall>c e. List.find (\<lambda>e. c \<in> rebuilt_links u e) evs = Some e
     \<longrightarrow> genesis_fits c (ev_kind e))"

lemma rebuild_loop:
  "foldl (rebuild_step env) (zero_digest, Map.empty, []) (List.enumerate 0 evs)
     = (prev_of (rebuild env evs), heads_of (rebuild env evs), rebuild env evs)"
proof (induction evs rule: rev_induct)
  case (snoc e evs)
  then show ?case
    by (simp add: rebuild_def [of env "evs @ [e]"] enumerate_append_eq rebuild_step_def Let_def)
qed (simp add: rebuild_def)

lemma rebuild_snoc [simp]:
  "rebuild env (evs @ [e]) = rebuild env evs
     @ [rebuild_event env (prev_of (rebuild env evs)) (heads_of (rebuild env evs)) (length evs) e]"
  unfolding rebuild_def [of env "evs @ [e]"]
  by (simp add: enumerate_append_eq rebuild_loop, simp add: rebuild_step_def Let_def)

lemma rebuild_Nil [simp]: "rebuild env [] = []"
  by (simp add: rebuild_def)

lemma rebuild_event_fields:
  "content (rebuild_event env p h n e) = content e"
  "ev_seq (rebuild_event env p h n e) = of_nat n"
  "ev_prev_hash (rebuild_event env p h n e) = p"
  "ev_links (rebuild_event env p h n e)
     = map (next_link h) (memberships (uuid_parses env) (ev_scope e) (ev_kind e))"
  "ev_kind (rebuild_event env p h n e) = ev_kind e"
  "hash_fits env (rebuild_event env p h n e)"
  by (simp_all add: rebuild_event_def content_def Let_def append_links_sorted hash_fits_def
      event_compute_hash_def)

lemma length_rebuild [simp]: "length (rebuild env evs) = length evs"
  by (induction evs rule: rev_induct) simp_all

lemma content_rebuild: "map content (rebuild env evs) = map content evs"
  by (induction evs rule: rev_induct) (simp_all add: rebuild_event_fields)

lemma rebuild_canonical: "links_canonical (rebuild env evs)"
  by (induction evs rule: rev_induct) (simp_all add: rebuild_event_fields comp_def image_image)

lemma rebuild_chains:
  "heads_of (rebuild env evs) c = None \<longleftrightarrow> (\<forall>e \<in> set evs. c \<notin> rebuilt_links (uuid_parses env) e)"
proof (induction evs rule: rev_induct)
  case (snoc e evs)
  have "insert_link_heads e' h c = None \<longleftrightarrow> h c = None \<and> c \<notin> ln_chain ` set (ev_links e')" for e' h
    by (simp add: insert_link_heads_def fold_upd_None_iff)
  with snoc show ?case by (auto simp: rebuild_event_fields rebuilt_links_def image_image)
qed simp

lemma find_snoc: "List.find P (xs @ [x]) =
    (case List.find P xs of Some y \<Rightarrow> Some y | None \<Rightarrow> if P x then Some x else None)"
  by (induction xs) auto

lemma genesis_kinds_fit_snoc:
  "genesis_kinds_fit u (evs @ [e]) \<longleftrightarrow> genesis_kinds_fit u evs
     \<and> (\<forall>c \<in> rebuilt_links u e. (\<forall>e' \<in> set evs. c \<notin> rebuilt_links u e') \<longrightarrow> genesis_fits c (ev_kind e))"
proof -
  have "(\<forall>e'. List.find (\<lambda>e. c \<in> rebuilt_links u e) (evs @ [e]) = Some e' \<longrightarrow> genesis_fits c (ev_kind e'))
      \<longleftrightarrow> (\<forall>e'. List.find (\<lambda>e. c \<in> rebuilt_links u e) evs = Some e' \<longrightarrow> genesis_fits c (ev_kind e'))
      \<and> (c \<in> rebuilt_links u e \<longrightarrow> (\<forall>e' \<in> set evs. c \<notin> rebuilt_links u e') \<longrightarrow> genesis_fits c (ev_kind e))"
    for c
  proof (cases "List.find (\<lambda>e. c \<in> rebuilt_links u e) evs")
    case None
    then have "\<forall>e' \<in> set evs. c \<notin> rebuilt_links u e'" by (auto simp: find_None_iff)
    with None show ?thesis by (auto simp: find_snoc)
  next
    case (Some y)
    then have "\<not> (\<forall>e' \<in> set evs. c \<notin> rebuilt_links u e')" by (auto simp: find_Some_iff)
    with Some show ?thesis by (auto simp: find_snoc)
  qed
  then show ?thesis unfolding genesis_kinds_fit_def by blast
qed

lemma rebuild_verifies:
  "is_ok (verify env \<lparr>events = rebuild env evs\<rparr>) \<longleftrightarrow> genesis_kinds_fit (uuid_parses env) evs"
proof (induction evs rule: rev_induct)
  case Nil
  then show ?case by (simp add: genesis_kinds_fit_def)
next
  case (snoc e evs)
  have "links_canonical (rebuild env evs
      @ [rebuild_event env (prev_of (rebuild env evs)) (heads_of (rebuild env evs)) (length evs) e])"
    using rebuild_canonical [of env "evs @ [e]"] by simp
  from verify_snoc [OF this, of env] snoc show ?case
    by (simp add: rebuild_event_fields link_fits_next_link genesis_kinds_fit_snoc rebuild_chains
        rebuilt_links_def)
qed

lemma broken_not_empty: "\<not> is_ok (verify env l) \<Longrightarrow> events l \<noteq> []"
  by (auto simp: verify_def)

lemma memberships_recovery:
  "\<not> uuid_parses env RECOVERY_SCOPE \<Longrightarrow>
     memberships (uuid_parses env) RECOVERY_SCOPE REANCHOR_EVENT_KIND = [Application]"
  by (simp add: memberships_def RECOVERY_SCOPE_def nonempty_segment_def segment_value_def Let_def)

lemma genesis_fits_Application [simp]: "genesis_fits Application kind"
  by (simp add: genesis_fits_def)

text \<open>The work of a re-anchor that is not refused: rebuild, then append the disclosure.\<close>

lemma reanchor_performed:
  assumes "\<not> is_blank reason" and "\<not> is_ok (verify env l)"
    and "reanchor env codec l new_id actor reason at = (r, l')"
  obtains rcd e where
    "append_at env \<lparr>events = rebuild env (events l)\<rparr> new_id actor RECOVERY_SCOPE REANCHOR_EVENT_KIND
       (Some (to_json codec rcd)) (as_bytes (to_json codec rcd)) at = (e, l')"
    "r = (case verify env l' of Inr _ \<Rightarrow> Ok rcd | Inl err \<Rightarrow> Err (VerificationFailed err))"
    "rcd = \<lparr>rr_actor = actor, rr_at = at, rr_reason = reason,
       rr_affected = affected_segments (map ev_hash (events l)) (rebuild env (events l)),
       rr_original_global_head = head l, rr_new_global_head = prev_of (rebuild env (events l)),
       rr_pre_reanchor_digest = sha256 env (concat (map ev_hash (events l)))\<rparr>"
  using assms by (cases l) (auto simp: reanchor_def Let_def head_prev_of split: prod.splits sum.splits)

text \<open>
  The chain sequence numbers an event list gives to chain \<open>c\<close> in the events whose hash differs from the
  one the other list has in their place. The disclosed segment of a chain is their range.
\<close>

definition rehashed :: "event list \<Rightarrow> event list \<Rightarrow> chain_id \<Rightarrow> u64 set" where
  "rehashed before after c = {ln_seq k | k i. i < length before \<and> i < length after
     \<and> ev_hash (before ! i) \<noteq> ev_hash (after ! i) \<and> k \<in> set (ev_links (after ! i)) \<and> ln_chain k = c}"

lemma fold_widen_range:
  "fold widen_range links Map.empty c =
     (let S = {ln_seq k | k. k \<in> set links \<and> ln_chain k = c}
      in if S = {} then None else Some (Min S, Max S))"
proof (induction links rule: rev_induct)
  case (snoc link links)
  let ?S = "\<lambda>ls c. {ln_seq k | k. k \<in> set ls \<and> ln_chain k = c}"
  have fin: "finite (?S links c)" for c by simp
  show ?case
  proof (cases "ln_chain link = c")
    case True
    then have "?S (links @ [link]) c = insert (ln_seq link) (?S links c)" by auto
    with snoc True fin [of c] show ?thesis
      by (cases "?S links c = {}") (auto simp: widen_range_def Let_def min.commute max.commute)
  next
    case False
    then have "?S (links @ [link]) c = ?S links c" by auto
    with snoc False show ?thesis by (simp add: widen_range_def Let_def split: prod.split)
  qed
qed simp

lemma affected_segments_exact:
  assumes "length before = length after"
  shows "seg \<in> set (affected_segments (map ev_hash before) after) \<longleftrightarrow>
    (let S = rehashed before after (seg_chain seg)
     in S \<noteq> {} \<and> seg_from seg = Min S \<and> seg_to seg = Max S)"
proof -
  let ?links = "concat (map ev_links (changed_events (map ev_hash before) after))"
  have changed: "set (changed_events (map ev_hash before) after)
      = {after ! i | i. i < length after \<and> ev_hash (before ! i) \<noteq> ev_hash (after ! i)}"
    using assms by (force simp: changed_events_def set_zip)
  have S: "{ln_seq k | k. k \<in> set ?links \<and> ln_chain k = c} = rehashed before after c" for c
    using assms by (auto simp: changed rehashed_def)
  have range: "fold widen_range ?links Map.empty c = (if rehashed before after c = {} then None
      else Some (Min (rehashed before after c), Max (rehashed before after c)))" for c
    by (simp only: fold_widen_range S Let_def)
  have named: "c \<in> ln_chain ` set ?links" if "rehashed before after c \<noteq> {}" for c
    using that unfolding S [symmetric] by auto
  have "seg \<in> set (affected_segments (map ev_hash before) after) \<longleftrightarrow>
      (\<exists>c from to. fold widen_range ?links Map.empty c = Some (from, to)
         \<and> seg = \<lparr>seg_chain = c, seg_from = from, seg_to = to\<rparr>)"
    unfolding affected_segments_def map_filter_def Let_def range using named
    by (auto simp: image_iff split: if_splits)
  then show ?thesis
    unfolding range by (cases seg) (auto split: if_splits)
qed

lemma reanchor_verifies:
  assumes "\<not> uuid_parses env RECOVERY_SCOPE"
    and "append_at env \<lparr>events = rebuild env evs\<rparr> i a RECOVERY_SCOPE REANCHOR_EVENT_KIND j p at = (e, l')"
  shows "is_ok (verify env l') \<longleftrightarrow> genesis_kinds_fit (uuid_parses env) evs"
  using append_at_verify [OF assms(2)] memberships_recovery [OF assms(1)]
  by (simp add: rebuild_canonical rebuild_verifies)

text \<open>
  C5: re-anchoring. Asked with a reason that is not blank on a ledger that does not verify (and while
  the text of the recovery scope does not parse as a UUID), a re-anchor keeps every recorded event in
  place and in content (only the linkage is rebuilt) and appends exactly one event. That event discloses
  it: its kind, scope, actor and time, and in its justification the JSON of a record, bound by the payload
  digest, that names the actor, the time, the reason, the head before and after the rebuild, the digest of all
  the hashes that were overwritten, and for each chain the range of the events that were re-hashed and of no other chain.
  The call returns that record and succeeds exactly when the resulting ledger verifies, which is when
  every chain named by the events' scopes starts with the kind it requires.
\<close>

theorem reanchor_repairs:
  assumes "\<not> is_blank reason" and "\<not> is_ok (verify env l)"
    and "\<not> uuid_parses env RECOVERY_SCOPE"
    and "reanchor env codec l new_id actor reason at = (r, l')"
  shows "map content (take (length (events l)) (events l')) = map content (events l)
    \<and> (is_ok r \<longleftrightarrow> is_ok (verify env l'))
    \<and> (is_ok r \<longleftrightarrow> genesis_kinds_fit (uuid_parses env) (events l))
    \<and> (\<exists>e rcd. events l' = take (length (events l)) (events l') @ [e]
         \<and> ev_kind e = REANCHOR_EVENT_KIND \<and> ev_scope e = RECOVERY_SCOPE
         \<and> ev_actor e = actor \<and> ev_timestamp e = at
         \<and> ev_justification e = Some (to_json codec rcd)
         \<and> ev_payload_digest e = digest_of env (as_bytes (to_json codec rcd))
         \<and> rr_actor rcd = actor \<and> rr_at rcd = at \<and> rr_reason rcd = reason
         \<and> rr_original_global_head rcd = Some (ev_hash (last (events l)))
         \<and> rr_new_global_head rcd = ev_hash (events l' ! (length (events l) - 1))
         \<and> rr_pre_reanchor_digest rcd = sha256 env (concat (map ev_hash (events l)))
         \<and> (\<forall>seg. seg \<in> set (rr_affected rcd) \<longleftrightarrow>
              rehashed (events l) (take (length (events l)) (events l')) (seg_chain seg) \<noteq> {}
              \<and> seg_from seg = Min (rehashed (events l) (take (length (events l)) (events l')) (seg_chain seg))
              \<and> seg_to seg = Max (rehashed (events l) (take (length (events l)) (events l')) (seg_chain seg)))
         \<and> (is_ok r \<longrightarrow> r = Ok rcd))"
proof -
  obtain rcd e where
    app: "append_at env \<lparr>events = rebuild env (events l)\<rparr> new_id actor RECOVERY_SCOPE
       REANCHOR_EVENT_KIND (Some (to_json codec rcd)) (as_bytes (to_json codec rcd)) at = (e, l')"
    and r: "r = (case verify env l' of Inr _ \<Rightarrow> Ok rcd | Inl err \<Rightarrow> Err (VerificationFailed err))"
    and rcd: "rcd = \<lparr>rr_actor = actor, rr_at = at, rr_reason = reason,
       rr_affected = affected_segments (map ev_hash (events l)) (rebuild env (events l)),
       rr_original_global_head = head l, rr_new_global_head = prev_of (rebuild env (events l)),
       rr_pre_reanchor_digest = sha256 env (concat (map ev_hash (events l)))\<rparr>"
    using reanchor_performed [OF assms(1, 2, 4)] by blast
  let ?new = "rebuild env (events l)"
  have ne: "events l \<noteq> []" by (rule broken_not_empty [OF assms(2)])
  then have ne': "?new \<noteq> []" using length_rebuild [of env "events l"] by fastforce
  have evs: "events l' = ?new @ [e]" using append_at_event(1) [OF app] by simp
  then have pre: "take (length (events l)) (events l') = ?new"
    "events l' ! (length (events l) - 1) = last ?new"
    using ne ne' by (simp_all add: nth_append last_conv_nth)
  have heads: "head l = Some (ev_hash (last (events l)))" "prev_of ?new = ev_hash (last ?new)"
    using ne ne' by (simp_all add: head_def prev_of_def)
  have ok: "is_ok r \<longleftrightarrow> is_ok (verify env l')" using r by (simp split: sum.split)
  have "is_ok r \<longrightarrow> r = Ok rcd" using r by (simp split: sum.split)
  moreover have "\<forall>seg. seg \<in> set (rr_affected rcd) \<longleftrightarrow> rehashed (events l) ?new (seg_chain seg) \<noteq> {}
      \<and> seg_from seg = Min (rehashed (events l) ?new (seg_chain seg))
      \<and> seg_to seg = Max (rehashed (events l) ?new (seg_chain seg))"
    unfolding rcd reanchor_record.simps by (simp add: affected_segments_exact Let_def)
  ultimately show ?thesis
    unfolding pre
    using ok reanchor_verifies [OF assms(3) app] append_at_event(2-) [OF app] evs heads
    by (intro conjI exI [of _ e] exI [of _ rcd]) (simp_all add: content_rebuild rcd)
qed

text \<open>
  A refused re-anchor changes nothing: a blank reason and a ledger that already verifies are
  each rejected with their own error and the ledger as it was.
\<close>

theorem reanchor_refusals:
  "(is_blank reason \<longrightarrow> reanchor env codec l i a reason at = (Err EmptyReason, l))
   \<and> (\<not> is_blank reason \<and> is_ok (verify env l)
        \<longrightarrow> reanchor env codec l i a reason at = (Err AlreadyValid, l))"
  by (simp add: reanchor_def)

subsection \<open>The disclosure\<close>

definition disclosed :: "ledger_env \<Rightarrow> json_codec \<Rightarrow> event \<Rightarrow> reanchor_record option" where
  "disclosed env codec e =
     (if ev_kind e = REANCHOR_EVENT_KIND \<and> ev_scope e = RECOVERY_SCOPE
      then disclosed_record env codec e else None)"

lemma reanchored_segments_disclosed:
  "reanchored_segments env codec l = List.map_filter (disclosed env codec) (events l)"
  by (simp add: reanchored_segments_def disclosed_def map_filter_def comp_def conj_commute
      cong: conj_cong if_cong)

lemma disclosed_content: "content e = content e' \<Longrightarrow> disclosed env codec e = disclosed env codec e'"
  by (auto simp: content_def disclosed_def disclosed_record_def split: option.split)

lemma map_filter_content:
  "map content evs = map content evs' \<Longrightarrow>
     List.map_filter (disclosed env codec) evs = List.map_filter (disclosed env codec) evs'"
proof (induction evs arbitrary: evs')
  case (Cons e evs)
  then obtain e' evs'' where "evs' = e' # evs''" by (cases evs') auto
  with Cons disclosed_content [of e e' env codec] show ?case by (simp split: option.split)
qed simp

text \<open>
  every re-anchor is disclosed. After one is carried out, the disclosed records are the
  earlier ones, none lost, followed by the record of this one; the hypothesis on the codec is
  that a record read back from its own JSON is the record.
\<close>

theorem reanchor_disclosed:
  assumes "reanchor env codec l new_id actor reason at = (Ok rcd, l')"
    and "from_json codec (to_json codec rcd) = Some rcd"
  shows "reanchored_segments env codec l' = reanchored_segments env codec l @ [rcd]"
proof -
  have "\<not> is_blank reason" "\<not> is_ok (verify env l)"
    using assms(1) by (auto simp: reanchor_def split: if_splits)
  obtain rcd' e where
    app: "append_at env \<lparr>events = rebuild env (events l)\<rparr> new_id actor RECOVERY_SCOPE
       REANCHOR_EVENT_KIND (Some (to_json codec rcd')) (as_bytes (to_json codec rcd')) at = (e, l')"
    and "Ok rcd = (case verify env l' of Inr _ \<Rightarrow> Ok rcd' | Inl err \<Rightarrow> Err (VerificationFailed err))"
    using reanchor_performed [OF \<open>\<not> is_blank reason\<close> \<open>\<not> is_ok (verify env l)\<close> assms(1)] by metis
  then have eq: "rcd' = rcd" by (simp split: sum.splits)
  note e = append_at_event [OF app]
  have "disclosed env codec e = Some rcd"
    using e assms(2) eq by (simp add: disclosed_def disclosed_record_def)
  moreover have "List.map_filter (disclosed env codec) (rebuild env (events l))
      = List.map_filter (disclosed env codec) (events l)"
    by (rule map_filter_content) (rule content_rebuild)
  ultimately show ?thesis
    using e(1) by (simp add: reanchored_segments_disclosed map_filter_def)
qed

text \<open>The two fields outside the preimage: any change of them goes unnoticed.\<close>

definition relabel :: "(event \<Rightarrow> uuid \<times> string option) \<Rightarrow> event \<Rightarrow> event" where
  "relabel f e = e\<lparr>ev_id := fst (f e), ev_justification := snd (f e)\<rparr>"

lemma relabel_fields [simp]:
  "ev_seq (relabel f e) = ev_seq e" "ev_actor (relabel f e) = ev_actor e"
  "ev_timestamp (relabel f e) = ev_timestamp e" "ev_scope (relabel f e) = ev_scope e"
  "ev_kind (relabel f e) = ev_kind e" "ev_payload_digest (relabel f e) = ev_payload_digest e"
  "ev_prev_hash (relabel f e) = ev_prev_hash e" "ev_links (relabel f e) = ev_links e"
  "ev_hash (relabel f e) = ev_hash e"
  by (simp_all add: relabel_def)

lemma verify_event_relabel: "verify_event env st (i, relabel f e) = verify_event env st (i, e)"
proof -
  have "verify_link (relabel f e) = verify_link e"
    by (simp add: fun_eq_iff verify_link_def cong: sum.case_cong)
  moreover have "check_spine env p i (relabel f e) = check_spine env p i e" for p
    by (simp add: check_spine_def event_compute_hash_def Let_def)
  ultimately show ?thesis by (simp add: verify_event_def cong: sum.case_cong split: prod.split)
qed

lemma verify_relabel: "verify env (l\<lparr>events := map (relabel f) (events l)\<rparr>) = verify env l"
proof -
  have "(\<lambda>s x. verify_event env s (case x of (i, e) \<Rightarrow> (i, relabel f e))) = verify_event env"
    by (auto simp: fun_eq_iff verify_event_relabel)
  then show ?thesis by (simp add: verify_def enumerate_map try_fold_map split: sum.split)
qed

text \<open>
  The identifier and the justification of an event are outside the hash. Changing them on
  any events of a ledger, to anything, leaves the outcome of \<open>verify\<close> as it was.
\<close>

theorem verify_ignores_id_and_justification:
  "verify env (l\<lparr>events := map (relabel f) (events l)\<rparr>) = verify env l"
  by (rule verify_relabel)

text \<open>
  a disclosure can be removed without breaking the ledger. With the justifications cleared
  the ledger verifies as before, and no re-anchor is disclosed any more.
\<close>

theorem disclosure_can_be_stripped:
  "verify env (l\<lparr>events := map (relabel (\<lambda>e. (ev_id e, None))) (events l)\<rparr>) = verify env l
   \<and> reanchored_segments env codec (l\<lparr>events := map (relabel (\<lambda>e. (ev_id e, None))) (events l)\<rparr>) = []"
proof -
  have "disclosed env codec (relabel (\<lambda>e. (ev_id e, None)) e) = None" for e
    by (simp add: disclosed_def disclosed_record_def relabel_def)
  then show ?thesis
    by (simp add: verify_relabel reanchored_segments_disclosed map_filter_def)
qed

section \<open>Evaluated instances\<close>

text \<open>
  A codec that keeps one record, and a ledger whose event was altered after it was sealed.
\<close>

definition sample_record :: reanchor_record where
  "sample_record = \<lparr>rr_actor = ''ana'', rr_at = sample_time, rr_reason = ''restore'', rr_affected = [],
     rr_original_global_head = None, rr_new_global_head = [], rr_pre_reanchor_digest = []\<rparr>"

definition sample_codec :: "reanchor_record \<Rightarrow> json_codec" where
  "sample_codec r = \<lparr>to_json = (\<lambda>_. ''{}''), from_json = (\<lambda>_. Some r)\<rparr>"

definition broken_ledger :: ledger where
  "broken_ledger = \<lparr>events = map (\<lambda>e. e\<lparr>ev_actor := ''mallory''\<rparr>) (take 1 (events sample_ledger))\<rparr>"

theorem bundle_verification_agrees_witness:
  "verify_bundle_chain sample_env (events_in_chain sample_ledger (Book ''B'')) (Book ''B'') = Ok 1"
proof -
  have "verify_chain sample_env sample_ledger (Book ''B'') = Ok 1" by code_simp
  then show ?thesis
    using bundle_verification_agrees [of "Book ''B''" sample_env sample_ledger]
    by (auto elim: rel_sum.cases)
qed

theorem bundle_global_unchecked_witness:
  "\<not> is_ok (verify sample_env broken_ledger)
   \<and> verify_bundle_chain sample_env (events broken_ledger) Global = Ok 0"
proof -
  have "links_canonical (events broken_ledger)" by code_simp
  then have "verify_bundle_chain sample_env (events broken_ledger) Global = Ok 0"
    by (rule bundle_global_unchecked)
  moreover have "\<not> is_ok (verify sample_env broken_ledger)" by code_simp
  ultimately show ?thesis by blast
qed

theorem integrity_report_healthy_witness:
  "(\<exists>r. integrity_report sample_env (sample_codec sample_record) sample_ledger = Some r \<and> ir_healthy r)
   \<and> (\<exists>r. integrity_report sample_env (sample_codec sample_record) broken_ledger = Some r \<and> \<not> ir_healthy r)"
proof -
  have "links_canonical (events sample_ledger)" "links_canonical (events broken_ledger)"
    "is_ok (verify sample_env sample_ledger)" "\<not> is_ok (verify sample_env broken_ledger)"
    by code_simp+
  then show ?thesis
    using integrity_report_healthy [of sample_ledger sample_env "sample_codec sample_record"]
      integrity_report_healthy [of broken_ledger sample_env "sample_codec sample_record"] by auto
qed

theorem try_append_outcome_witness:
  "\<not> is_ok (fst (try_append sample_env sample_ledger 3 sample_time ''ana'' ''book:C'' ''act.sealed'' None []))
   \<and> is_ok (fst (try_append sample_env sample_ledger 3 sample_time ''ana'' ''book:B'' ''act.sealed'' None []))
   \<and> is_ok (verify sample_env
        (snd (try_append sample_env sample_ledger 3 sample_time ''ana'' ''book:B'' ''act.sealed'' None [])))"
proof -
  have ok: "links_canonical (events sample_ledger)" "is_ok (verify sample_env sample_ledger)"
    by code_simp+
  have "\<not> (\<forall>c \<in> set (memberships (uuid_parses sample_env) ''book:C'' ''act.sealed'').
      chain_heads sample_ledger c = None \<longrightarrow> genesis_fits c ''act.sealed'')" by code_simp
  moreover have "\<forall>c \<in> set (memberships (uuid_parses sample_env) ''book:B'' ''act.sealed'').
      chain_heads sample_ledger c = None \<longrightarrow> genesis_fits c ''act.sealed''" by code_simp
  ultimately show ?thesis
    using try_append_outcome [OF ok, of 3 sample_time "''ana''" "''book:C''" "''act.sealed''" None "[]"]
      try_append_outcome [OF ok, of 3 sample_time "''ana''" "''book:B''" "''act.sealed''" None "[]"]
    by (metis prod.collapse)
qed

theorem reanchor_repairs_witness:
  "is_ok (fst (reanchor sample_env (sample_codec sample_record) broken_ledger 9 ''ana'' ''restore'' sample_time))"
proof -
  let ?call = "reanchor sample_env (sample_codec sample_record) broken_ledger 9 ''ana'' ''restore'' sample_time"
  have "\<not> is_blank ''restore''" "\<not> is_ok (verify sample_env broken_ledger)"
    "\<not> uuid_parses sample_env RECOVERY_SCOPE" by code_simp+
  from reanchor_repairs [OF this, of "sample_codec sample_record" 9 "''ana''" sample_time
      "fst ?call" "snd ?call"]
  have "is_ok (fst ?call) \<longleftrightarrow> is_ok (verify sample_env (snd ?call))" by simp
  moreover have "is_ok (verify sample_env (snd ?call))" by code_simp
  ultimately show ?thesis by blast
qed

theorem reanchor_refusals_witness:
  "reanchor sample_env (sample_codec sample_record) broken_ledger 9 ''ana'' ''  '' sample_time
     = (Err EmptyReason, broken_ledger)
   \<and> reanchor sample_env (sample_codec sample_record) sample_ledger 9 ''ana'' ''restore'' sample_time
     = (Err AlreadyValid, sample_ledger)"
proof -
  have "is_blank ''  ''" "\<not> is_blank ''restore''" "is_ok (verify sample_env sample_ledger)"
    by code_simp+
  then show ?thesis
    using reanchor_refusals [of "''  ''" sample_env "sample_codec sample_record" broken_ledger 9 "''ana''" sample_time]
      reanchor_refusals [of "''restore''" sample_env "sample_codec sample_record" sample_ledger 9 "''ana''" sample_time]
    by blast
qed

text \<open>The record that re-anchoring the altered ledger produces, and a codec that reads it back.\<close>

definition sample_repair :: "reanchor_record \<Rightarrow> (reanchor_error, reanchor_record, ledger) call" where
  "sample_repair r = reanchor sample_env (sample_codec r) broken_ledger 9 ''ana'' ''restore'' sample_time"

definition repair_record :: reanchor_record where
  "repair_record = (case fst (sample_repair sample_record) of Inr r \<Rightarrow> r | Inl _ \<Rightarrow> sample_record)"

theorem reanchor_disclosed_witness:
  "reanchored_segments sample_env (sample_codec repair_record) (snd (sample_repair repair_record))
     = [repair_record]"
proof -
  have same: "sample_repair repair_record = sample_repair sample_record"
    by (simp add: sample_repair_def reanchor_def sample_codec_def Let_def)
  have "is_ok (fst (sample_repair sample_record))" by code_simp
  then have "fst (sample_repair sample_record) = Ok repair_record"
    unfolding repair_record_def by (auto simp: is_ok_iff)
  with same have "fst (sample_repair repair_record) = Ok repair_record" by simp
  then have "reanchor sample_env (sample_codec repair_record) broken_ledger 9 ''ana'' ''restore'' sample_time
      = (Ok repair_record, snd (sample_repair repair_record))"
    by (simp add: sample_repair_def prod_eq_iff)
  from reanchor_disclosed [OF this]
  have "reanchored_segments sample_env (sample_codec repair_record) (snd (sample_repair repair_record))
      = reanchored_segments sample_env (sample_codec repair_record) broken_ledger @ [repair_record]"
    by (simp add: sample_codec_def)
  moreover have "reanchored_segments sample_env (sample_codec repair_record) broken_ledger = []"
    by code_simp
  ultimately show ?thesis by simp
qed

end
