(* ===== verification/Entity.thy ===== *)
theory Entity
  imports Prelude
begin

section \<open>Legal entities\<close>

text \<open>
  \<open>src/crates/chancela-core/src/entity.rs\<close>: the NIPC with its control digit, the entity kinds and
  families, and the entity with its archive flag. The optional document-layout overrides of an
  entity, which no operation here reads, are left out. A UUID is its 128 bits; a fresh one is an
  argument.
\<close>

datatype nipc_error = Format string | CheckDigit string

record nipc =
  nipc_value :: string
  nipc_validated :: bool

definition is_ascii_digit :: "char \<Rightarrow> bool" where
  "is_ascii_digit c \<longleftrightarrow> 48 \<le> (of_char c :: nat) \<and> (of_char c :: nat) \<le> 57"

text \<open>\<open>char::to_digit(10)\<close>, on the characters that passed the digit test.\<close>

definition to_digit :: "char \<Rightarrow> nat" where
  "to_digit c = of_char c - 48"

text \<open>The weighted sum over the first eight digits, and the control digit it requires.\<close>

definition nipc_checksum :: "nat list \<Rightarrow> nat" where
  "nipc_checksum digits = sum_list (map (\<lambda>i. digits ! i * (9 - i)) [0..<8])"

definition nipc_control :: "nat list \<Rightarrow> nat" where
  "nipc_control digits =
     (let remainder = nipc_checksum digits mod 11 in if remainder < 2 then 0 else 11 - remainder)"

definition parse_nipc :: "string \<Rightarrow> nipc_error + nipc" where
  "parse_nipc raw =
     (let normalized = remove_whitespace raw in
      if length normalized \<noteq> 9 \<or> \<not> list_all is_ascii_digit normalized then Err (Format raw)
      else
        (let digits = map to_digit normalized in
         if nipc_control digits \<noteq> digits ! 8 then Err (CheckDigit raw)
         else Ok \<lparr>nipc_value = normalized, nipc_validated = True\<rparr>))"

definition unvalidated_nipc :: "string \<Rightarrow> nipc" where
  "unvalidated_nipc raw = \<lparr>nipc_value = trim raw, nipc_validated = False\<rparr>"

datatype entity_family = CommercialCompany | Condominium | Association | Foundation | Cooperative

datatype entity_kind =
    SociedadeEmNomeColetivo
  | SociedadePorQuotas
  | SociedadeUnipessoalPorQuotas
  | SociedadeAnonima
  | SociedadeEmComanditaSimples
  | SociedadeEmComanditaPorAcoes
  | Condominio
  | Associacao
  | Fundacao
  | Cooperativa

fun kind_family :: "entity_kind \<Rightarrow> entity_family" where
  "kind_family SociedadeEmNomeColetivo = CommercialCompany"
| "kind_family SociedadePorQuotas = CommercialCompany"
| "kind_family SociedadeUnipessoalPorQuotas = CommercialCompany"
| "kind_family SociedadeAnonima = CommercialCompany"
| "kind_family SociedadeEmComanditaSimples = CommercialCompany"
| "kind_family SociedadeEmComanditaPorAcoes = CommercialCompany"
| "kind_family Condominio = Condominium"
| "kind_family Associacao = Association"
| "kind_family Fundacao = Foundation"
| "kind_family Cooperativa = Cooperative"

record quorum =
  min_present :: u32

record majority =
  numerator :: u32
  denominator :: u32

record statute_overrides =
  so_quorum :: "quorum option"
  so_majority :: "majority option"
  so_convocation_notice_days :: "u16 option"

record entity =
  ent_id :: u128
  ent_tenant_id :: u128
  ent_group_id :: "u128 option"
  ent_name :: string
  ent_nipc :: nipc
  ent_seat :: string
  ent_family :: entity_family
  ent_kind :: entity_kind
  ent_fiscal_year_end :: "string option"
  ent_statute :: "statute_overrides option"
  ent_archived_at :: "offset_date_time option"

datatype entity_archive_error = AlreadyArchived offset_date_time | NotArchived

definition DEFAULT_TENANT_ID :: u128 where
  "DEFAULT_TENANT_ID = 0x74656e616e7400000000000000000001"

definition new_entity :: "u128 \<Rightarrow> string \<Rightarrow> nipc \<Rightarrow> string \<Rightarrow> entity_kind \<Rightarrow> entity" where
  "new_entity new_id name nipc seat kind =
     \<lparr>ent_id = new_id, ent_tenant_id = DEFAULT_TENANT_ID, ent_group_id = None, ent_name = name,
      ent_nipc = nipc, ent_seat = seat, ent_family = kind_family kind, ent_kind = kind,
      ent_fiscal_year_end = None, ent_statute = None, ent_archived_at = None\<rparr>"

definition in_tenant :: "entity \<Rightarrow> u128 \<Rightarrow> entity" where
  "in_tenant e tenant = e\<lparr>ent_tenant_id := tenant\<rparr>"

definition in_group :: "entity \<Rightarrow> u128 option \<Rightarrow> entity" where
  "in_group e grp = e\<lparr>ent_group_id := grp\<rparr>"

definition entity_is_consistent :: "entity \<Rightarrow> bool" where
  "entity_is_consistent e \<longleftrightarrow> kind_family (ent_kind e) = ent_family e"

definition entity_is_archived :: "entity \<Rightarrow> bool" where
  "entity_is_archived e \<longleftrightarrow> ent_archived_at e \<noteq> None"

definition archive_entity :: "entity \<Rightarrow> offset_date_time \<Rightarrow> (entity_archive_error, unit, entity) call" where
  "archive_entity e now =
     (case ent_archived_at e of
        Some since \<Rightarrow> (Err (AlreadyArchived since), e)
      | None \<Rightarrow> (Ok (), e\<lparr>ent_archived_at := Some now\<rparr>))"

definition unarchive_entity :: "entity \<Rightarrow> (entity_archive_error, unit, entity) call" where
  "unarchive_entity e =
     (if ent_archived_at e = None then (Err NotArchived, e)
      else (Ok (), e\<lparr>ent_archived_at := None\<rparr>))"

subsection \<open>The NIPC\<close>

lemma digit_not_ws: "is_ascii_digit c \<Longrightarrow> ws_len (c # cs) = 0"
  by (auto simp: is_ascii_digit_def ws_len_def split: list.split)

lemma remove_whitespace_digits: "list_all is_ascii_digit s \<Longrightarrow> remove_whitespace s = s"
proof (induction s)
  case (Cons c s)
  then show ?case by (subst remove_whitespace.simps) (simp add: digit_not_ws)
qed (simp add: remove_whitespace.simps)

lemma to_digit_less: "is_ascii_digit c \<Longrightarrow> to_digit c < 10"
  by (auto simp: is_ascii_digit_def to_digit_def)

lemma parse_nipc_Ok:
  "parse_nipc raw = Ok n \<longleftrightarrow>
     n = \<lparr>nipc_value = remove_whitespace raw, nipc_validated = True\<rparr>
     \<and> length (remove_whitespace raw) = 9 \<and> list_all is_ascii_digit (remove_whitespace raw)
     \<and> nipc_control (map to_digit (remove_whitespace raw)) = map to_digit (remove_whitespace raw) ! 8"
  by (auto simp: parse_nipc_def Let_def)

lemma nipc_control_cong: "take 8 ds = take 8 ds' \<Longrightarrow> nipc_control ds = nipc_control ds'"
proof -
  assume eq: "take 8 ds = take 8 ds'"
  have "ds ! i = ds' ! i" if "i < 8" for i
    using nth_take [OF that, of ds] nth_take [OF that, of ds'] eq by simp
  then have "nipc_checksum ds = nipc_checksum ds'"
    unfolding nipc_checksum_def by (intro arg_cong [of _ _ sum_list] map_cong) auto
  then show ?thesis by (simp add: nipc_control_def)
qed

text \<open>
  NIPC validation. Parsing accepts exactly nine ASCII digits, white space apart, whose last
  one is the control digit of the first eight; the accepted value parses back to itself, and two
  accepted values that agree on the first eight digits are the same.
\<close>

theorem nipc_control_digit_determined:
  assumes "parse_nipc raw = Ok n"
  shows "parse_nipc (nipc_value n) = Ok n \<and> nipc_validated n
    \<and> length (nipc_value n) = 9 \<and> list_all is_ascii_digit (nipc_value n)
    \<and> (\<forall>raw' n'. parse_nipc raw' = Ok n' \<and> take 8 (nipc_value n') = take 8 (nipc_value n) \<longrightarrow> n' = n)"
proof -
  have n: "n = \<lparr>nipc_value = remove_whitespace raw, nipc_validated = True\<rparr>"
    "length (remove_whitespace raw) = 9" "list_all is_ascii_digit (remove_whitespace raw)"
    "nipc_control (map to_digit (remove_whitespace raw)) = map to_digit (remove_whitespace raw) ! 8"
    using assms by (simp_all add: parse_nipc_Ok)
  have "n' = n" if n': "parse_nipc raw' = Ok n'" and eq: "take 8 (nipc_value n') = take 8 (nipc_value n)"
    for raw' n'
  proof -
    have v: "length (nipc_value n') = 9" "list_all is_ascii_digit (nipc_value n')"
      "nipc_control (map to_digit (nipc_value n')) = map to_digit (nipc_value n') ! 8"
      "n' = \<lparr>nipc_value = nipc_value n', nipc_validated = True\<rparr>"
      using n' by (simp_all add: parse_nipc_Ok)
    have w: "length (nipc_value n) = 9" "list_all is_ascii_digit (nipc_value n)"
      "nipc_control (map to_digit (nipc_value n)) = map to_digit (nipc_value n) ! 8"
      using n by simp_all
    have "to_digit (nipc_value n' ! 8) = to_digit (nipc_value n ! 8)"
      using v(1, 3) w(1, 3) nipc_control_cong [of "map to_digit (nipc_value n')" "map to_digit (nipc_value n)"]
        eq by (simp add: take_map)
    moreover have "is_ascii_digit (nipc_value n' ! 8)" "is_ascii_digit (nipc_value n ! 8)"
      using v(1, 2) w(1, 2) by (simp_all add: list_all_length)
    ultimately have "(of_char (nipc_value n' ! 8) :: nat) = of_char (nipc_value n ! 8)"
      unfolding to_digit_def is_ascii_digit_def by linarith
    then have last: "nipc_value n' ! 8 = nipc_value n ! 8" by simp
    have "xs = take 8 xs @ [xs ! 8]" if "length xs = 9" for xs :: string
      using take_Suc_conv_app_nth [of 8 xs] that by simp
    with v(1) w(1) eq last have "nipc_value n' = nipc_value n" by metis
    with v(4) n(1) show ?thesis by simp
  qed
  then show ?thesis using n assms by (auto simp: parse_nipc_Ok remove_whitespace_digits)
qed

subsection \<open>Kinds and archiving\<close>

text \<open>
  Archiving is a guarded, lossless flag. Archiving an active entity and restoring it gives
  the entity back unchanged; a redundant archive or restore is refused and changes nothing, so
  the recorded moment of retirement is never overwritten; the legal classification never moves.
\<close>

theorem archive_round_trip:
  "(ent_archived_at e = None \<longrightarrow>
      unarchive_entity (snd (archive_entity e now)) = (Ok (), e)
      \<and> archive_entity (snd (archive_entity e now)) later
          = (Err (AlreadyArchived now), snd (archive_entity e now))
      \<and> unarchive_entity e = (Err NotArchived, e))
   \<and> entity_is_consistent (snd (archive_entity e now)) = entity_is_consistent e
   \<and> entity_is_consistent (new_entity i name n seat k)"
proof -
  have "e\<lparr>ent_archived_at := None\<rparr> = e" if "ent_archived_at e = None"
    using that by (simp add: entity.equality)
  then show ?thesis
    by (auto simp: archive_entity_def unarchive_entity_def entity_is_consistent_def new_entity_def
        split: option.split)
qed

theorem archive_round_trip_witness:
  "unarchive_entity (snd (archive_entity (new_entity 7 ''Lda'' (unvalidated_nipc ''x'') ''Porto'' SociedadePorQuotas)
       \<lparr>unix_nanos = 5, utc_offset = 0\<rparr>))
     = (Ok (), new_entity 7 ''Lda'' (unvalidated_nipc ''x'') ''Porto'' SociedadePorQuotas)"
  using archive_round_trip [of "new_entity 7 ''Lda'' (unvalidated_nipc ''x'') ''Porto'' SociedadePorQuotas"]
  by (simp add: new_entity_def)

theorem nipc_control_digit_determined_witness:
  "parse_nipc ''503004642'' = Ok \<lparr>nipc_value = ''503004642'', nipc_validated = True\<rparr>"
proof -
  have "parse_nipc '' 503 004 642'' = Ok \<lparr>nipc_value = ''503004642'', nipc_validated = True\<rparr>"
    by code_simp
  from nipc_control_digit_determined [OF this] show ?thesis by simp
qed

end
