(* ===== verification/Act.thy ===== *)
theory Act
  imports Entity
begin

section \<open>Acts (atas)\<close>

text \<open>
  \<open>src/crates/chancela-core/src/act.rs\<close>: the data of an act, the life cycle
  \<open>Draft, Review, Convened, Deliberated, TextApproved, Signing, Sealed, Archived\<close>, and every
  method that changes an act. A method on \<open>&mut self\<close> returns its result and the act afterwards.
  Dates and times of day are opaque values of the \<open>time\<close> crate, numbered here.
\<close>

type_synonym date = int
type_synonym time_of_day = int

subsection \<open>Data\<close>

datatype meeting_channel = Physical | Hybrid | Telematic | WrittenResolution

datatype act_state =
  Draft | Review | Convened | Deliberated | TextApproved | Signing | Sealed | Archived

datatype ai_human_verification_status = AiPending | AiAccepted | AiRejected

record ai_human_verification =
  av_status :: ai_human_verification_status
  av_actor :: "string option"
  av_reviewed_at :: "offset_date_time option"
  av_note :: "string option"

record ai_statement_source =
  as_path :: string
  as_source_type :: string
  as_source_label :: string
  as_human_verified :: bool
  as_human_verification_status :: ai_human_verification_status
  as_authoritative_source_claimed :: bool
  as_legal_validity_claimed :: bool

record ai_provenance =
  ap_source :: string
  ap_tool :: "string option"
  ap_statement_source :: "string option"
  ap_statement_sources :: "ai_statement_source list"
  ap_human_verification :: ai_human_verification

datatype attachment_kind =
  Convocatoria | Agenda | Proxy | AttendanceList | Report | Exhibit | OtherAttachment

record attachment =
  at_label :: string
  at_kind :: attachment_kind
  at_digest :: "digest option"
  at_beginning_of_proof :: bool

datatype signatory_capacity =
    Chair | Secretary | Member | Shareholder | Associate | Cooperator | Manager | Administrator
  | Attorney | CondoOwner | StatutoryAuditor | Guest | OtherCapacity

record signatory_slot =
  ss_name :: string
  ss_email :: "string option"
  ss_capacity :: signatory_capacity
  ss_signed :: bool
  ss_permilage :: "u16 option"

record mesa =
  presidente :: "string option"
  secretarios :: "string list"

record agenda_item =
  ag_number :: u32
  ag_text :: string

record document_reference =
  dr_label :: string
  dr_reference :: "string option"

record written_resolution_evidence_item =
  wi_label :: string
  wi_reference :: "string option"
  wi_digest :: "digest option"
  wi_note :: "string option"

datatype written_resolution_review_status = Reviewed | NeedsFollowUp

record written_resolution_review_evidence_locator =
  wl_label :: string
  wl_locator :: "string option"
  wl_digest :: "digest option"

record written_resolution_review_receipt =
  wr_reviewer :: string
  wr_reviewed_at :: offset_date_time
  wr_status :: written_resolution_review_status
  wr_guardrail_acknowledgements :: "string list"
  wr_evidence :: "written_resolution_review_evidence_locator list"
  wr_note :: "string option"
  wr_consent_proof_claimed :: bool
  wr_quorum_proof_claimed :: bool
  wr_identity_proof_claimed :: bool
  wr_legal_acceptance_claimed :: bool
  wr_legal_sufficiency_claimed :: bool
  wr_external_validation_claimed :: bool
  wr_automatic_approval_claimed :: bool
  wr_authority_certified_claimed :: bool

record written_resolution_evidence =
  we_checklist :: "written_resolution_evidence_item list"
  we_review_receipts :: "written_resolution_review_receipt list"
  we_note :: "string option"

datatype vote_result = Unanimous | Recorded (em_favor: u32) (contra: u32) (abstencoes: u32)

record member_statement =
  ms_member :: string
  ms_text :: string

record deliberation_item =
  di_agenda_number :: "u32 option"
  di_text :: string
  di_vote :: "vote_result option"
  di_statements :: "member_statement list"

datatype dispatch_channel =
  RegisteredLetter | RegisteredLetterAR | Email | HandDelivery | Publication | Portal

record convening_recipient =
  cr_name :: string
  cr_contact :: "string option"
  cr_channel :: "dispatch_channel option"
  cr_reference :: "string option"
  cr_dispatched_at :: "date option"

record second_call =
  sc_date :: "date option"
  sc_time :: "time_of_day option"
  sc_reduced_quorum :: bool

record convening =
  cv_convener :: "string option"
  cv_convener_capacity :: "signatory_capacity option"
  cv_dispatch_date :: "date option"
  cv_antecedence_days :: "u16 option"
  cv_channel :: "dispatch_channel option"
  cv_evidence_reference :: "string option"
  cv_recipients :: "convening_recipient list"
  cv_second_call :: "second_call option"

datatype no_convening_basis = AssembleiaUniversal | OtherBasis

record convening_waiver =
  cw_basis :: no_convening_basis
  cw_grounds :: "string option"
  cw_all_agreed_to_meet :: bool
  cw_all_agreed_to_agenda :: bool
  cw_evidence_reference :: "string option"

datatype presence_mode = InPerson | Represented | Absent

datatype attendance_weight = Capital u64 | Permilage u32

record attendee =
  ate_name :: string
  ate_quality :: signatory_capacity
  ate_quality_note :: "string option"
  ate_presence :: presence_mode
  ate_represented_by :: "string option"
  ate_weight :: "attendance_weight option"

record manual_signature_original_reference =
  mo_storage_reference :: string
  mo_custodian :: "string option"
  mo_note :: "string option"

record seal_metadata =
  sm_rule_pack_id :: string
  sm_version :: string
  sm_family :: entity_family
  sm_profile :: entity_kind
  sm_manual_signature_original_reference :: "manual_signature_original_reference option"
  sm_signing_snapshot_digest :: "string option"
  sm_signed_pdf_digest :: "string option"
  sm_signature_validation_report_digest :: "string option"
  sm_ata_number :: "u64 option"

record superseded_signing_snapshot =
  sp_document_id :: string
  sp_pdf_digest :: string
  sp_actor :: string
  sp_superseded_at :: offset_date_time
  sp_reason :: string

datatype body_format = Markdown

record act_body =
  ab_format :: body_format
  ab_source :: string
  ab_compiler_id :: string
  ab_compiled_digest :: string

record act =
  act_id :: u128
  act_book_id :: u128
  act_title :: string
  act_channel :: meeting_channel
  act_meeting_date :: "date option"
  act_meeting_time :: "time_of_day option"
  act_place :: "string option"
  act_mesa :: mesa
  act_agenda :: "agenda_item list"
  act_attendance_reference :: "string option"
  act_members_present :: "u32 option"
  act_members_represented :: "u32 option"
  act_referenced_documents :: "document_reference list"
  act_written_resolution_evidence :: "written_resolution_evidence option"
  act_deliberations :: string
  act_deliberation_items :: "deliberation_item list"
  act_telematic_evidence :: "string option"
  act_attachments :: "attachment list"
  act_signatories :: "signatory_slot list"
  act_state :: act_state
  act_ata_number :: "u64 option"
  act_payload_digest :: "digest option"
  act_seal_event_seq :: "u64 option"
  act_seal_metadata :: "seal_metadata option"
  act_retifies :: "u128 option"
  act_convening :: "convening option"
  act_convening_waiver :: "convening_waiver option"
  act_attendees :: "attendee list"
  act_ai_provenance :: "ai_provenance option"
  act_page_count :: "u32 option"
  act_superseded_signing_snapshots :: "superseded_signing_snapshot list"
  act_body_of :: "act_body option"

subsection \<open>Helpers on the data\<close>

definition human_review_accepted :: "ai_provenance \<Rightarrow> bool" where
  "human_review_accepted p \<longleftrightarrow> av_status (ap_human_verification p) = AiAccepted"

definition set_human_verification ::
  "ai_provenance \<Rightarrow> ai_human_verification_status \<Rightarrow> string \<Rightarrow> offset_date_time \<Rightarrow> string option
     \<Rightarrow> ai_provenance" where
  "set_human_verification p status actor reviewed_at note =
     p\<lparr>ap_human_verification :=
        \<lparr>av_status = status, av_actor = Some actor, av_reviewed_at = Some reviewed_at, av_note = note\<rparr>\<rparr>"

definition rule_pack_version :: "string \<Rightarrow> string" where
  "rule_pack_version rule_pack_id =
     (case rsplit_once (CHR ''/'') rule_pack_id of
        Some (_, version) \<Rightarrow> if version \<noteq> [] then version else ''unversioned''
      | None \<Rightarrow> ''unversioned'')"

definition new_seal_metadata :: "string \<Rightarrow> entity_family \<Rightarrow> entity_kind \<Rightarrow> seal_metadata" where
  "new_seal_metadata rule_pack_id family profile =
     \<lparr>sm_rule_pack_id = rule_pack_id, sm_version = rule_pack_version rule_pack_id,
      sm_family = family, sm_profile = profile, sm_manual_signature_original_reference = None,
      sm_signing_snapshot_digest = None, sm_signed_pdf_digest = None,
      sm_signature_validation_report_digest = None, sm_ata_number = None\<rparr>"

definition with_ata_number :: "seal_metadata \<Rightarrow> u64 \<Rightarrow> seal_metadata" where
  "with_ata_number m n = m\<lparr>sm_ata_number := Some n\<rparr>"

definition with_manual_signature_original_reference ::
  "seal_metadata \<Rightarrow> manual_signature_original_reference option \<Rightarrow> seal_metadata" where
  "with_manual_signature_original_reference m r = m\<lparr>sm_manual_signature_original_reference := r\<rparr>"

definition with_digital_signature_evidence ::
  "seal_metadata \<Rightarrow> string \<Rightarrow> string \<Rightarrow> string \<Rightarrow> seal_metadata" where
  "with_digital_signature_evidence m snapshot signed_pdf report =
     m\<lparr>sm_signing_snapshot_digest := Some snapshot, sm_signed_pdf_digest := Some signed_pdf,
       sm_signature_validation_report_digest := Some report\<rparr>"

definition has_complete_digital_signature_evidence :: "seal_metadata \<Rightarrow> bool" where
  "has_complete_digital_signature_evidence m \<longleftrightarrow>
     sm_signing_snapshot_digest m \<noteq> None \<and> sm_signed_pdf_digest m \<noteq> None
     \<and> sm_signature_validation_report_digest m \<noteq> None"

definition has_complete_signature_evidence :: "seal_metadata \<Rightarrow> bool" where
  "has_complete_signature_evidence m \<longleftrightarrow>
     sm_manual_signature_original_reference m \<noteq> None \<or> has_complete_digital_signature_evidence m"

subsection \<open>Written-resolution evidence\<close>

datatype written_resolution_evidence_status = NotApplicable | Missing | ReferencedOnly | BoundPresent

record written_resolution_evidence_summary =
  ws_status :: written_resolution_evidence_status
  ws_signed_signatory_slots :: nat
  ws_digested_attachments :: nat
  ws_checklist_items :: nat
  ws_digested_checklist_items :: nat
  ws_referenced_checklist_items :: nat
  ws_review_receipts :: nat
  ws_latest_review_status :: "written_resolution_review_status option"
  ws_reviewed_evidence_locators :: nat
  ws_reviewed_evidence_digests :: nat

definition bound_count :: "written_resolution_evidence_summary \<Rightarrow> nat" where
  "bound_count s = ws_signed_signatory_slots s + ws_digested_attachments s + ws_digested_checklist_items s"

definition referenced_only_count :: "written_resolution_evidence_summary \<Rightarrow> nat" where
  "referenced_only_count s = ws_referenced_checklist_items s"

definition count_if :: "('a \<Rightarrow> bool) \<Rightarrow> 'a list \<Rightarrow> nat" where
  "count_if P xs = length (filter P xs)"

definition referenced_item :: "written_resolution_evidence_item \<Rightarrow> bool" where
  "referenced_item i \<longleftrightarrow> wi_digest i = None
     \<and> (case wi_reference i of None \<Rightarrow> False | Some r \<Rightarrow> \<not> is_blank r)"

definition empty_summary :: written_resolution_evidence_summary where
  "empty_summary =
     \<lparr>ws_status = NotApplicable, ws_signed_signatory_slots = 0, ws_digested_attachments = 0,
      ws_checklist_items = 0, ws_digested_checklist_items = 0, ws_referenced_checklist_items = 0,
      ws_review_receipts = 0, ws_latest_review_status = None, ws_reviewed_evidence_locators = 0,
      ws_reviewed_evidence_digests = 0\<rparr>"

definition summarise_evidence ::
  "written_resolution_evidence \<Rightarrow> written_resolution_evidence_summary \<Rightarrow> written_resolution_evidence_summary" where
  "summarise_evidence ev s =
     s\<lparr>ws_checklist_items := length (we_checklist ev),
       ws_digested_checklist_items := count_if (\<lambda>i. wi_digest i \<noteq> None) (we_checklist ev),
       ws_referenced_checklist_items := count_if referenced_item (we_checklist ev),
       ws_review_receipts := length (we_review_receipts ev),
       ws_latest_review_status :=
         (if we_review_receipts ev = [] then None else Some (wr_status (last (we_review_receipts ev)))),
       ws_reviewed_evidence_locators := sum_list (map (\<lambda>r. length (wr_evidence r)) (we_review_receipts ev)),
       ws_reviewed_evidence_digests :=
         count_if (\<lambda>e. wl_digest e \<noteq> None) (concat (map wr_evidence (we_review_receipts ev)))\<rparr>"

definition written_resolution_evidence_summary_of :: "act \<Rightarrow> written_resolution_evidence_summary" where
  "written_resolution_evidence_summary_of a =
     (if act_channel a \<noteq> WrittenResolution then empty_summary
      else
        (let s1 = empty_summary\<lparr>
               ws_signed_signatory_slots := count_if ss_signed (act_signatories a),
               ws_digested_attachments := count_if (\<lambda>x. at_digest x \<noteq> None) (act_attachments a)\<rparr>;
             s2 = (case act_written_resolution_evidence a of
               None \<Rightarrow> s1 | Some ev \<Rightarrow> summarise_evidence ev s1)
         in s2\<lparr>ws_status :=
              (if bound_count s2 > 0 then BoundPresent
               else if referenced_only_count s2 > 0 then ReferencedOnly
               else Missing)\<rparr>))"

subsection \<open>The life cycle\<close>

datatype act_error =
    InvalidTransition act_state act_state
  | ActSealed
  | PageCountAlreadyFrozen u32
  | SignaturesCollected
  | RevertFromSigning

definition REVERSIBLE_STATES :: "act_state list" where
  "REVERSIBLE_STATES = [Draft, Review, Convened, Deliberated, TextApproved]"

text \<open>\<open>REVERSIBLE_STATES.iter().position(|&s| s == state)\<close>.\<close>

fun position :: "('a \<Rightarrow> bool) \<Rightarrow> 'a list \<Rightarrow> nat option" where
  "position P [] = None"
| "position P (x # xs) = (if P x then Some 0 else map_option Suc (position P xs))"

definition reversible_index :: "act_state \<Rightarrow> nat option" where
  "reversible_index s = position (\<lambda>t. t = s) REVERSIBLE_STATES"

definition empty_mesa :: mesa where
  "empty_mesa = \<lparr>presidente = None, secretarios = []\<rparr>"

definition draft :: "u128 \<Rightarrow> u128 \<Rightarrow> string \<Rightarrow> meeting_channel \<Rightarrow> act" where
  "draft new_id book_id title channel =
     \<lparr>act_id = new_id, act_book_id = book_id, act_title = title, act_channel = channel,
      act_meeting_date = None, act_meeting_time = None, act_place = None, act_mesa = empty_mesa,
      act_agenda = [], act_attendance_reference = None, act_members_present = None,
      act_members_represented = None, act_referenced_documents = [],
      act_written_resolution_evidence = None, act_deliberations = [], act_deliberation_items = [],
      act_telematic_evidence = None, act_attachments = [], act_signatories = [],
      act_state = Draft, act_ata_number = None, act_payload_digest = None,
      act_seal_event_seq = None, act_seal_metadata = None, act_retifies = None,
      act_convening = None, act_convening_waiver = None, act_attendees = [],
      act_ai_provenance = None, act_page_count = None, act_superseded_signing_snapshots = [],
      act_body_of = None\<rparr>"

definition freeze_page_count :: "u32 \<Rightarrow> act \<Rightarrow> (act_error, unit, act) call" where
  "freeze_page_count pages a =
     (case act_page_count a of
        Some frozen \<Rightarrow> if frozen = pages then (Ok (), a) else (Err (PageCountAlreadyFrozen frozen), a)
      | None \<Rightarrow>
          if act_state a \<in> {Sealed, Archived} then (Err ActSealed, a)
          else (Ok (), a\<lparr>act_page_count := Some pages\<rparr>))"

definition is_mutable :: "act \<Rightarrow> bool" where
  "is_mutable a \<longleftrightarrow> act_state a \<notin> {Signing, Sealed, Archived}"

definition ensure_mutable :: "act \<Rightarrow> act_error + unit" where
  "ensure_mutable a = (if is_mutable a then Ok () else Err ActSealed)"

text \<open>\<open>self.ensure_mutable()?\<close> followed by an update of \<open>self\<close>.\<close>

definition edit :: "(act \<Rightarrow> act) \<Rightarrow> act \<Rightarrow> (act_error, unit, act) call" where
  "edit f a = (case ensure_mutable a of Inl e \<Rightarrow> (Err e, a) | Inr _ \<Rightarrow> (Ok (), f a))"

definition set_deliberations :: "string \<Rightarrow> act \<Rightarrow> (act_error, unit, act) call" where
  "set_deliberations text = edit (\<lambda>a. a\<lparr>act_deliberations := text\<rparr>)"

definition set_body :: "act_body \<Rightarrow> act \<Rightarrow> (act_error, unit, act) call" where
  "set_body body = edit (\<lambda>a. a\<lparr>act_body_of := Some body\<rparr>)"

definition clear_body :: "act \<Rightarrow> (act_error, unit, act) call" where
  "clear_body = edit (\<lambda>a. a\<lparr>act_body_of := None\<rparr>)"

definition add_attachment :: "attachment \<Rightarrow> act \<Rightarrow> (act_error, unit, act) call" where
  "add_attachment x = edit (\<lambda>a. a\<lparr>act_attachments := act_attachments a @ [x]\<rparr>)"

definition add_signatory :: "signatory_slot \<Rightarrow> act \<Rightarrow> (act_error, unit, act) call" where
  "add_signatory slot = edit (\<lambda>a. a\<lparr>act_signatories := act_signatories a @ [slot]\<rparr>)"

definition requires_ai_human_verification :: "act \<Rightarrow> bool" where
  "requires_ai_human_verification a \<longleftrightarrow>
     (case act_ai_provenance a of None \<Rightarrow> False | Some p \<Rightarrow> \<not> human_review_accepted p)"

definition advance_to :: "act_state \<Rightarrow> act \<Rightarrow> (act_error, unit, act) call" where
  "advance_to to a =
     (if act_state a = TextApproved \<and> to = Signing \<and> requires_ai_human_verification a
      then (Err (InvalidTransition (act_state a) to), a)
      else if (act_state a, to) \<in> {(Draft, Review), (Review, Convened), (Convened, Deliberated),
                 (Deliberated, TextApproved), (TextApproved, Signing)}
      then (Ok (), a\<lparr>act_state := to\<rparr>)
      else (Err (InvalidTransition (act_state a) to), a))"

definition revert_to :: "act_state \<Rightarrow> act \<Rightarrow> (act_error, unit, act) call" where
  "revert_to to a =
     (if act_state a = Signing then (Err RevertFromSigning, a)
      else case (reversible_index (act_state a), reversible_index to) of
        (Some frm, Some target) \<Rightarrow>
          if target < frm then (Ok (), a\<lparr>act_state := to\<rparr>)
          else (Err (InvalidTransition (act_state a) to), a)
      | _ \<Rightarrow> (Err (InvalidTransition (act_state a) to), a))"

definition reopen_for_correction :: "act \<Rightarrow> (act_error, u32 option, act) call" where
  "reopen_for_correction a =
     (if act_state a \<noteq> Signing then (Err (InvalidTransition (act_state a) TextApproved), a)
      else if list_ex ss_signed (act_signatories a) then (Err SignaturesCollected, a)
      else (Ok (act_page_count a), a\<lparr>act_state := TextApproved, act_page_count := None\<rparr>))"

definition record_superseded_signing_snapshot :: "superseded_signing_snapshot \<Rightarrow> act \<Rightarrow> act" where
  "record_superseded_signing_snapshot snapshot a =
     a\<lparr>act_superseded_signing_snapshots := act_superseded_signing_snapshots a @ [snapshot]\<rparr>"

definition is_signing_snapshot_superseded :: "act \<Rightarrow> string \<Rightarrow> bool" where
  "is_signing_snapshot_superseded a document_id \<longleftrightarrow>
     list_ex (\<lambda>s. sp_document_id s = document_id) (act_superseded_signing_snapshots a)"

definition set_ai_human_verification ::
  "ai_human_verification_status \<Rightarrow> string \<Rightarrow> offset_date_time \<Rightarrow> string option
     \<Rightarrow> act \<Rightarrow> (act_error, unit, act) call" where
  "set_ai_human_verification status actor reviewed_at note =
     edit (\<lambda>a. a\<lparr>act_ai_provenance := map_option
       (\<lambda>p. set_human_verification p status actor reviewed_at note) (act_ai_provenance a)\<rparr>)"

definition archive_act :: "act \<Rightarrow> (act_error, unit, act) call" where
  "archive_act a =
     (if act_state a = Sealed then (Ok (), a\<lparr>act_state := Archived\<rparr>)
      else (Err (InvalidTransition (act_state a) Archived), a))"

definition mark_sealed ::
  "u64 \<Rightarrow> digest \<Rightarrow> u64 \<Rightarrow> seal_metadata \<Rightarrow> act \<Rightarrow> (act_error, unit, act) call" where
  "mark_sealed ata_number payload_digest seal_event_seq metadata a =
     (if act_state a \<noteq> Signing then (Err (InvalidTransition (act_state a) Sealed), a)
      else (Ok (), a\<lparr>act_ata_number := Some ata_number, act_payload_digest := Some payload_digest,
              act_seal_event_seq := Some seal_event_seq, act_seal_metadata := Some metadata,
              act_state := Sealed\<rparr>))"

section \<open>The act as a state machine\<close>

datatype act_op =
    FreezePageCount u32
  | SetDeliberations string
  | SetBody act_body
  | ClearBody
  | AddAttachment attachment
  | AddSignatory signatory_slot
  | AdvanceTo act_state
  | RevertTo act_state
  | ReopenForCorrection
  | RecordSupersededSnapshot superseded_signing_snapshot
  | SetAiVerification ai_human_verification_status string offset_date_time "string option"
  | ArchiveAct
  | MarkSealed u64 digest u64 seal_metadata

definition no_count :: "(act_error, unit, act) call \<Rightarrow> (act_error, u32 option, act) call" where
  "no_count c = (map_sum id (\<lambda>_. None) (fst c), snd c)"

fun act_exec :: "act_op \<Rightarrow> act \<Rightarrow> (act_error, u32 option, act) call" where
  "act_exec (FreezePageCount n) a = no_count (freeze_page_count n a)"
| "act_exec (SetDeliberations t) a = no_count (set_deliberations t a)"
| "act_exec (SetBody b) a = no_count (set_body b a)"
| "act_exec ClearBody a = no_count (clear_body a)"
| "act_exec (AddAttachment x) a = no_count (add_attachment x a)"
| "act_exec (AddSignatory s) a = no_count (add_signatory s a)"
| "act_exec (AdvanceTo s) a = no_count (advance_to s a)"
| "act_exec (RevertTo s) a = no_count (revert_to s a)"
| "act_exec ReopenForCorrection a = reopen_for_correction a"
| "act_exec (RecordSupersededSnapshot s) a = (Ok None, record_superseded_signing_snapshot s a)"
| "act_exec (SetAiVerification st actor t n) a = no_count (set_ai_human_verification st actor t n a)"
| "act_exec ArchiveAct a = no_count (archive_act a)"
| "act_exec (MarkSealed n d q m) a = no_count (mark_sealed n d q m a)"

lemmas act_op_defs =
  no_count_def freeze_page_count_def set_deliberations_def set_body_def clear_body_def
  add_attachment_def add_signatory_def advance_to_def revert_to_def reopen_for_correction_def
  record_superseded_signing_snapshot_def set_ai_human_verification_def archive_act_def
  mark_sealed_def edit_def ensure_mutable_def is_mutable_def

lemma reversible_index_simps [simp]:
  "reversible_index Draft = Some 0" "reversible_index Review = Some 1"
  "reversible_index Convened = Some 2" "reversible_index Deliberated = Some 3"
  "reversible_index TextApproved = Some 4" "reversible_index Signing = None"
  "reversible_index Sealed = None" "reversible_index Archived = None"
  by (simp_all add: reversible_index_def REVERSIBLE_STATES_def)

lemma reversible_index_Some: "reversible_index s = Some i \<Longrightarrow> s \<notin> {Signing, Sealed, Archived}"
  by (cases s) simp_all

subsection \<open>The transitions\<close>

text \<open>
  The documented life cycle, on its own order of the phases: five steps forward, free moves back among
  the phases before signing, the guarded reopening, the seal and the archive.
\<close>

primrec phase :: "act_state \<Rightarrow> nat" where
  "phase Draft = 0"
| "phase Review = 1"
| "phase Convened = 2"
| "phase Deliberated = 3"
| "phase TextApproved = 4"
| "phase Signing = 5"
| "phase Sealed = 6"
| "phase Archived = 7"

inductive act_step :: "act_state \<Rightarrow> act_state \<Rightarrow> bool" where
  forward: "phase t = Suc (phase s) \<Longrightarrow> phase s < phase Signing \<Longrightarrow> act_step s t"
| revert: "phase t < phase s \<Longrightarrow> phase s < phase Signing \<Longrightarrow> act_step s t"
| reopen: "act_step Signing TextApproved"
| seal: "act_step Signing Sealed"
| archive: "act_step Sealed Archived"

inductive_cases act_step_from_SealedE: "act_step Sealed s"
inductive_cases act_step_from_ArchivedE: "act_step Archived s"
inductive_cases act_step_to_SealedE: "act_step s Sealed"
inductive_cases act_step_to_SigningE: "act_step s Signing"

lemma reversible_index_phase: "reversible_index s = Some i \<longleftrightarrow> i = phase s \<and> phase s < phase Signing"
  by (cases s) auto

lemma act_exec_step:
  "act_state (snd (act_exec op a)) = act_state a
   \<or> act_step (act_state a) (act_state (snd (act_exec op a)))"
  by (cases op)
    (auto simp: act_op_defs reversible_index_phase intro: act_step.intros
      split: option.splits if_splits sum.splits)

lemma advance_to_state:
  "fst (act_exec (AdvanceTo s) a) = Ok r \<Longrightarrow> act_state (snd (act_exec (AdvanceTo s) a)) = s
     \<and> phase s = Suc (phase (act_state a)) \<and> phase s \<le> phase Signing"
  by (auto simp: act_op_defs split: if_splits)

lemma act_exec_enters:
  assumes "act_state (snd (act_exec op a)) \<noteq> act_state a"
  shows "(act_state (snd (act_exec op a)) = Sealed \<longrightarrow> act_state a = Signing \<and> (\<exists>n d q m. op = MarkSealed n d q m))
    \<and> (act_state (snd (act_exec op a)) = Signing \<longrightarrow> act_state a = TextApproved \<and> op = AdvanceTo Signing)
    \<and> (act_state (snd (act_exec op a)) = Archived \<longrightarrow> act_state a = Sealed \<and> op = ArchiveAct)"
  using assms
  by (cases op)
    (auto simp: act_op_defs reversible_index_phase split: option.splits if_splits sum.splits)

lemma failure_keeps_no_count: "failure_keeps c a \<Longrightarrow> failure_keeps (no_count c) a"
  by (cases "fst c") (simp_all add: failure_keeps_def no_count_def)

lemma failure_keeps_edit: "failure_keeps (edit f a) a"
  by (simp add: edit_def failure_keeps_intros split: sum.split)

lemma act_exec_failure_keeps: "failure_keeps (act_exec op a) a"
proof (cases op)
  case (FreezePageCount n)
  then show ?thesis
    by (simp add: failure_keeps_no_count freeze_page_count_def failure_keeps_intros split: option.split)
next
  case (RevertTo s)
  then show ?thesis
    by (simp add: failure_keeps_no_count revert_to_def failure_keeps_intros split: option.split)
qed (simp_all add: failure_keeps_no_count failure_keeps_edit failure_keeps_intros
      set_deliberations_def set_body_def clear_body_def add_attachment_def add_signatory_def
      advance_to_def reopen_for_correction_def set_ai_human_verification_def archive_act_def
      mark_sealed_def)

lemma act_exec_failed: "fst (act_exec op a) = Err e \<Longrightarrow> snd (act_exec op a) = a"
  using act_exec_failure_keeps [of op a] by (auto simp: failure_keeps_def)

interpretation act_atomic: atomic_machine act_exec
  by unfold_locales (rule act_exec_failed)

definition is_sealed :: "act \<Rightarrow> bool" where
  "is_sealed a \<longleftrightarrow> act_state a \<in> {Sealed, Archived}"

text \<open>The retired signing snapshots a sequence of operations records, in order.\<close>

fun recorded_snapshots :: "act_op list \<Rightarrow> superseded_signing_snapshot list" where
  "recorded_snapshots [] = []"
| "recorded_snapshots (RecordSupersededSnapshot s # ops) = s # recorded_snapshots ops"
| "recorded_snapshots (_ # ops) = recorded_snapshots ops"

definition sealed_after :: "act_op list \<Rightarrow> act \<Rightarrow> act" where
  "sealed_after ops a = a\<lparr>act_state := (if ArchiveAct \<in> set ops then Archived else act_state a),
     act_superseded_signing_snapshots := act_superseded_signing_snapshots a @ recorded_snapshots ops\<rparr>"

lemma sealed_exec_refused:
  assumes "is_sealed a" "op \<noteq> ArchiveAct" "recorded_snapshots [op] = []"
  shows "snd (act_exec op a) = a"
proof (cases "\<exists>n. op = FreezePageCount n")
  case True
  with assms(1) show ?thesis
    by (auto simp: no_count_def freeze_page_count_def is_sealed_def split: option.split)
next
  case False
  then have "\<not> is_ok (fst (act_exec op a))"
    using assms
    by (cases op) (auto simp: is_sealed_def act_op_defs split: option.splits if_splits sum.splits)
  then show ?thesis using act_atomic.changed_succeeded by blast
qed

lemma recorded_snapshots_Cons: "recorded_snapshots (op # ops) = recorded_snapshots [op] @ recorded_snapshots ops"
  by (cases op) simp_all

lemma sealed_after_other:
  assumes "op \<noteq> ArchiveAct" "recorded_snapshots [op] = []"
  shows "sealed_after (op # ops) a = sealed_after ops a"
proof -
  have "recorded_snapshots (op # ops) = recorded_snapshots ops"
    using assms(2) recorded_snapshots_Cons [of op ops] by simp
  moreover have "ArchiveAct \<in> set (op # ops) \<longleftrightarrow> ArchiveAct \<in> set ops" using assms(1) by auto
  ultimately show ?thesis unfolding sealed_after_def by (simp only:)
qed

text \<open>
  The seal fields are filled exactly from the seal on, and content written with AI help is out
  for signature or later only after a person accepted it.
\<close>

definition act_inv :: "act \<Rightarrow> bool" where
  "act_inv a \<longleftrightarrow>
     (act_state a \<in> {Signing, Sealed, Archived} \<longrightarrow> \<not> requires_ai_human_verification a)
     \<and> (is_sealed a \<longleftrightarrow> act_ata_number a \<noteq> None) \<and> (is_sealed a \<longleftrightarrow> act_payload_digest a \<noteq> None)
     \<and> (is_sealed a \<longleftrightarrow> act_seal_event_seq a \<noteq> None) \<and> (is_sealed a \<longleftrightarrow> act_seal_metadata a \<noteq> None)"

lemma requires_ai_cong:
  "act_ai_provenance a = act_ai_provenance b
     \<Longrightarrow> requires_ai_human_verification a = requires_ai_human_verification b"
  by (simp add: requires_ai_human_verification_def)

text \<open>The invariant reads six fields only.\<close>

lemma act_inv_cong:
  assumes "act_inv b" and "act_state a = act_state b" and "act_ai_provenance a = act_ai_provenance b"
    and "act_ata_number a = act_ata_number b" and "act_payload_digest a = act_payload_digest b"
    and "act_seal_event_seq a = act_seal_event_seq b" and "act_seal_metadata a = act_seal_metadata b"
  shows "act_inv a"
proof -
  have "act_inv a = act_inv b"
    unfolding act_inv_def is_sealed_def requires_ai_human_verification_def
    by (simp only: assms(2-7))
  with assms(1) show ?thesis by simp
qed

text \<open>Moves between states that are not sealed keep it, when signing is entered reviewed.\<close>

lemma act_inv_move:
  assumes "act_inv b" and "\<not> is_sealed b" and "\<not> is_sealed a"
    and "act_state a = Signing \<longrightarrow> \<not> requires_ai_human_verification a"
    and "act_ata_number a = act_ata_number b" and "act_payload_digest a = act_payload_digest b"
    and "act_seal_event_seq a = act_seal_event_seq b" and "act_seal_metadata a = act_seal_metadata b"
  shows "act_inv a"
  using assms by (auto simp: act_inv_def is_sealed_def)

lemma act_inv_edit:
  assumes "act_inv a" and "act_state (f a) = act_state a" and "act_ata_number (f a) = act_ata_number a"
    and "act_payload_digest (f a) = act_payload_digest a"
    and "act_seal_event_seq (f a) = act_seal_event_seq a"
    and "act_seal_metadata (f a) = act_seal_metadata a"
  shows "act_inv (snd (no_count (edit f a)))"
proof (cases "is_mutable a")
  case True
  then have "act_inv (f a)"
    using assms by (intro act_inv_move [OF assms(1)]) (simp_all add: is_sealed_def is_mutable_def)
  with True show ?thesis by (simp add: no_count_def edit_def ensure_mutable_def)
qed (use assms(1) in \<open>simp add: no_count_def edit_def ensure_mutable_def\<close>)

lemma act_inv_advance: "act_inv a \<Longrightarrow> act_inv (snd (advance_to s a))"
proof -
  assume inv: "act_inv a"
  have "requires_ai_human_verification (a\<lparr>act_state := s\<rparr>) = requires_ai_human_verification a"
    by (rule requires_ai_cong) simp
  with inv show ?thesis
    by (auto simp: advance_to_def is_sealed_def intro!: act_inv_move [OF inv])
qed

lemma act_inv_exec: "act_inv a \<Longrightarrow> act_inv (snd (act_exec op a))"
proof (cases op)
  case (FreezePageCount n)
  assume "act_inv a"
  with FreezePageCount show ?thesis
    by (auto simp: no_count_def freeze_page_count_def split: option.split intro: act_inv_cong)
next
  case (AdvanceTo s)
  assume "act_inv a"
  with AdvanceTo show ?thesis by (simp add: no_count_def act_inv_advance)
next
  case (RevertTo s)
  assume "act_inv a"
  with RevertTo show ?thesis
    by (auto simp: no_count_def revert_to_def is_sealed_def split: option.split
        dest: reversible_index_Some intro!: act_inv_move [of a])
next
  case ReopenForCorrection
  assume "act_inv a"
  with ReopenForCorrection show ?thesis
    by (auto simp: reopen_for_correction_def is_sealed_def intro!: act_inv_move [of a])
next
  case (RecordSupersededSnapshot s)
  assume "act_inv a"
  with RecordSupersededSnapshot show ?thesis
    by (auto simp: record_superseded_signing_snapshot_def intro: act_inv_cong)
next
  case ArchiveAct
  assume "act_inv a"
  with ArchiveAct show ?thesis
    by (auto simp: no_count_def archive_act_def act_inv_def is_sealed_def requires_ai_human_verification_def)
next
  case (MarkSealed n d q m)
  assume "act_inv a"
  with MarkSealed show ?thesis
    by (auto simp: no_count_def mark_sealed_def act_inv_def is_sealed_def requires_ai_human_verification_def)
qed (simp_all add: act_inv_edit set_deliberations_def set_body_def clear_body_def add_attachment_def
      add_signatory_def set_ai_human_verification_def)

interpretation act_machine: machine act_exec act_inv
  by unfold_locales (rule act_inv_exec)

lemma run_reachable: "act_step\<^sup>*\<^sup>* (act_state a) (act_state (run act_exec ops a))"
proof (induction ops arbitrary: a)
  case (Cons op ops)
  have "act_step\<^sup>*\<^sup>* (act_state a) (act_state (snd (act_exec op a)))"
    using act_exec_step [of op a] by auto
  with Cons.IH [of "snd (act_exec op a)"] show ?case by simp
qed simp

lemma sealed_terminal: "act_step\<^sup>*\<^sup>* s t \<Longrightarrow> s \<in> {Sealed, Archived} \<Longrightarrow> t \<in> {Sealed, Archived}"
  by (induction rule: rtranclp_induct)
    (auto elim: act_step_from_SealedE act_step_from_ArchivedE)

lemma recorded_snapshots_Nil: "(\<forall>s. RecordSupersededSnapshot s \<notin> set ops) \<Longrightarrow> recorded_snapshots ops = []"
  by (induction ops rule: recorded_snapshots.induct) auto

lemma sealed_run: "is_sealed a \<Longrightarrow> run act_exec ops a = sealed_after ops a"
proof (induction ops arbitrary: a)
  case Nil
  show ?case by (cases a) (simp add: sealed_after_def)
next
  case (Cons op ops)
  consider "op = ArchiveAct" | s where "op = RecordSupersededSnapshot s"
    | "op \<noteq> ArchiveAct" "recorded_snapshots [op] = []" by (cases op) simp_all
  then show ?case
  proof cases
    case 1
    have "snd (archive_act a) = a\<lparr>act_state := Archived\<rparr>"
      using Cons.prems by (cases a) (auto simp: archive_act_def is_sealed_def)
    moreover have "is_sealed (a\<lparr>act_state := Archived\<rparr>)" by (simp add: is_sealed_def)
    ultimately show ?thesis using 1 Cons.IH by (simp add: no_count_def sealed_after_def)
  next
    case 2
    have "is_sealed (record_superseded_signing_snapshot s a)"
      using Cons.prems by (simp add: is_sealed_def record_superseded_signing_snapshot_def)
    with 2 Cons.IH show ?thesis by (simp add: sealed_after_def record_superseded_signing_snapshot_def)
  next
    case 3
    then show ?thesis
      by (simp only: run.simps sealed_exec_refused [OF Cons.prems 3] sealed_after_other [OF 3] Cons.IH [OF Cons.prems])
  qed
qed

text \<open>
  C36: the life cycle. An operation leaves the state of an act or moves it along one documented
  transition (\<open>act_step\<close>), and one that fails leaves it; an accepted advance reaches the state it names,
  which is the next phase. An act becomes sealed only out of \<open>Signing\<close> and by the seal, enters \<open>Signing\<close> only from
  \<open>TextApproved\<close> and by an advance, and is archived only once sealed. So a sequence of operations moves along a path
  of transitions, and a sealed act is never unsealed.
\<close>

theorem act_lifecycle:
  "(act_state (snd (act_exec op a)) = act_state a
     \<or> is_ok (fst (act_exec op a)) \<and> act_step (act_state a) (act_state (snd (act_exec op a))))
   \<and> (act_state (snd (act_exec op a)) = Sealed \<longrightarrow>
        act_state a = Sealed \<or> act_state a = Signing \<and> (\<exists>n d q m. op = MarkSealed n d q m))
   \<and> (act_state (snd (act_exec op a)) = Signing \<longrightarrow>
        act_state a = Signing \<or> act_state a = TextApproved \<and> op = AdvanceTo Signing)
   \<and> (act_state (snd (act_exec op a)) = Archived \<longrightarrow>
        act_state a = Archived \<or> act_state a = Sealed \<and> op = ArchiveAct)
   \<and> (\<forall>s r. op = AdvanceTo s \<longrightarrow> fst (act_exec op a) = Ok r \<longrightarrow>
        act_state (snd (act_exec op a)) = s \<and> phase s = Suc (phase (act_state a)))
   \<and> act_step\<^sup>*\<^sup>* (act_state a) (act_state (run act_exec ops a))
   \<and> (is_sealed a \<longrightarrow> is_sealed (run act_exec ops a))"
  (is "?edge \<and> ?sealed \<and> ?signing \<and> ?archived \<and> ?advance \<and> ?path \<and> ?stays")
proof (intro conjI)
  show ?edge
  proof (cases "act_state (snd (act_exec op a)) = act_state a")
    case False
    then have "is_ok (fst (act_exec op a))" by (intro act_atomic.changed_succeeded) auto
    with False act_exec_step [of op a] show ?thesis by blast
  qed simp
  show ?sealed ?signing ?archived using act_exec_enters [of op a] by metis+
  show ?advance using advance_to_state by blast
  show ?path by (rule run_reachable)
  show ?stays using sealed_terminal [OF run_reachable, of a ops] by (simp add: is_sealed_def)
qed

text \<open>
  C37: a sealed act is frozen. Any sequence of operations on a sealed act, accepted or refused, leaves
  the act exactly as it was but for two things: its state is \<open>Archived\<close> from the first \<open>archive\<close> on, and the
  retired signing snapshots that \<open>record_superseded_signing_snapshot\<close> (which has no guard) was called with are
  appended to their list. In particular, without that call no field but the state ever changes.
\<close>

theorem sealed_act_is_frozen:
  assumes "is_sealed a"
  shows "run act_exec ops a =
    a\<lparr>act_state := (if ArchiveAct \<in> set ops then Archived else act_state a),
      act_superseded_signing_snapshots := act_superseded_signing_snapshots a @ recorded_snapshots ops\<rparr>
   \<and> ((\<forall>s. RecordSupersededSnapshot s \<notin> set ops) \<longrightarrow>
       run act_exec ops a = a\<lparr>act_state := (if ArchiveAct \<in> set ops then Archived else act_state a)\<rparr>)"
proof -
  have noop: "a\<lparr>act_state := s, act_superseded_signing_snapshots := act_superseded_signing_snapshots a\<rparr>
      = a\<lparr>act_state := s\<rparr>" for s by (cases a) simp
  show ?thesis
    unfolding sealed_run [OF assms] sealed_after_def by (auto simp: recorded_snapshots_Nil noop)
qed

text \<open>
  C38: the gates on signing and sealing. Starting from an act not yet out for signature, with
  whatever AI provenance, after any operations: an act out for signature or sealed has no
  unreviewed AI content, and ata number, digest, event number and seal metadata are present
  exactly on sealed acts.
\<close>

theorem act_gates:
  assumes "is_mutable a" and "act_ata_number a = None" and "act_payload_digest a = None"
    and "act_seal_event_seq a = None" and "act_seal_metadata a = None"
  shows "act_inv (run act_exec ops a)"
  by (rule act_machine.run_inv) (use assms in \<open>simp add: act_inv_def is_sealed_def is_mutable_def\<close>)

text \<open>
  reopening for correction. It succeeds exactly on an act out for signature with no collected
  signature; it then returns the frozen page count, clears it and goes back to \<open>TextApproved\<close>,
  changing nothing else; otherwise the act is as before and the error says why.
\<close>

theorem reopen_outcome:
  "reopen_for_correction a =
     (if act_state a = Signing \<and> \<not> (\<exists>slot \<in> set (act_signatories a). ss_signed slot)
      then (Ok (act_page_count a), a\<lparr>act_state := TextApproved, act_page_count := None\<rparr>)
      else (Err (if act_state a = Signing then SignaturesCollected
                 else InvalidTransition (act_state a) TextApproved), a))"
  by (auto simp: reopen_for_correction_def list_ex_iff)

section \<open>Evaluated instances\<close>

definition sample_metadata :: seal_metadata where
  "sample_metadata = new_seal_metadata ''csc/v2'' CommercialCompany SociedadePorQuotas"

definition sealed_sample :: act where
  "sealed_sample = run act_exec
     [AdvanceTo Review, AdvanceTo Convened, AdvanceTo Deliberated, AdvanceTo TextApproved,
      FreezePageCount 3, AdvanceTo Signing, MarkSealed 1 [] 0 sample_metadata]
     (draft 1 2 ''ata'' Physical)"

theorem act_lifecycle_witness:
  "act_state (snd (act_exec (AdvanceTo Review) (draft 1 2 ''ata'' Physical))) = Review
   \<and> is_sealed (run act_exec [RevertTo Draft, ArchiveAct] sealed_sample)"
proof
  have "fst (act_exec (AdvanceTo Review) (draft 1 2 ''ata'' Physical)) = Ok None" by code_simp
  then show "act_state (snd (act_exec (AdvanceTo Review) (draft 1 2 ''ata'' Physical))) = Review"
    using act_lifecycle [of "AdvanceTo Review" "draft 1 2 ''ata'' Physical"] by blast
  have "is_sealed sealed_sample" by code_simp
  then show "is_sealed (run act_exec [RevertTo Draft, ArchiveAct] sealed_sample)"
    using act_lifecycle [of ArchiveAct sealed_sample] by blast
qed

theorem sealed_act_is_frozen_witness:
  "run act_exec [FreezePageCount 9, ArchiveAct, SetDeliberations ''x''] sealed_sample
     = sealed_sample\<lparr>act_state := Archived\<rparr>"
proof -
  have "is_sealed sealed_sample" by code_simp
  from sealed_act_is_frozen [OF this, of "[FreezePageCount 9, ArchiveAct, SetDeliberations ''x'']"]
  show ?thesis by (simp del: run.simps)
qed

theorem act_gates_witness: "act_inv (run act_exec [AdvanceTo Review] (draft 1 2 ''ata'' Physical))"
  by (rule act_gates) (simp_all add: draft_def is_mutable_def)

end
