(* ===== verification/Book.thy ===== *)
theory Book
  imports Act
begin

section \<open>Books (livros de atas)\<close>

text \<open>
  \<open>src/crates/chancela-core/src/book.rs\<close>: a book of one organ of an entity, its opening and closing
  instruments, the ata counter and the page accounts. Page counts are \<open>u32\<close> and the ata counter is
  \<open>u64\<close>, kept at their widths with \<open>checked_add\<close> and \<open>checked_sub\<close> written out. The document-layout
  overrides of a book, which no operation here reads, are left out. The text form of a UUID comes
  from the \<open>uuid\<close> crate: the parameter \<open>uuid_text\<close>.
\<close>

datatype book_kind =
  AssembleiaGeral | GerenciaAdministracao | ConselhoFiscal | CondominioBook | OtherBook

datatype book_state = Created | Open | Closed

datatype numbering_scheme = Sequential | LooseLeaf

record termo_signatory =
  ts_name :: string
  ts_capacity :: "signatory_capacity option"
  ts_capacity_note :: "string option"
  ts_email :: "string option"

record termo_clause_record =
  cl_heading :: "string option"
  cl_text :: string

record termo_collected_signature =
  cs_slot_id :: u128
  cs_name :: string
  cs_capacity :: signatory_capacity
  cs_capacity_note :: "string option"
  cs_signed_at :: offset_date_time
  cs_signature_id :: "u128 option"

record termo_de_abertura =
  ta_entity_name :: string
  ta_entity_nipc :: string
  ta_entity_seat :: string
  ta_purpose :: string
  ta_numbering_scheme :: numbering_scheme
  ta_opening_date :: date
  ta_required_signatories :: "string list"
  ta_required_signatory_records :: "termo_signatory list"
  ta_termo_instrument_id :: "u128 option"
  ta_title :: "string option"
  ta_book_number :: "u32 option"
  ta_place :: "string option"
  ta_page_capacity :: "u32 option"
  ta_body :: "termo_clause_record list"
  ta_collected_signatures :: "termo_collected_signature list"

datatype closing_reason = BookFull | EntityDissolved | MigrationToSuccessor | OtherReason string

record termo_de_encerramento =
  te_ata_count :: u64
  te_reason :: closing_reason
  te_closing_date :: date
  te_required_signatories :: "string list"
  te_required_signatory_records :: "termo_signatory list"
  te_termo_instrument_id :: "u128 option"
  te_title :: "string option"
  te_book_number :: "u32 option"
  te_place :: "string option"
  te_body :: "termo_clause_record list"
  te_collected_signatures :: "termo_collected_signature list"
  te_pages_used_at_close :: "u32 option"

record legal_hold =
  lh_reason :: string
  lh_actor :: string
  lh_set_at :: offset_date_time

record book =
  bk_id :: u128
  bk_entity_id :: u128
  bk_kind :: book_kind
  bk_state :: book_state
  bk_termo_abertura :: "termo_de_abertura option"
  bk_termo_encerramento :: "termo_de_encerramento option"
  bk_last_ata_number :: u64
  bk_predecessor :: "u128 option"
  bk_predecessor_note :: "string option"
  bk_kind_label :: "string option"
  bk_legal_hold :: "legal_hold option"
  bk_book_number :: "u32 option"
  bk_page_capacity :: "u32 option"
  bk_pages_used :: u32
  bk_pages_reserved :: u32

datatype book_error =
    NotOpenable book_state
  | NotClosable book_state
  | NotOpen book_state
  | WrongBook string string
  | CapacityExceeded (exceeded_capacity: u32) (exceeded_used: u32) (exceeded_reserved: u32) (exceeded_required: u32)
  | NoSuchReservation u32 u32
  | PageCapacityOutOfRange u32 u32 u32
  | PageCountOverflow

definition MIN_PAGE_CAPACITY :: u32 where "MIN_PAGE_CAPACITY = 1"

definition MAX_PAGE_CAPACITY :: u32 where "MAX_PAGE_CAPACITY = 10000"

subsection \<open>Integer operations\<close>

text \<open>
  \<open>u32::checked_add\<close>, \<open>checked_sub\<close>, \<open>saturating_add\<close> and \<open>saturating_sub\<close>: an addition overflows
  when the wrapped sum is below its first argument.
\<close>

definition checked_add :: "u32 \<Rightarrow> u32 \<Rightarrow> u32 option" where
  "checked_add a b = (if a \<le> a + b then Some (a + b) else None)"

definition checked_sub :: "u32 \<Rightarrow> u32 \<Rightarrow> u32 option" where
  "checked_sub a b = (if b \<le> a then Some (a - b) else None)"

definition saturating_add :: "u32 \<Rightarrow> u32 \<Rightarrow> u32" where
  "saturating_add a b = (if a \<le> a + b then a + b else - 1)"

definition saturating_sub :: "u32 \<Rightarrow> u32 \<Rightarrow> u32" where
  "saturating_sub a b = (if b \<le> a then a - b else 0)"

subsection \<open>Operations\<close>

definition from_legacy :: "string \<Rightarrow> termo_signatory" where
  "from_legacy v = \<lparr>ts_name = v, ts_capacity = None, ts_capacity_note = None, ts_email = None\<rparr>"

definition new_book :: "u128 \<Rightarrow> u128 \<Rightarrow> book_kind \<Rightarrow> book" where
  "new_book new_id entity_id kind =
     \<lparr>bk_id = new_id, bk_entity_id = entity_id, bk_kind = kind, bk_state = Created,
      bk_termo_abertura = None, bk_termo_encerramento = None, bk_last_ata_number = 0,
      bk_predecessor = None, bk_predecessor_note = None, bk_kind_label = None,
      bk_legal_hold = None, bk_book_number = None, bk_page_capacity = None, bk_pages_used = 0,
      bk_pages_reserved = 0\<rparr>"

definition new_successor :: "u128 \<Rightarrow> u128 \<Rightarrow> book_kind \<Rightarrow> u128 \<Rightarrow> book" where
  "new_successor new_id entity_id kind predecessor =
     (new_book new_id entity_id kind)\<lparr>bk_predecessor := Some predecessor\<rparr>"

definition new_other :: "u128 \<Rightarrow> u128 \<Rightarrow> string \<Rightarrow> book" where
  "new_other new_id entity_id label =
     (new_book new_id entity_id OtherBook)\<lparr>bk_kind_label := Some label\<rparr>"

definition kind_label_is_consistent :: "book \<Rightarrow> bool" where
  "kind_label_is_consistent b =
     (let has_label = (case bk_kind_label b of None \<Rightarrow> False | Some l \<Rightarrow> \<not> is_blank l) in
      case bk_kind b of OtherBook \<Rightarrow> has_label | _ \<Rightarrow> \<not> has_label)"

definition has_page_capacity :: "book \<Rightarrow> bool" where
  "has_page_capacity b \<longleftrightarrow> bk_page_capacity b \<noteq> None"

definition open_book :: "termo_de_abertura \<Rightarrow> book \<Rightarrow> (book_error, unit, book) call" where
  "open_book termo b =
     (if bk_state b \<noteq> Created then (Err (NotOpenable (bk_state b)), b)
      else
        (let opened = (\<lambda>b. (case ta_book_number termo of
               Some n \<Rightarrow> b\<lparr>bk_book_number := Some n\<rparr> | None \<Rightarrow> b)
             \<lparr>bk_termo_abertura := Some termo, bk_state := Open\<rparr>) in
         case ta_page_capacity termo of
           Some capacity \<Rightarrow>
             if \<not> (MIN_PAGE_CAPACITY \<le> capacity \<and> capacity \<le> MAX_PAGE_CAPACITY)
             then (Err (PageCapacityOutOfRange capacity MIN_PAGE_CAPACITY MAX_PAGE_CAPACITY), b)
             else (Ok (), opened (b\<lparr>bk_page_capacity := Some capacity\<rparr>))
         | None \<Rightarrow> (Ok (), opened b)))"

definition close_book :: "termo_de_encerramento \<Rightarrow> book \<Rightarrow> (book_error, unit, book) call" where
  "close_book termo b =
     (if bk_state b \<noteq> Open then (Err (NotClosable (bk_state b)), b)
      else
        (let termo' = termo\<lparr>te_ata_count := bk_last_ata_number b,
               te_pages_used_at_close :=
                 (if has_page_capacity b then Some (bk_pages_used b) else None)\<rparr>
         in (Ok (), b\<lparr>bk_termo_encerramento := Some termo', bk_state := Closed\<rparr>)))"

definition assign_next_ata_number :: "book \<Rightarrow> (book_error, u64, book) call" where
  "assign_next_ata_number b =
     (if bk_state b \<noteq> Open then (Err (NotOpen (bk_state b)), b)
      else (Ok (bk_last_ata_number b + 1), b\<lparr>bk_last_ata_number := bk_last_ata_number b + 1\<rparr>))"

definition is_open :: "book \<Rightarrow> bool" where
  "is_open b \<longleftrightarrow> bk_state b = Open"

definition pages_remaining :: "book \<Rightarrow> u32 option" where
  "pages_remaining b =
     (case bk_page_capacity b of
        None \<Rightarrow> None
      | Some capacity \<Rightarrow>
          Some (saturating_sub capacity (saturating_add (bk_pages_used b) (bk_pages_reserved b))))"

definition is_capacity_exhausted :: "book \<Rightarrow> bool" where
  "is_capacity_exhausted b \<longleftrightarrow> pages_remaining b = Some 0"

definition capacity_exceeded :: "u32 \<Rightarrow> u32 \<Rightarrow> book \<Rightarrow> book_error" where
  "capacity_exceeded capacity pages b =
     CapacityExceeded capacity (bk_pages_used b) (bk_pages_reserved b) pages"

definition reserve_pages :: "u32 \<Rightarrow> book \<Rightarrow> (book_error, unit, book) call" where
  "reserve_pages pages b =
     (case checked_add (bk_pages_used b) (bk_pages_reserved b) of
        None \<Rightarrow> (Err PageCountOverflow, b)
      | Some committed \<Rightarrow> (case checked_add committed pages of
          None \<Rightarrow> (Err PageCountOverflow, b)
        | Some requested_total \<Rightarrow>
            (case bk_page_capacity b of
               Some capacity \<Rightarrow>
                 if requested_total > capacity then (Err (capacity_exceeded capacity pages b), b)
                 else (Ok (), b\<lparr>bk_pages_reserved := bk_pages_reserved b + pages\<rparr>)
             | None \<Rightarrow> (Ok (), b\<lparr>bk_pages_reserved := bk_pages_reserved b + pages\<rparr>))))"

definition consume_reserved_pages :: "u32 \<Rightarrow> book \<Rightarrow> (book_error, unit, book) call" where
  "consume_reserved_pages pages b =
     (case checked_sub (bk_pages_reserved b) pages of
        None \<Rightarrow> (Err (NoSuchReservation (bk_pages_reserved b) pages), b)
      | Some reserved \<Rightarrow> (case checked_add (bk_pages_used b) pages of
          None \<Rightarrow> (Err PageCountOverflow, b)
        | Some used \<Rightarrow>
            (case bk_page_capacity b of
               Some capacity \<Rightarrow>
                 if used > capacity then (Err (capacity_exceeded capacity pages b), b)
                 else (Ok (), b\<lparr>bk_pages_reserved := reserved, bk_pages_used := used\<rparr>)
             | None \<Rightarrow> (Ok (), b\<lparr>bk_pages_reserved := reserved, bk_pages_used := used\<rparr>))))"

definition release_reserved_pages :: "u32 \<Rightarrow> book \<Rightarrow> (book_error, unit, book) call" where
  "release_reserved_pages pages b =
     (case checked_sub (bk_pages_reserved b) pages of
        None \<Rightarrow> (Err (NoSuchReservation (bk_pages_reserved b) pages), b)
      | Some reserved \<Rightarrow> (Ok (), b\<lparr>bk_pages_reserved := reserved\<rparr>))"

subsection \<open>The ata sequence\<close>

datatype ata_sequence_issue = Duplicate u64 "string list" | BeyondCounter u64 u64

definition is_uniqueness_violation :: "ata_sequence_issue \<Rightarrow> bool" where
  "is_uniqueness_violation i \<longleftrightarrow> (case i of Duplicate _ _ \<Rightarrow> True | BeyondCounter _ _ \<Rightarrow> False)"

text \<open>The numbers of this book's acts; the keys of the \<open>BTreeMap\<close> are these, ascending.\<close>

definition numbered_acts :: "book \<Rightarrow> act list \<Rightarrow> (u64 \<times> act) list" where
  "numbered_acts b acts = List.map_filter
     (\<lambda>a. if act_book_id a \<noteq> bk_id b then None else map_option (\<lambda>n. (n, a)) (act_ata_number a)) acts"

definition number_issues :: "(u128 \<Rightarrow> string) \<Rightarrow> book \<Rightarrow> (u64 \<times> act) list \<Rightarrow> u64 \<Rightarrow> ata_sequence_issue list" where
  "number_issues uuid_text b numbered n =
     (let act_ids = map (\<lambda>(_, a). uuid_text (act_id a)) (filter (\<lambda>(m, _). m = n) numbered) in
      (if length act_ids > 1 then [Duplicate n (sort act_ids)] else [])
      @ (if n > bk_last_ata_number b then [BeyondCounter n (bk_last_ata_number b)] else []))"

definition check_ata_sequence :: "(u128 \<Rightarrow> string) \<Rightarrow> book \<Rightarrow> act list \<Rightarrow> ata_sequence_issue list" where
  "check_ata_sequence uuid_text b acts =
     (let numbered = numbered_acts b acts in
      concat (map (number_issues uuid_text b numbered) (sorted_list_of_set (set (map fst numbered)))))"

section \<open>The book as a state machine\<close>

datatype book_op =
    OpenBook termo_de_abertura
  | CloseBook termo_de_encerramento
  | AssignNumber
  | ReservePages u32
  | ConsumePages u32
  | ReleasePages u32

definition no_number :: "(book_error, unit, book) call \<Rightarrow> (book_error, u64 option, book) call" where
  "no_number c = (map_sum id (\<lambda>_. None) (fst c), snd c)"

fun book_exec :: "book_op \<Rightarrow> book \<Rightarrow> (book_error, u64 option, book) call" where
  "book_exec (OpenBook t) b = no_number (open_book t b)"
| "book_exec (CloseBook t) b = no_number (close_book t b)"
| "book_exec AssignNumber b =
     (map_sum id Some (fst (assign_next_ata_number b)), snd (assign_next_ata_number b))"
| "book_exec (ReservePages n) b = no_number (reserve_pages n b)"
| "book_exec (ConsumePages n) b = no_number (consume_reserved_pages n b)"
| "book_exec (ReleasePages n) b = no_number (release_reserved_pages n b)"

lemma failure_keeps_no_number: "failure_keeps c b \<Longrightarrow> failure_keeps (no_number c) b"
  by (cases "fst c") (simp_all add: failure_keeps_def no_number_def)

lemma book_exec_failure_keeps: "failure_keeps (book_exec op b) b"
  by (cases op)
    (simp_all add: failure_keeps_no_number failure_keeps_intros open_book_def close_book_def
      assign_next_ata_number_def reserve_pages_def consume_reserved_pages_def
      release_reserved_pages_def Let_def split: option.split)

interpretation book_atomic: atomic_machine book_exec
proof unfold_locales
  fix op s e
  assume "fst (book_exec op s) = Inl e"
  with book_exec_failure_keeps [of op s] show "snd (book_exec op s) = s"
    by (auto simp: failure_keeps_def)
qed

subsection \<open>Page accounts\<close>

text \<open>
  The accounts of a book that has been opened: used and reserved pages together neither overflow
  nor exceed the declared capacity.
\<close>

definition pages_ok :: "book \<Rightarrow> bool" where
  "pages_ok b \<longleftrightarrow> unat (bk_pages_used b) + unat (bk_pages_reserved b) < 2 ^ 32
     \<and> (case bk_page_capacity b of None \<Rightarrow> True
        | Some c \<Rightarrow> unat (bk_pages_used b) + unat (bk_pages_reserved b) \<le> unat c)"

definition opened_inv :: "book \<Rightarrow> bool" where
  "opened_inv b \<longleftrightarrow> bk_state b \<noteq> Created \<and> pages_ok b"

lemma checked_add_Some: "checked_add a b = Some c \<longleftrightarrow> unat a + unat b < 2 ^ 32 \<and> c = a + b"
  by (auto simp: checked_add_def no_olen_add_nat)

lemma checked_sub_Some: "checked_sub a b = Some c \<longleftrightarrow> unat b \<le> unat a \<and> c = a - b"
  by (auto simp: checked_sub_def word_le_nat_alt)

lemma unat_add: "unat a + unat b < 2 ^ 32 \<Longrightarrow> unat (a + b) = unat a + unat b" for a b :: u32
  by (simp add: unat_plus_if_size word_size)

lemma unat_sub: "unat b \<le> unat a \<Longrightarrow> unat (a - b) = unat a - unat b" for a b :: u32
  by (simp add: unat_sub word_le_nat_alt)

lemma pages_ok_cong:
  "pages_ok b \<Longrightarrow> bk_pages_used b' = bk_pages_used b \<Longrightarrow> bk_pages_reserved b' = bk_pages_reserved b
     \<Longrightarrow> bk_page_capacity b' = bk_page_capacity b \<Longrightarrow> pages_ok b'"
  by (auto simp: pages_ok_def split: option.split)

lemma pages_ok_reserve: "pages_ok b \<Longrightarrow> pages_ok (snd (reserve_pages n b))"
  by (auto simp: pages_ok_def reserve_pages_def checked_add_Some unat_add word_less_nat_alt
      not_less add.assoc split: option.splits)

lemma pages_ok_consume: "pages_ok b \<Longrightarrow> pages_ok (snd (consume_reserved_pages n b))"
  by (auto simp: pages_ok_def consume_reserved_pages_def checked_add_Some checked_sub_Some
      unat_add unat_sub split: option.splits)

lemma pages_ok_release: "pages_ok b \<Longrightarrow> pages_ok (snd (release_reserved_pages n b))"
  by (auto simp: pages_ok_def release_reserved_pages_def checked_sub_Some unat_sub
      split: option.splits)

lemma book_exec_state:
  "bk_state b \<noteq> Created \<Longrightarrow> bk_state (snd (book_exec op b)) \<noteq> Created"
  by (cases op) (auto simp: no_number_def open_book_def close_book_def assign_next_ata_number_def
      reserve_pages_def consume_reserved_pages_def release_reserved_pages_def Let_def
      split: option.split)

lemma opened_inv_exec: "opened_inv b \<Longrightarrow> opened_inv (snd (book_exec op b))"
proof -
  assume inv: "opened_inv b"
  have "pages_ok (snd (book_exec op b))"
  proof (cases op)
    case (CloseBook t)
    with inv show ?thesis
      by (auto simp: opened_inv_def no_number_def close_book_def Let_def intro: pages_ok_cong)
  next
    case AssignNumber
    with inv show ?thesis
      by (auto simp: opened_inv_def assign_next_ata_number_def intro: pages_ok_cong)
  qed (use inv in \<open>simp_all add: opened_inv_def no_number_def open_book_def pages_ok_reserve
        pages_ok_consume pages_ok_release\<close>)
  with inv book_exec_state show ?thesis by (simp add: opened_inv_def)
qed

interpretation book_machine: machine book_exec opened_inv
  by unfold_locales (rule opened_inv_exec)

text \<open>What closing fixes: every field but the page accounts, which no operation guards by state.\<close>

definition closed_view :: "book \<Rightarrow> book" where
  "closed_view b = b\<lparr>bk_pages_used := 0, bk_pages_reserved := 0\<rparr>"

interpretation book_freezing: freezing_machine book_exec "\<lambda>_. True" "\<lambda>b. bk_state b = Closed" closed_view
proof unfold_locales
  fix s :: book and op
  assume closed: "bk_state s = Closed"
  show "bk_state (snd (book_exec op s)) = Closed"
    using closed by (cases op) (auto simp: no_number_def open_book_def close_book_def
      assign_next_ata_number_def reserve_pages_def consume_reserved_pages_def
      release_reserved_pages_def split: option.split)
  show "closed_view (snd (book_exec op s)) = closed_view s"
    using closed by (cases op) (auto simp: closed_view_def no_number_def open_book_def close_book_def
      assign_next_ata_number_def reserve_pages_def consume_reserved_pages_def
      release_reserved_pages_def split: option.split)
qed simp_all

lemma opened_without_pages:
  assumes "open_book termo b0 = (Ok (), b)" "bk_pages_used b0 = 0" "bk_pages_reserved b0 = 0"
  shows "opened_inv b \<and> (\<forall>c. ta_page_capacity termo = Some c \<longrightarrow> bk_page_capacity b = Some c)"
  using assms
  by (auto simp: open_book_def opened_inv_def pages_ok_def Let_def split: option.splits if_splits)

lemma opened_new_book:
  assumes "open_book termo (new_book i e k) = (Ok (), b)"
  shows "bk_last_ata_number b = 0"
  using assms by (auto simp: open_book_def new_book_def Let_def split: option.splits if_splits)

lemma book_exec_capacity:
  "bk_state b \<noteq> Created \<Longrightarrow> bk_page_capacity (snd (book_exec op b)) = bk_page_capacity b"
  by (cases op) (auto simp: no_number_def open_book_def close_book_def assign_next_ata_number_def
      reserve_pages_def consume_reserved_pages_def release_reserved_pages_def Let_def
      split: option.split)

interpretation book_capacity: freezing_machine book_exec opened_inv "\<lambda>b. bk_state b \<noteq> Created" bk_page_capacity
  by unfold_locales (simp_all add: book_exec_state book_exec_capacity)

text \<open>
  C39: the page accounts. A book is opened while no page of it is used or reserved, as every
  constructor leaves it. From then on, after any operations, accepted and refused, used and
  reserved pages together never overflow 32 bits, the capacity stays what the opening set, and used
  and reserved pages never exceed the capacity the opening instrument declared.
\<close>

theorem pages_never_exceed_capacity:
  assumes "open_book termo b0 = (Ok (), b)" "bk_pages_used b0 = 0" "bk_pages_reserved b0 = 0"
  shows "pages_ok (run book_exec ops b)
    \<and> bk_page_capacity (run book_exec ops b) = bk_page_capacity b
    \<and> (\<forall>c. ta_page_capacity termo = Some c \<longrightarrow>
         unat (bk_pages_used (run book_exec ops b)) + unat (bk_pages_reserved (run book_exec ops b)) \<le> unat c)"
proof -
  from opened_without_pages [OF assms] have inv: "opened_inv b"
    and cap: "ta_page_capacity termo = Some c \<Longrightarrow> bk_page_capacity b = Some c" for c by blast+
  from inv have "pages_ok (run book_exec ops b)" "bk_page_capacity (run book_exec ops b) = bk_page_capacity b"
    using book_machine.run_inv [of b ops] book_capacity.run_frozen [of b ops] by (auto simp: opened_inv_def)
  then show ?thesis using cap by (auto simp: pages_ok_def)
qed

subsection \<open>Reservations of several acts\<close>

text \<open>
  The acts of a book share one account. A caller keeps the discipline the handlers follow: it
  converts or gives back no more pages than it was granted. \<open>others_keep n\<close> runs the
  operations of all other acts from a moment at which they hold \<open>n\<close> pages: a reservation that is
  granted adds to what they hold, converting or giving back takes from it and is asked for at most
  that, and a refused request changes nothing.
\<close>

fun others_keep :: "nat \<Rightarrow> book_op list \<Rightarrow> book \<Rightarrow> bool" where
  "others_keep n [] b = True"
| "others_keep n (op # ops) b =
     (let b' = snd (book_exec op b) in
      case op of
        ReservePages k \<Rightarrow>
          others_keep (if is_ok (fst (book_exec op b)) then n + unat k else n) ops b'
      | ConsumePages k \<Rightarrow>
          unat k \<le> n \<and> others_keep (if is_ok (fst (book_exec op b)) then n - unat k else n) ops b'
      | ReleasePages k \<Rightarrow>
          unat k \<le> n \<and> others_keep (if is_ok (fst (book_exec op b)) then n - unat k else n) ops b'
      | _ \<Rightarrow> others_keep n ops b')"

lemma reserve_reserved:
  "unat (bk_pages_reserved (snd (reserve_pages k b)))
     = unat (bk_pages_reserved b) + (if is_ok (fst (reserve_pages k b)) then unat k else 0)"
  by (auto simp: reserve_pages_def checked_add_Some unat_add split: option.splits)

lemma consume_reserved:
  "unat (bk_pages_reserved (snd (consume_reserved_pages k b)))
     = unat (bk_pages_reserved b) - (if is_ok (fst (consume_reserved_pages k b)) then unat k else 0)"
  by (auto simp: consume_reserved_pages_def checked_sub_Some unat_sub split: option.splits)

lemma release_reserved:
  "unat (bk_pages_reserved (snd (release_reserved_pages k b)))
     = unat (bk_pages_reserved b) - (if is_ok (fst (release_reserved_pages k b)) then unat k else 0)"
  by (auto simp: release_reserved_pages_def checked_sub_Some unat_sub split: option.splits)

lemma other_ops_reserved:
  "bk_pages_reserved (snd (open_book t b)) = bk_pages_reserved b"
  "bk_pages_reserved (snd (close_book t' b)) = bk_pages_reserved b"
  "bk_pages_reserved (snd (assign_next_ata_number b)) = bk_pages_reserved b"
  by (auto simp: open_book_def close_book_def assign_next_ata_number_def Let_def split: option.split)

lemma no_number_simps [simp]: "snd (no_number c) = snd c" "is_ok (fst (no_number c)) = is_ok (fst c)"
  by (cases "fst c"; simp add: no_number_def)+

lemma others_keep_reserved:
  "others_keep n ops b \<Longrightarrow> n + p \<le> unat (bk_pages_reserved b)
     \<Longrightarrow> p \<le> unat (bk_pages_reserved (run book_exec ops b))"
proof (induction ops arbitrary: n b)
  case (Cons op ops)
  then show ?case
    by (cases op)
      (auto simp: Let_def reserve_reserved consume_reserved release_reserved other_ops_reserved
        split: if_splits intro!: Cons.IH)
qed simp

lemma consume_granted:
  assumes "pages_ok b" "unat p \<le> unat (bk_pages_reserved b)"
  shows "consume_reserved_pages p b
      = (Ok (), b\<lparr>bk_pages_reserved := bk_pages_reserved b - p, bk_pages_used := bk_pages_used b + p\<rparr>)"
proof -
  have "checked_sub (bk_pages_reserved b) p = Some (bk_pages_reserved b - p)"
    "checked_add (bk_pages_used b) p = Some (bk_pages_used b + p)"
    using assms by (auto simp: checked_sub_Some checked_add_Some pages_ok_def)
  then show ?thesis
    using assms by (auto simp: consume_reserved_pages_def pages_ok_def unat_add word_less_nat_alt split: option.splits)
qed

lemma release_granted:
  "unat p \<le> unat (bk_pages_reserved b) \<Longrightarrow>
     release_reserved_pages p b = (Ok (), b\<lparr>bk_pages_reserved := bk_pages_reserved b - p\<rparr>)"
  by (simp add: release_reserved_pages_def checked_sub_def word_le_nat_alt)

text \<open>
  C40: a granted reservation is always honoured. An opened book grants an act its pages. Whatever
  the other acts then do to the book, closing it included, as long as they take no more
  than they were granted themselves (\<open>others_keep\<close>), the act finds its pages reserved: converting them
  succeeds, moving exactly these pages from the reserved to the used ones without wrap-around and changing
  nothing else, and so does giving them back.
\<close>

theorem reservation_always_honoured:
  assumes "opened_inv b" "reserve_pages p b = (Ok (), granted)"
    and "others_keep (unat (bk_pages_reserved b)) ops granted"
    and "later = run book_exec ops granted"
  shows "consume_reserved_pages p later = (Ok (), later\<lparr>bk_pages_reserved := bk_pages_reserved later - p,
           bk_pages_used := bk_pages_used later + p\<rparr>)
    \<and> release_reserved_pages p later = (Ok (), later\<lparr>bk_pages_reserved := bk_pages_reserved later - p\<rparr>)
    \<and> unat (bk_pages_reserved later - p) + unat p = unat (bk_pages_reserved later)
    \<and> unat (bk_pages_used later + p) = unat (bk_pages_used later) + unat p"
proof -
  have "unat (bk_pages_reserved b) + unat p \<le> unat (bk_pages_reserved granted)"
    using reserve_reserved [of p b] assms(2) by simp
  with assms(3) have p: "unat p \<le> unat (bk_pages_reserved later)"
    unfolding assms(4) by (rule others_keep_reserved)
  have "opened_inv granted" using opened_inv_exec [OF assms(1), of "ReservePages p"] assms(2) by simp
  then have ok: "pages_ok later" using book_machine.run_inv [of granted ops] assms(4) by (simp add: opened_inv_def)
  then have "unat (bk_pages_used later) + unat p < 2 ^ 32" using p by (simp add: pages_ok_def)
  with p show ?thesis by (simp add: consume_granted [OF ok p] release_granted unat_add unat_sub)
qed

text \<open>The numbers handed out by a sequence of operations, in order.\<close>

fun assigned_numbers :: "book_op list \<Rightarrow> book \<Rightarrow> u64 list" where
  "assigned_numbers [] b = []"
| "assigned_numbers (op # ops) b =
     (case fst (book_exec op b) of Inr (Some n) \<Rightarrow> [n] | _ \<Rightarrow> [])
     @ assigned_numbers ops (snd (book_exec op b))"

lemma book_exec_number:
  "(case fst (book_exec op b) of
      Inr (Some n) \<Rightarrow> n = bk_last_ata_number b + 1 \<and> bk_last_ata_number (snd (book_exec op b)) = n
    | _ \<Rightarrow> bk_last_ata_number (snd (book_exec op b)) = bk_last_ata_number b)"
  by (cases op)
    (auto simp: no_number_def open_book_def close_book_def assign_next_ata_number_def
      reserve_pages_def consume_reserved_pages_def release_reserved_pages_def Let_def
      split: option.splits sum.splits)

lemma assigned_numbers_consecutive:
  "assigned_numbers ops b = map (\<lambda>i. bk_last_ata_number b + of_nat i) [1..<Suc (length (assigned_numbers ops b))]
   \<and> bk_last_ata_number (run book_exec ops b) = bk_last_ata_number b + of_nat (length (assigned_numbers ops b))"
proof (induction ops arbitrary: b)
  case (Cons op ops)
  let ?b = "snd (book_exec op b)"
  show ?case
  proof (cases "\<exists>n. fst (book_exec op b) = Inr (Some n)")
    case True
    then obtain n where n: "fst (book_exec op b) = Inr (Some n)" by blast
    then have last: "n = bk_last_ata_number b + 1" "bk_last_ata_number ?b = bk_last_ata_number b + 1"
      using book_exec_number [of op b] by simp_all
    have shift: "map (\<lambda>i. bk_last_ata_number b + 1 + of_nat i) [1..<Suc m]
        = map (\<lambda>i. bk_last_ata_number b + of_nat i) [2..<Suc (Suc m)]" for m
      by (rule nth_equalityI) (simp_all del: upt_Suc)
    show ?thesis using n last Cons.IH [of ?b] shift [of "length (assigned_numbers ops ?b)"]
      by (simp add: upt_conv_Cons numeral_2_eq_2 del: upt_Suc)
  next
    case False
    then have "(case fst (book_exec op b) of Inr (Some n) \<Rightarrow> [n] | _ \<Rightarrow> []) = []"
      "bk_last_ata_number ?b = bk_last_ata_number b"
      using book_exec_number [of op b] by (auto split: sum.splits option.splits)
    then show ?thesis using Cons.IH [of ?b] by simp
  qed
qed simp

text \<open>
  ata numbering. In a newly opened book the numbers handed out are 1, 2, 3, ... without gap
  or repetition, whatever other operations come between, as long as fewer than 2 to the 64th are
  handed out; the counter is the last of them.
\<close>

theorem ata_numbers_consecutive:
  assumes "open_book termo (new_book i e k) = (Ok (), b)"
    and "length (assigned_numbers ops b) < 2 ^ 64"
  shows "map unat (assigned_numbers ops b) = [1..<Suc (length (assigned_numbers ops b))]
    \<and> unat (bk_last_ata_number (run book_exec ops b)) = length (assigned_numbers ops b)"
proof -
  let ?n = "length (assigned_numbers ops b)"
  have zero: "bk_last_ata_number b = 0" by (rule opened_new_book [OF assms(1)])
  have "map unat (assigned_numbers ops b) = map (\<lambda>i. unat (of_nat i :: u64)) [1..<Suc ?n]"
    using assigned_numbers_consecutive [of ops b] zero by (metis (no_types, lifting) add_0 comp_apply map_eq_conv map_map)
  also have "\<dots> = [1..<Suc ?n]"
    by (rule map_idI) (use assms(2) in \<open>auto simp: unat_of_nat\<close>)
  finally show ?thesis
    using assigned_numbers_consecutive [of ops b] zero assms(2) by (simp add: unat_of_nat)
qed

text \<open>
  a closed book. No operation reopens it, hands out another number or changes any field but
  the page accounts; the closing instrument states the book's own counts, whatever the caller
  wrote into it.
\<close>

theorem closed_book_is_frozen:
  assumes "close_book termo b = (Ok (), b')"
  shows "closed_view (run book_exec ops b') = closed_view b' \<and> bk_state (run book_exec ops b') = Closed
    \<and> (\<exists>t. bk_termo_encerramento (run book_exec ops b') = Some t \<and> te_ata_count t = bk_last_ata_number b
         \<and> te_pages_used_at_close t = (if has_page_capacity b then Some (bk_pages_used b) else None))"
proof -
  have closed: "bk_state b' = Closed" "bk_termo_encerramento b' = Some (termo\<lparr>te_ata_count := bk_last_ata_number b,
      te_pages_used_at_close := (if has_page_capacity b then Some (bk_pages_used b) else None)\<rparr>)"
    using assms by (auto simp: close_book_def Let_def split: if_splits)
  then have frozen: "bk_state (run book_exec ops b') = Closed \<and> closed_view (run book_exec ops b') = closed_view b'"
    using book_freezing.run_frozen [of b' ops] by simp
  then have "bk_termo_encerramento (run book_exec ops b') = bk_termo_encerramento b'"
    unfolding closed_view_def by (metis book.select_convs(6) book.surjective book.update_convs(14, 15))
  with frozen closed show ?thesis by simp
qed

text \<open>
  the page accounts of a closed book are not closed. Reserving and consuming pages carry no
  check of the state: a closed book with capacity left takes another page, and then holds more
  used pages than its closing instrument states.
\<close>

theorem closed_book_pages_still_move:
  "\<exists>b t. bk_state b = Closed \<and> bk_termo_encerramento b = Some t
     \<and> te_pages_used_at_close t \<noteq> Some (bk_pages_used (run book_exec [ReservePages 1, ConsumePages 1] b))
     \<and> te_pages_used_at_close t = Some (bk_pages_used b)"
proof -
  let ?t = "\<lparr>te_ata_count = 0, te_reason = BookFull, te_closing_date = 0, te_required_signatories = [],
    te_required_signatory_records = [], te_termo_instrument_id = None, te_title = None,
    te_book_number = None, te_place = None, te_body = [], te_collected_signatures = [],
    te_pages_used_at_close = None\<rparr>"
  let ?b = "(new_book 1 2 AssembleiaGeral)\<lparr>bk_state := Open, bk_page_capacity := Some 10\<rparr>"
  let ?c = "snd (close_book ?t ?b)"
  have "bk_state ?c = Closed" "bk_termo_encerramento ?c = Some (?t\<lparr>te_pages_used_at_close := Some 0\<rparr>)"
    "bk_pages_used ?c = 0" "bk_pages_used (run book_exec [ReservePages 1, ConsumePages 1] ?c) = 1"
    by code_simp+
  then show ?thesis by (intro exI [of _ ?c] exI [of _ "?t\<lparr>te_pages_used_at_close := Some 0\<rparr>"]) simp
qed

subsection \<open>The sequence check\<close>

lemma set_numbered_acts:
  "set (numbered_acts b acts) = {(n, a). a \<in> set acts \<and> act_book_id a = bk_id b \<and> act_ata_number a = Some n}"
  by (force simp: numbered_acts_def map_filter_def)

lemma filter_length_gt_1:
  "(\<exists>n. length (filter (\<lambda>p. fst p = n) ps) > 1) \<longleftrightarrow> \<not> distinct (map fst ps)"
proof (induction ps)
  case (Cons p ps)
  have "length (filter (\<lambda>q. fst q = fst p) ps) > 0 \<longleftrightarrow> fst p \<in> fst ` set ps"
    by (simp add: filter_empty_conv image_iff) metis
  then have "(\<exists>n. length (filter (\<lambda>q. fst q = n) (p # ps)) > 1) \<longleftrightarrow>
      fst p \<in> fst ` set ps \<or> (\<exists>n. length (filter (\<lambda>q. fst q = n) ps) > 1)"
    by (auto simp: filter_empty_conv image_iff)
      (metis (mono_tags, lifting) filter_False list.size(3) not_less_zero)
  with Cons show ?case by simp
qed simp

text \<open>
  the sequence check is exact. It reports nothing exactly when no two acts of the book carry
  the same ata number and none carries a number beyond the counter; it reports a uniqueness
  violation exactly when two of the book's acts share a number.
\<close>

theorem ata_sequence_check_exact:
  "(check_ata_sequence uuid_text b acts = [] \<longleftrightarrow>
      distinct (map fst (numbered_acts b acts))
      \<and> (\<forall>(n, a) \<in> set (numbered_acts b acts). n \<le> bk_last_ata_number b))
   \<and> ((\<exists>i \<in> set (check_ata_sequence uuid_text b acts). is_uniqueness_violation i) \<longleftrightarrow>
      \<not> distinct (map fst (numbered_acts b acts)))"
proof -
  let ?ps = "numbered_acts b acts"
  have dup: "(\<exists>n \<in> fst ` set ?ps. length (filter (\<lambda>(m, _). m = n) ?ps) > 1) \<longleftrightarrow> \<not> distinct (map fst ?ps)"
    (is "?some \<longleftrightarrow> _")
  proof -
    have "n \<in> fst ` set ?ps" if "length (filter (\<lambda>p. fst p = n) ?ps) > 1" for n
      using that by (metis (mono_tags, lifting) filter_False image_eqI length_0_conv not_less_zero)
    then have "?some \<longleftrightarrow> (\<exists>n. length (filter (\<lambda>p. fst p = n) ?ps) > 1)"
      by (auto simp: case_prod_unfold)
    then show ?thesis by (simp only: filter_length_gt_1)
  qed
  have "check_ata_sequence uuid_text b acts = [] \<longleftrightarrow>
      (\<forall>n \<in> fst ` set ?ps. \<not> length (filter (\<lambda>(m, _). m = n) ?ps) > 1 \<and> \<not> n > bk_last_ata_number b)"
    by (auto simp: check_ata_sequence_def number_issues_def Let_def)
  moreover have "(\<exists>i \<in> set (check_ata_sequence uuid_text b acts). is_uniqueness_violation i) \<longleftrightarrow> ?some"
    by (force simp: check_ata_sequence_def number_issues_def is_uniqueness_violation_def Let_def
        split: if_splits)
  moreover have "(\<forall>(n, a) \<in> set ?ps. n \<le> bk_last_ata_number b) \<longleftrightarrow>
      (\<forall>n \<in> fst ` set ?ps. \<not> n > bk_last_ata_number b)" by (auto simp: not_less)
  ultimately show ?thesis using dup by blast
qed

section \<open>Evaluated instances\<close>

definition sample_abertura :: termo_de_abertura where
  "sample_abertura = \<lparr>ta_entity_name = ''Lda'', ta_entity_nipc = ''503004642'', ta_entity_seat = ''Porto'',
     ta_purpose = ''atas'', ta_numbering_scheme = Sequential, ta_opening_date = 0,
     ta_required_signatories = [], ta_required_signatory_records = [], ta_termo_instrument_id = None,
     ta_title = None, ta_book_number = Some 1, ta_place = None, ta_page_capacity = Some 10, ta_body = [],
     ta_collected_signatures = []\<rparr>"

definition sample_encerramento :: termo_de_encerramento where
  "sample_encerramento = \<lparr>te_ata_count = 99, te_reason = BookFull, te_closing_date = 0,
     te_required_signatories = [], te_required_signatory_records = [], te_termo_instrument_id = None,
     te_title = None, te_book_number = None, te_place = None, te_body = [],
     te_collected_signatures = [], te_pages_used_at_close = None\<rparr>"

definition sample_book :: book where
  "sample_book = snd (open_book sample_abertura (new_book 2 5 AssembleiaGeral))"

lemma sample_book_opened: "open_book sample_abertura (new_book 2 5 AssembleiaGeral) = (Ok (), sample_book)"
  by code_simp

theorem pages_never_exceed_capacity_witness:
  "pages_ok (run book_exec [ReservePages 7, ReservePages 9, ConsumePages 3] sample_book)
   \<and> bk_page_capacity (run book_exec [ReservePages 7, ReservePages 9, ConsumePages 3] sample_book) = Some 10"
proof -
  have "bk_pages_used (new_book 2 5 AssembleiaGeral) = 0" "bk_pages_reserved (new_book 2 5 AssembleiaGeral) = 0"
    "bk_page_capacity sample_book = Some 10" by code_simp+
  then show ?thesis
    using pages_never_exceed_capacity [OF sample_book_opened, of "[ReservePages 7, ReservePages 9, ConsumePages 3]"]
    by (simp del: run.simps)
qed

text \<open>
  Act one is granted seven of ten pages; another asks for nine and is refused, asks for two and
  is granted, converts one and gives one back, and the book is closed: the seven are still there.
\<close>

definition others_ops :: "book_op list" where
  "others_ops = [ReservePages 9, ReservePages 2, AssignNumber, ConsumePages 1, ReleasePages 1, CloseBook sample_encerramento]"

theorem reservation_always_honoured_witness:
  "is_ok (fst (consume_reserved_pages 7 (run book_exec others_ops (snd (reserve_pages 7 sample_book)))))"
proof -
  let ?g = "snd (reserve_pages 7 sample_book)"
  have "bk_pages_used (new_book 2 5 AssembleiaGeral) = 0" "bk_pages_reserved (new_book 2 5 AssembleiaGeral) = 0"
    by code_simp+
  then have inv: "opened_inv sample_book" using opened_without_pages [OF sample_book_opened] by simp
  have g: "reserve_pages 7 sample_book = (Ok (), ?g)" by code_simp
  have keep: "others_keep (unat (bk_pages_reserved sample_book)) others_ops ?g" by code_simp
  from reservation_always_honoured [OF inv g keep refl] show ?thesis by simp
qed

theorem ata_numbers_consecutive_witness:
  "map unat (assigned_numbers [AssignNumber, ReservePages 2, AssignNumber] sample_book) = [1, 2]"
proof -
  have n: "length (assigned_numbers [AssignNumber, ReservePages 2, AssignNumber] sample_book) = 2"
    by code_simp
  then have "length (assigned_numbers [AssignNumber, ReservePages 2, AssignNumber] sample_book) < 2 ^ 64"
    by (simp only: n) simp
  from ata_numbers_consecutive [OF sample_book_opened this]
  have "map unat (assigned_numbers [AssignNumber, ReservePages 2, AssignNumber] sample_book)
      = [1..<Suc (length (assigned_numbers [AssignNumber, ReservePages 2, AssignNumber] sample_book))]"
    by blast
  also have "\<dots> = [1, 2]" by (simp only: n) (simp add: upt_rec)
  finally show ?thesis .
qed

theorem closed_book_is_frozen_witness:
  "bk_state (run book_exec [AssignNumber] (snd (close_book sample_encerramento sample_book))) = Closed"
proof -
  have "close_book sample_encerramento sample_book
      = (Ok (), snd (close_book sample_encerramento sample_book))" by code_simp
  from closed_book_is_frozen [OF this] show ?thesis by blast
qed

theorem ata_sequence_check_exact_witness:
  "check_ata_sequence (\<lambda>_. ''u'') sample_book
     [(draft 1 2 ''a'' Physical)\<lparr>act_ata_number := Some 1\<rparr>, (draft 3 2 ''b'' Physical)\<lparr>act_ata_number := Some 1\<rparr>] \<noteq> []"
proof -
  have "\<not> distinct (map fst (numbered_acts sample_book
     [(draft 1 2 ''a'' Physical)\<lparr>act_ata_number := Some 1\<rparr>, (draft 3 2 ''b'' Physical)\<lparr>act_ata_number := Some 1\<rparr>]))"
    by code_simp
  then show ?thesis using ata_sequence_check_exact [of "\<lambda>_. ''u''" sample_book] by blast
qed

end
