(* ===== verification/Seal.thy ===== *)
theory Seal
  imports Ledger Book
begin

section \<open>Sealing\<close>

text \<open>
  \<open>src/crates/chancela-core/src/seal.rs\<close>: opening a book and sealing an act against the ledger, the
  payload that is digested, and the fixity check that re-derives a sealed act's digest from the
  ledger. An operation on \<open>&mut Book\<close>, \<open>&mut Act\<close> and \<open>&mut Ledger\<close> returns all three afterwards.

  Code outside the repository is a field of \<open>seal_env\<close>: the JSON serialiser on the two payloads
  (an error message or the bytes), and the text form of a UUID. A rule pack is the \<open>RulePack\<close>
  trait: its identifier and its check. The legal-basis references of an issue, which sealing does
  not read, are left out.
\<close>

datatype severity = Warning | ErrorSeverity

record compliance_issue =
  ci_rule_id :: string
  ci_severity :: severity
  ci_message :: string

record rule_pack =
  rp_id :: string
  rp_check_act :: "act \<Rightarrow> entity \<Rightarrow> compliance_issue list"

datatype seal_evidence =
    Digital (ev_snapshot_digest: string) (ev_signed_pdf_digest: string) (ev_report_digest: string)
  | Manual (ev_original_reference: manual_signature_original_reference)

record seal_outcome =
  so_ata_number :: u64
  so_event_seq :: u64
  so_payload_digest :: digest
  so_seal_metadata :: seal_metadata
  so_acknowledged_warnings :: "compliance_issue list"

datatype seal_error =
    SealBook book_error
  | SealAct act_error
  | ComplianceBlocked string
  | WarningsNotAcknowledged string
  | MissingManualSignatureOriginalReference
  | InvalidSignatureEvidence string
  | Serialize string

record act_payload =
  pl_act_id :: string
  pl_book_id :: string
  pl_title :: string
  pl_channel :: meeting_channel
  pl_meeting_date :: "date option"
  pl_place :: "string option"
  pl_attendance_reference :: "string option"
  pl_deliberations :: string
  pl_telematic_evidence :: "string option"
  pl_attachments :: "attachment list"
  pl_signatories :: "signatory_slot list"
  pl_retifies :: "string option"
  pl_meeting_time :: "time_of_day option"
  pl_mesa :: mesa
  pl_agenda :: "agenda_item list"
  pl_referenced_documents :: "document_reference list"
  pl_written_resolution_evidence :: "written_resolution_evidence option"
  pl_deliberation_items :: "deliberation_item list"
  pl_members_present :: "u32 option"
  pl_members_represented :: "u32 option"
  pl_convening :: "convening option"
  pl_attendees :: "attendee list option"
  pl_page_count :: "u32 option"
  pl_superseded_signing_snapshots :: "superseded_signing_snapshot list option"
  pl_convening_waiver :: "convening_waiver option"
  pl_body :: "act_body option"

record sealed_act_payload =
  sap_act :: act_payload
  sap_seal_metadata :: seal_metadata

record seal_env =
  led_env :: ledger_env
  uuid_text :: "u128 \<Rightarrow> string"
  serialize_sealed :: "sealed_act_payload \<Rightarrow> string + byte list"
  serialize_termo :: "termo_de_abertura \<Rightarrow> string + byte list"

subsection \<open>Evidence and payload\<close>

definition is_lower_hex :: "char \<Rightarrow> bool" where
  "is_lower_hex c \<longleftrightarrow> is_ascii_digit c \<or> 97 \<le> (of_char c :: nat) \<and> (of_char c :: nat) \<le> 102"

definition sha256_hex_error :: "string \<times> string \<Rightarrow> seal_error option" where
  "sha256_hex_error = (\<lambda>(field, value).
     if length value \<noteq> 64 \<or> \<not> list_all is_lower_hex value
     then Some (InvalidSignatureEvidence (field @ '' must be a lowercase SHA-256 hex digest''))
     else None)"

definition validate_evidence :: "seal_evidence \<Rightarrow> seal_error + unit" where
  "validate_evidence ev =
     (case ev of
        Digital snapshot pdf report \<Rightarrow>
          (case find_map sha256_hex_error
             [(''signing_snapshot_digest'', snapshot), (''signed_pdf_digest'', pdf),
              (''signature_validation_report_digest'', report)] of
             Some err \<Rightarrow> Err err
           | None \<Rightarrow> Ok ())
      | Manual reference \<Rightarrow>
          if is_blank (mo_storage_reference reference)
          then Err (InvalidSignatureEvidence ''manual signature storage reference must not be empty'')
          else Ok ())"

definition evidence_metadata :: "seal_evidence \<Rightarrow> string \<Rightarrow> entity \<Rightarrow> seal_metadata" where
  "evidence_metadata ev rule_pack_id e =
     (let metadata = new_seal_metadata rule_pack_id (ent_family e) (ent_kind e) in
      case ev of
        Digital snapshot pdf report \<Rightarrow> with_digital_signature_evidence metadata snapshot pdf report
      | Manual reference \<Rightarrow> with_manual_signature_original_reference metadata (Some reference))"

definition some_unless_empty :: "'a list \<Rightarrow> 'a list option" where
  "some_unless_empty xs = (if xs = [] then None else Some xs)"

definition act_payload_of :: "(u128 \<Rightarrow> string) \<Rightarrow> act \<Rightarrow> act_payload" where
  "act_payload_of show_id a =
     \<lparr>pl_act_id = show_id (act_id a), pl_book_id = show_id (act_book_id a), pl_title = act_title a,
      pl_channel = act_channel a, pl_meeting_date = act_meeting_date a, pl_place = act_place a,
      pl_attendance_reference = act_attendance_reference a, pl_deliberations = act_deliberations a,
      pl_telematic_evidence = act_telematic_evidence a, pl_attachments = act_attachments a,
      pl_signatories = act_signatories a, pl_retifies = map_option show_id (act_retifies a),
      pl_meeting_time = act_meeting_time a, pl_mesa = act_mesa a, pl_agenda = act_agenda a,
      pl_referenced_documents = act_referenced_documents a,
      pl_written_resolution_evidence = act_written_resolution_evidence a,
      pl_deliberation_items = act_deliberation_items a, pl_members_present = act_members_present a,
      pl_members_represented = act_members_represented a, pl_convening = act_convening a,
      pl_attendees = some_unless_empty (act_attendees a), pl_page_count = act_page_count a,
      pl_superseded_signing_snapshots = some_unless_empty (act_superseded_signing_snapshots a),
      pl_convening_waiver = act_convening_waiver a, pl_body = act_body_of a\<rparr>"

definition sealed_payload :: "seal_env \<Rightarrow> act \<Rightarrow> seal_metadata \<Rightarrow> string + byte list" where
  "sealed_payload env a metadata =
     serialize_sealed env \<lparr>sap_act = act_payload_of (uuid_text env) a, sap_seal_metadata = metadata\<rparr>"

definition sealed_act_digest :: "seal_env \<Rightarrow> act \<Rightarrow> digest option" where
  "sealed_act_digest env a =
     (case act_seal_metadata a of
        None \<Rightarrow> None
      | Some metadata \<Rightarrow> (case sealed_payload env a metadata of
          Inl _ \<Rightarrow> None
        | Inr payload \<Rightarrow> Some (digest_of (led_env env) payload)))"

subsection \<open>Anchors and fixity\<close>

definition SEAL_EVENT_KIND :: string where
  "SEAL_EVENT_KIND = ''act.sealed''"

type_synonym seal_anchors = "u64 \<rightharpoonup> digest"

definition anchors_from_events :: "event list \<Rightarrow> seal_anchors" where
  "anchors_from_events evs =
     fold (\<lambda>e m. m(ev_seq e \<mapsto> ev_payload_digest e)) (filter (\<lambda>e. ev_kind e = SEAL_EVENT_KIND) evs) Map.empty"

definition anchors_from_ledger :: "ledger \<Rightarrow> seal_anchors" where
  "anchors_from_ledger l = anchors_from_events (events l)"

datatype act_fixity =
    Unsealed
  | FixityVerified
  | Mismatch string string
  | LedgerAnchorMismatch string string "string option"
  | SealEventMissing "u64 option"
  | MissingPayloadDigest
  | AtaNumberMismatch u64 "u64 option"
  | Unverifiable string

definition fixity_is_broken :: "act_fixity \<Rightarrow> bool" where
  "fixity_is_broken f \<longleftrightarrow> (case f of
     Mismatch _ _ \<Rightarrow> True | AtaNumberMismatch _ _ \<Rightarrow> True | LedgerAnchorMismatch _ _ _ \<Rightarrow> True
   | SealEventMissing _ \<Rightarrow> True | MissingPayloadDigest \<Rightarrow> True | _ \<Rightarrow> False)"

text \<open>The last comparison: the digest re-derived from the act against the anchor.\<close>

definition digest_verdict :: "seal_env \<Rightarrow> act \<Rightarrow> digest \<Rightarrow> act_fixity" where
  "digest_verdict env a anchor =
     (case sealed_act_digest env a of
        Some actual \<Rightarrow>
          if actual = anchor then FixityVerified else Mismatch (hex_bytes anchor) (hex_bytes actual)
      | None \<Rightarrow> Unverifiable ''seal_preimage_not_serializable'')"

definition verify_act_fixity :: "seal_env \<Rightarrow> act \<Rightarrow> seal_anchors \<Rightarrow> act_fixity" where
  "verify_act_fixity env a anchors =
     (case act_payload_digest a of
        None \<Rightarrow> if act_state a \<in> {Sealed, Archived} then MissingPayloadDigest else Unsealed
      | Some row_digest \<Rightarrow>
          (case Option.bind (act_seal_event_seq a) anchors of
             None \<Rightarrow> SealEventMissing (act_seal_event_seq a)
           | Some anchor \<Rightarrow>
               if anchor \<noteq> row_digest
               then LedgerAnchorMismatch (hex_bytes anchor) (hex_bytes row_digest)
                      (map_option hex_bytes (sealed_act_digest env a))
               else case act_seal_metadata a of
                 None \<Rightarrow> Unverifiable ''sealed_act_has_no_seal_metadata''
               | Some metadata \<Rightarrow>
                   (case sm_ata_number metadata of
                      Some sealed \<Rightarrow>
                        if act_ata_number a \<noteq> Some sealed then AtaNumberMismatch sealed (act_ata_number a)
                        else digest_verdict env a anchor
                    | None \<Rightarrow> digest_verdict env a anchor)))"

subsection \<open>Opening and sealing\<close>

definition render_issue :: "compliance_issue \<Rightarrow> string" where
  "render_issue i = ''['' @ ci_rule_id i @ ''] '' @ ci_message i"

fun join_with :: "string \<Rightarrow> string list \<Rightarrow> string" where
  "join_with sep [] = []"
| "join_with sep [x] = x"
| "join_with sep (x # y # ys) = x @ sep @ join_with sep (y # ys)"

definition render_issues :: "compliance_issue list \<Rightarrow> string" where
  "render_issues issues = join_with ''; '' (map render_issue issues)"

definition book_scope :: "seal_env \<Rightarrow> entity \<Rightarrow> book \<Rightarrow> string" where
  "book_scope env e b = ''entity:'' @ uuid_text env (ent_id e) @ ''/book:'' @ uuid_text env (bk_id b)"

definition open_and_seal_book ::
  "seal_env \<Rightarrow> book \<Rightarrow> ledger \<Rightarrow> entity \<Rightarrow> termo_de_abertura \<Rightarrow> string \<Rightarrow> uuid \<Rightarrow> offset_date_time
     \<Rightarrow> (seal_error, u64, book \<times> ledger) call" where
  "open_and_seal_book env b l e termo actor new_id now =
     (case open_book termo b of
        (Inl err, b') \<Rightarrow> (Err (SealBook err), (b', l))
      | (Inr _, b') \<Rightarrow>
          (case serialize_termo env termo of
             Inl msg \<Rightarrow> (Err (Serialize msg), (b', l))
           | Inr payload \<Rightarrow>
               (let scope = (if ent_tenant_id e = DEFAULT_TENANT_ID then book_scope env e b'
                     else ''tenant:'' @ uuid_text env (ent_tenant_id e) @ ''/'' @ book_scope env e b');
                    (event, l') = append_event (led_env env) l new_id now actor scope ''book.opened'' None payload
                in (Ok (ev_seq event), (b', l')))))"

text \<open>The text \<open>ata n.\<close> is followed by U+00BA, two bytes in UTF-8.\<close>

definition seal_justification :: "u64 \<Rightarrow> string \<Rightarrow> string" where
  "seal_justification n rule_pack_id =
     ''seal ata n.'' @ [CHR 0xC2, CHR 0xBA] @ '' '' @ nat_decimal (unat n) @ '' ('' @ rule_pack_id @ '')''"

text \<open>The checks before anything is touched: evidence, book, state, compliance.\<close>

definition seal_refusal ::
  "seal_env \<Rightarrow> book \<Rightarrow> act \<Rightarrow> entity \<Rightarrow> rule_pack \<Rightarrow> bool \<Rightarrow> seal_evidence \<Rightarrow> seal_error option" where
  "seal_refusal env b a e pack acknowledge_warnings evidence =
     (case validate_evidence evidence of
        Inl err \<Rightarrow> Some err
      | Inr _ \<Rightarrow>
          if act_book_id a \<noteq> bk_id b
          then Some (SealBook (WrongBook (uuid_text env (act_book_id a)) (uuid_text env (bk_id b))))
          else if act_state a \<noteq> Signing then Some (SealAct (InvalidTransition (act_state a) Sealed))
          else
            (let issues = rp_check_act pack a e;
                 warnings = filter (\<lambda>i. ci_severity i = Warning) issues;
                 errors = filter (\<lambda>i. ci_severity i \<noteq> Warning) issues in
             if errors \<noteq> [] then Some (ComplianceBlocked (render_issues errors))
             else if warnings \<noteq> [] \<and> \<not> acknowledge_warnings
             then Some (WarningsNotAcknowledged (render_issues warnings))
             else None))"

definition seal_act_with_evidence ::
  "seal_env \<Rightarrow> book \<Rightarrow> act \<Rightarrow> ledger \<Rightarrow> entity \<Rightarrow> rule_pack \<Rightarrow> string \<Rightarrow> bool \<Rightarrow> seal_evidence
     \<Rightarrow> uuid \<Rightarrow> offset_date_time \<Rightarrow> (seal_error, seal_outcome, book \<times> act \<times> ledger) call" where
  "seal_act_with_evidence env b a l e pack actor acknowledge_warnings evidence new_id now =
     (case seal_refusal env b a e pack acknowledge_warnings evidence of
        Some err \<Rightarrow> (Err err, (b, a, l))
      | None \<Rightarrow>
          (let counter_before = bk_last_ata_number b in
           case assign_next_ata_number b of
             (Inl err, b') \<Rightarrow> (Err (SealBook err), (b', a, l))
           | (Inr ata_number, b') \<Rightarrow>
               (let metadata = with_ata_number (evidence_metadata evidence (rp_id pack) e) ata_number in
                case sealed_payload env a metadata of
                  Inl msg \<Rightarrow> (Err (Serialize msg), (b'\<lparr>bk_last_ata_number := counter_before\<rparr>, a, l))
                | Inr payload \<Rightarrow>
                    (let (event, l') = append_event (led_env env) l new_id now actor (book_scope env e b')
                           ''act.sealed'' (Some (seal_justification ata_number (rp_id pack))) payload in
                     case mark_sealed ata_number (ev_payload_digest event) (ev_seq event) metadata a of
                       (Inl err, a') \<Rightarrow> (Err (SealAct err), (b', a', l'))
                     | (Inr _, a') \<Rightarrow>
                         (Ok \<lparr>so_ata_number = ata_number, so_event_seq = ev_seq event,
                              so_payload_digest = ev_payload_digest event, so_seal_metadata = metadata,
                              so_acknowledged_warnings =
                                filter (\<lambda>i. ci_severity i = Warning) (rp_check_act pack a e)\<rparr>,
                          (b', a', l'))))))"

definition seal_act ::
  "seal_env \<Rightarrow> book \<Rightarrow> act \<Rightarrow> ledger \<Rightarrow> entity \<Rightarrow> rule_pack \<Rightarrow> string \<Rightarrow> bool
     \<Rightarrow> manual_signature_original_reference option \<Rightarrow> uuid \<Rightarrow> offset_date_time
     \<Rightarrow> (seal_error, seal_outcome, book \<times> act \<times> ledger) call" where
  "seal_act env b a l e pack actor acknowledge_warnings original new_id now =
     (case original of
        None \<Rightarrow> (Err MissingManualSignatureOriginalReference, (b, a, l))
      | Some reference \<Rightarrow>
          seal_act_with_evidence env b a l e pack actor acknowledge_warnings (Manual reference) new_id now)"

section \<open>What a seal guarantees\<close>

lemma assign_next_cases:
  obtains (closed) "bk_state b \<noteq> Open" "assign_next_ata_number b = (Err (NotOpen (bk_state b)), b)"
  | (assigned) "bk_state b = Open" "assign_next_ata_number b =
      (Ok (bk_last_ata_number b + 1), b\<lparr>bk_last_ata_number := bk_last_ata_number b + 1\<rparr>)"
  by (cases "bk_state b = Open") (auto simp: assign_next_ata_number_def)

lemma refusal_None_signing: "seal_refusal env b a e pack ack ev = None \<Longrightarrow> act_state a = Signing \<and> act_book_id a = bk_id b"
  by (auto simp: seal_refusal_def split: sum.splits if_splits)

text \<open>The pieces of a seal that succeeds.\<close>

lemma seal_success:
  assumes "seal_act_with_evidence env b a l e pack actor ack ev new_id now = (Ok out, (b', a', l'))"
  obtains metadata payload event where
    "seal_refusal env b a e pack ack ev = None" "bk_state b = Open"
    "metadata = with_ata_number (evidence_metadata ev (rp_id pack) e) (bk_last_ata_number b + 1)"
    "sealed_payload env a metadata = Inr payload"
    "b' = b\<lparr>bk_last_ata_number := bk_last_ata_number b + 1\<rparr>"
    "append_at (led_env env) l new_id actor (book_scope env e b) ''act.sealed''
       (Some (seal_justification (bk_last_ata_number b + 1) (rp_id pack))) payload now = (event, l')"
    "mark_sealed (bk_last_ata_number b + 1) (ev_payload_digest event) (ev_seq event) metadata a = (Ok (), a')"
    "so_ata_number out = bk_last_ata_number b + 1" "so_event_seq out = ev_seq event"
    "so_payload_digest out = ev_payload_digest event" "so_seal_metadata out = metadata"
  using assms
  by (cases b rule: assign_next_cases)
    (auto simp: seal_act_with_evidence_def append_event_def book_scope_def Let_def
      split: option.splits sum.splits prod.splits)

text \<open>
  C8: a refused seal changes nothing. Whatever the reason, invalid evidence, wrong book, wrong
  state, compliance, a closed book, a payload that does not serialise, the book with its ata
  counter, the act and the ledger are as they were.
\<close>

theorem seal_failure_changes_nothing:
  assumes "seal_act_with_evidence env b a l e pack actor ack ev new_id now = (Err err, s)"
  shows "s = (b, a, l)"
proof (cases "seal_refusal env b a e pack ack ev")
  case (Some err')
  with assms show ?thesis by (simp add: seal_act_with_evidence_def)
next
  case None
  then have signing: "act_state a = Signing" using refusal_None_signing by blast
  have same: "b\<lparr>bk_last_ata_number := bk_last_ata_number b\<rparr> = b" by simp
  show ?thesis
    using assms None signing same
    by (cases b rule: assign_next_cases)
      (auto simp: seal_act_with_evidence_def mark_sealed_def Let_def
        split: sum.splits prod.splits)
qed

lemma sealed_payload_cong:
  "act_payload_of (uuid_text env) a = act_payload_of (uuid_text env) a' \<Longrightarrow>
     sealed_payload env a m = sealed_payload env a' m"
  by (simp add: sealed_payload_def)

lemma mark_sealed_payload:
  "mark_sealed n d q m a = (Ok (), a') \<Longrightarrow> act_payload_of show_id a' = act_payload_of show_id a
     \<and> act_state a' = Sealed \<and> act_ata_number a' = Some n \<and> act_payload_digest a' = Some d
     \<and> act_seal_event_seq a' = Some q \<and> act_seal_metadata a' = Some m"
  by (auto simp: mark_sealed_def act_payload_of_def split: if_splits)

lemma anchors_snoc:
  "anchors_from_events (evs @ [e]) =
     (if ev_kind e = SEAL_EVENT_KIND then (anchors_from_events evs)(ev_seq e \<mapsto> ev_payload_digest e)
      else anchors_from_events evs)"
  by (simp add: anchors_from_events_def)

text \<open>What the fixity check needs in order to say \<open>Verified\<close>.\<close>

lemma fixity_verified_iff:
  "verify_act_fixity env a anchors = FixityVerified \<longleftrightarrow>
     (\<exists>q d m. act_payload_digest a = Some d \<and> act_seal_event_seq a = Some q \<and> anchors q = Some d
        \<and> act_seal_metadata a = Some m \<and> (sm_ata_number m = None \<or> act_ata_number a = sm_ata_number m)
        \<and> sealed_act_digest env a = Some d)"
  by (auto simp: verify_act_fixity_def digest_verdict_def bind_eq_Some_conv bind_eq_None_conv
      split: option.splits if_splits)

text \<open>
  C7: what a seal produces. The act gets the book's next ata number, which is bound into the
  digested metadata; one \<open>act.sealed\<close> event is appended to the ledger, its payload digest and
  position recorded on the act; and the fixity check against the new ledger verifies the act.
\<close>

theorem seal_outcome_verified:
  assumes "seal_act_with_evidence env b a l e pack actor ack ev new_id now = (Ok out, (b', a', l'))"
  shows "so_ata_number out = bk_last_ata_number b + 1 \<and> bk_last_ata_number b' = bk_last_ata_number b + 1
    \<and> act_state a' = Sealed \<and> act_ata_number a' = Some (so_ata_number out)
    \<and> sm_ata_number (so_seal_metadata out) = Some (so_ata_number out)
    \<and> (\<exists>event. events l' = events l @ [event] \<and> ev_kind event = SEAL_EVENT_KIND
         \<and> ev_payload_digest event = so_payload_digest out \<and> ev_seq event = so_event_seq out)
    \<and> verify_act_fixity env a' (anchors_from_ledger l') = FixityVerified"
proof -
  obtain metadata payload event where
    s: "metadata = with_ata_number (evidence_metadata ev (rp_id pack) e) (bk_last_ata_number b + 1)"
    "sealed_payload env a metadata = Inr payload"
    "b' = b\<lparr>bk_last_ata_number := bk_last_ata_number b + 1\<rparr>"
    and app: "append_at (led_env env) l new_id actor (book_scope env e b) ''act.sealed''
       (Some (seal_justification (bk_last_ata_number b + 1) (rp_id pack))) payload now = (event, l')"
    and mark: "mark_sealed (bk_last_ata_number b + 1) (ev_payload_digest event) (ev_seq event) metadata a
       = (Ok (), a')"
    and out: "so_ata_number out = bk_last_ata_number b + 1" "so_event_seq out = ev_seq event"
    "so_payload_digest out = ev_payload_digest event" "so_seal_metadata out = metadata"
    by (rule seal_success [OF assms]) blast
  note ev = append_at_event [OF app] and act = mark_sealed_payload [OF mark, of "uuid_text env"]
  have anchor: "anchors_from_ledger l' (ev_seq event) = Some (ev_payload_digest event)"
    using ev by (simp add: anchors_from_ledger_def anchors_snoc SEAL_EVENT_KIND_def)
  have "sealed_payload env a' metadata = Inr payload" using s(2) act sealed_payload_cong by metis
  then have "sealed_act_digest env a' = Some (ev_payload_digest event)"
    using act ev by (simp add: sealed_act_digest_def)
  moreover have "sm_ata_number metadata = Some (bk_last_ata_number b + 1)"
    by (simp add: s(1) with_ata_number_def)
  ultimately have "verify_act_fixity env a' (anchors_from_ledger l') = FixityVerified"
    using act anchor by (simp add: fixity_verified_iff)
  with s(3) act out ev \<open>sm_ata_number metadata = _\<close> show ?thesis by (auto simp: SEAL_EVENT_KIND_def)
qed

subsection \<open>Fixity over time\<close>

lemma anchors_from_events_Some:
  "anchors_from_events evs q = Some d \<Longrightarrow> \<exists>e \<in> set evs. ev_seq e = q"
  by (induction evs rule: rev_induct)
    (auto simp: anchors_snoc anchors_from_events_def [of "[]"] split: if_splits)

lemma spine_seq_fresh:
  assumes "spine_linked env evs" and "e \<in> set evs" and "length evs < 2 ^ 64"
  shows "ev_seq e \<noteq> of_nat (length evs)"
proof -
  obtain i where i: "i < length evs" "ev_seq e = of_nat i"
    using assms(1, 2) by (auto simp: spine_linked_def linked_def in_set_conv_nth)
  then have "unat (of_nat i :: u64) = i" "unat (of_nat (length evs) :: u64) = length evs"
    using assms(3) by (simp_all add: unat_of_nat)
  with i show ?thesis by (metis nat_less_le)
qed

lemma fixity_verified_archive:
  assumes "verify_act_fixity env a anchors = FixityVerified"
  shows "verify_act_fixity env (snd (archive_act a)) anchors = FixityVerified"
proof -
  have "sealed_act_digest env (snd (archive_act a)) = sealed_act_digest env a"
    by (simp add: archive_act_def sealed_act_digest_def sealed_payload_def act_payload_of_def
        cong: option.case_cong)
  then show ?thesis using assms by (auto simp: fixity_verified_iff archive_act_def)
qed

text \<open>
  C10: a verified seal stays verified. On a ledger whose spine verifies and which has fewer than 2 to the
  64th events, appending any event and archiving the act leave the fixity verdict \<open>Verified\<close>. (On a ledger that
  lost events the new sequence number can be one already anchored, so the spine has to verify.)
\<close>

theorem fixity_survives:
  assumes "verify_act_fixity env a (anchors_from_ledger l) = FixityVerified"
    and "is_ok (verify_chain (led_env env) l Global)" and "length (events l) < 2 ^ 64"
    and "append_event (led_env env) l i now actor scope kind j payload = (event, l')"
  shows "verify_act_fixity env a (anchors_from_ledger l') = FixityVerified
    \<and> verify_act_fixity env (snd (archive_act a)) (anchors_from_ledger l') = FixityVerified"
proof -
  obtain q d m where v: "act_payload_digest a = Some d" "act_seal_event_seq a = Some q"
    "anchors_from_ledger l q = Some d" "act_seal_metadata a = Some m"
    "sm_ata_number m = None \<or> act_ata_number a = sm_ata_number m" "sealed_act_digest env a = Some d"
    using assms(1) by (auto simp: fixity_verified_iff)
  have spine: "spine_linked (led_env env) (events l)"
    using assms(2) by (auto simp: verify_chain_def is_ok_iff verify_global_spec)
  obtain e where "e \<in> set (events l)" "ev_seq e = q"
    using anchors_from_events_Some v(3) unfolding anchors_from_ledger_def by blast
  then have "q \<noteq> of_nat (length (events l))" using spine_seq_fresh [OF spine _ assms(3)] by blast
  moreover have app: "append_at (led_env env) l i actor scope kind j payload now = (event, l')"
    using assms(4) by (simp add: append_event_def)
  ultimately have "anchors_from_ledger l' q = Some d"
    using append_at_event(1, 3) [OF app] v(3) by (simp add: anchors_from_ledger_def anchors_snoc)
  then have "verify_act_fixity env a (anchors_from_ledger l') = FixityVerified"
    using v by (auto simp: fixity_verified_iff)
  then show ?thesis using fixity_verified_archive by blast
qed

text \<open>
  C9: an act cannot be rewritten behind its seal. If two versions of an act both verify against
  the same seal event, then they agree on the whole digested payload, the seal metadata and the
  ata number bound there, or their two serialised payloads are a SHA-256 collision. The
  hypothesis is that the serialiser writes different payloads differently.
\<close>

theorem sealed_act_tamper_evident:
  assumes "verify_act_fixity env a anchors = FixityVerified"
    and "verify_act_fixity env a' anchors = FixityVerified"
    and "act_seal_event_seq a = act_seal_event_seq a'"
    and "\<And>x y p. serialize_sealed env x = Inr p \<Longrightarrow> serialize_sealed env y = Inr p \<Longrightarrow> x = y"
  shows "(act_payload_of (uuid_text env) a = act_payload_of (uuid_text env) a'
      \<and> act_seal_metadata a = act_seal_metadata a')
    \<or> (\<exists>m m' p p'. act_seal_metadata a = Some m \<and> act_seal_metadata a' = Some m'
        \<and> sealed_payload env a m = Inr p \<and> sealed_payload env a' m' = Inr p'
        \<and> p \<noteq> p' \<and> sha256 (led_env env) p = sha256 (led_env env) p')"
proof -
  obtain q d m where v: "act_seal_event_seq a = Some q" "anchors q = Some d"
    "act_seal_metadata a = Some m" "sealed_act_digest env a = Some d"
    using assms(1) by (auto simp: fixity_verified_iff)
  obtain m' where v': "act_seal_metadata a' = Some m'" "sealed_act_digest env a' = Some d"
    using assms(2, 3) v by (auto simp: fixity_verified_iff)
  obtain p p' where p: "sealed_payload env a m = Inr p" "sealed_payload env a' m' = Inr p'"
    "sha256 (led_env env) p = d" "sha256 (led_env env) p' = d"
    using v v' by (auto simp: sealed_act_digest_def digest_of_def split: sum.splits)
  show ?thesis
  proof (cases "p = p'")
    case True
    with p assms(4) have "\<lparr>sap_act = act_payload_of (uuid_text env) a, sap_seal_metadata = m\<rparr>
        = \<lparr>sap_act = act_payload_of (uuid_text env) a', sap_seal_metadata = m'\<rparr>"
      unfolding sealed_payload_def by blast
    with v v' show ?thesis by simp
  next
    case False
    with p v v' show ?thesis by auto
  qed
qed

subsection \<open>The ledger under sealing\<close>

lemma split_book_scope:
  "CHR ''/'' \<notin> set x \<Longrightarrow> CHR ''/'' \<notin> set y \<Longrightarrow>
     split_on (CHR ''/'') (''entity:'' @ x @ ''/book:'' @ y) = [''entity:'' @ x, ''book:'' @ y]"
  using split_on_join [of "CHR ''/''" "''entity:'' @ x" "''book:'' @ y"]
    split_on_free [of "CHR ''/''" "''book:'' @ y"] by simp

lemma memberships_book_scope:
  assumes "CHR ''/'' \<notin> set x" and "CHR ''/'' \<notin> set y" and "x \<noteq> []" and "y \<noteq> []"
  shows "set (memberships u (''entity:'' @ x @ ''/book:'' @ y) k) = {Company x, chain_id.Book y}"
  using split_book_scope [OF assms(1, 2)] assms(3, 4)
  by (auto simp: set_memberships nonempty_segment_def segment_value_def)

definition uuid_text_ok :: "seal_env \<Rightarrow> bool" where
  "uuid_text_ok env \<longleftrightarrow> (\<forall>u. uuid_text env u \<noteq> [] \<and> CHR ''/'' \<notin> set (uuid_text env u))"

text \<open>
  C11: sealing into an open book keeps the ledger sound. On a ledger that verifies and records
  the entity and the book, every seal that succeeds leaves a ledger that verifies; the text form
  of a UUID is not empty and has no slash.
\<close>

theorem seal_keeps_ledger_verified:
  assumes "seal_act_with_evidence env b a l e pack actor ack ev new_id now = (Ok out, (b', a', l'))"
    and "links_canonical (events l)" and "is_ok (verify (led_env env) l)" and "uuid_text_ok env"
    and "chain_heads l (Company (uuid_text env (ent_id e))) \<noteq> None"
    and "chain_heads l (chain_id.Book (uuid_text env (bk_id b))) \<noteq> None"
  shows "is_ok (verify (led_env env) l')"
proof -
  obtain payload event where
    app: "append_at (led_env env) l new_id actor (book_scope env e b) ''act.sealed''
       (Some (seal_justification (bk_last_ata_number b + 1) (rp_id pack))) payload now = (event, l')"
    by (rule seal_success [OF assms(1)]) blast
  have "set (memberships (uuid_parses (led_env env)) (book_scope env e b) ''act.sealed'')
      = {Company (uuid_text env (ent_id e)), chain_id.Book (uuid_text env (bk_id b))}"
    unfolding book_scope_def by (rule memberships_book_scope) (use assms(4) in \<open>auto simp: uuid_text_ok_def\<close>)
  then show ?thesis using append_at_verify [OF app assms(2)] assms(3, 5, 6) by simp
qed

lemma open_and_seal_ledger:
  assumes "open_and_seal_book env b l e termo actor new_id now = (Ok seq, (b', l'))"
    and "ent_tenant_id e = DEFAULT_TENANT_ID"
    and "links_canonical (events l)" and "is_ok (verify (led_env env) l)" and "uuid_text_ok env"
    and "chain_heads l (Company (uuid_text env (ent_id e))) \<noteq> None"
  shows "is_ok (verify (led_env env) l')" "links_canonical (events l')"
    "chain_heads l' (chain_id.Book (uuid_text env (bk_id b))) \<noteq> None"
    "chain_heads l' (Company (uuid_text env (ent_id e))) \<noteq> None"
    "bk_id b' = bk_id b" "bk_entity_id b' = bk_entity_id b" "bk_state b' = Open" "bk_termo_abertura b' = Some termo"
proof -
  have opened: "open_book termo b = (Ok (), b')"
    using assms(1) by (auto simp: open_and_seal_book_def Let_def split: sum.splits prod.splits)
  then show b': "bk_id b' = bk_id b" "bk_entity_id b' = bk_entity_id b" "bk_state b' = Open" "bk_termo_abertura b' = Some termo"
    by (auto simp: open_book_def Let_def split: option.splits if_splits)
  obtain payload event where
    app: "append_at (led_env env) l new_id actor (book_scope env e b) ''book.opened'' None payload now = (event, l')"
    using assms(1, 2) opened b'(1)
    by (auto simp: open_and_seal_book_def append_event_def book_scope_def Let_def split: sum.splits prod.splits)
  have m: "set (memberships (uuid_parses (led_env env)) (book_scope env e b) ''book.opened'')
      = {Company (uuid_text env (ent_id e)), chain_id.Book (uuid_text env (bk_id b))}"
    unfolding book_scope_def by (rule memberships_book_scope) (use assms(5) in \<open>auto simp: uuid_text_ok_def\<close>)
  show "is_ok (verify (led_env env) l')"
    using append_at_verify [OF app assms(3)] assms(4, 6) m by (simp add: genesis_fits_def)
  show "links_canonical (events l')" using append_at_canonical [OF app] assms(3) by simp
  have "c \<in> ln_chain ` set (ev_links event)"
    if "c = chain_id.Book (uuid_text env (bk_id b)) \<or> c = Company (uuid_text env (ent_id e))" for c
    using append_at_event(2) [OF app] m that by (auto simp: image_image)
  then have "chain_heads l' c \<noteq> None"
    if "c = chain_id.Book (uuid_text env (bk_id b)) \<or> c = Company (uuid_text env (ent_id e))" for c
    using append_at_event(1, 2) [OF app] chain_link_of_None [of _ event] that
    by (auto simp: chain_heads_eq insert_link_heads_apply comp_def split: option.splits)
  then show "chain_heads l' (chain_id.Book (uuid_text env (bk_id b))) \<noteq> None"
    "chain_heads l' (Company (uuid_text env (ent_id e))) \<noteq> None"
    by simp_all
qed

text \<open>
  opening a book is its genesis. For an entity of the default tenant that the ledger records,
  with a book it does not know yet, opening through a ledger that verifies leaves a ledger that
  verifies, in which the book's chain exists, and the book is open with the given instrument.
\<close>

theorem open_book_is_genesis:
  assumes "open_and_seal_book env b l e termo actor new_id now = (Ok seq, (b', l'))"
    and "ent_tenant_id e = DEFAULT_TENANT_ID"
    and "links_canonical (events l)" and "is_ok (verify (led_env env) l)" and "uuid_text_ok env"
    and "chain_heads l (Company (uuid_text env (ent_id e))) \<noteq> None"
  shows "is_ok (verify (led_env env) l')
    \<and> chain_heads l' (chain_id.Book (uuid_text env (bk_id b))) \<noteq> None
    \<and> bk_state b' = Open \<and> bk_termo_abertura b' = Some termo"
  using open_and_seal_ledger [OF assms] by blast

section \<open>Evaluated instances\<close>

definition sample_seal_env :: "(sealed_act_payload \<Rightarrow> string + byte list) \<Rightarrow> seal_env" where
  "sample_seal_env ser = \<lparr>led_env = sample_env, uuid_text = (\<lambda>_. ''u''), serialize_sealed = ser,
     serialize_termo = (\<lambda>_. Inr [7])\<rparr>"

definition plain_seal_env :: seal_env where
  "plain_seal_env = sample_seal_env (\<lambda>_. Inr [1])"

definition sample_entity :: entity where
  "sample_entity = new_entity 5 ''Lda'' (unvalidated_nipc ''1'') ''Porto'' SociedadePorQuotas"

definition entity_ledger :: ledger where
  "entity_ledger = snd (append_event sample_env ledger_new 1 sample_time ''ana'' ''entity:u'' ''entity.created'' None [])"

definition sample_opening :: "(seal_error, u64, book \<times> ledger) call" where
  "sample_opening = open_and_seal_book plain_seal_env (new_book 2 5 AssembleiaGeral) entity_ledger sample_entity
     sample_abertura ''ana'' 2 sample_time"

definition opened_sample_book :: book where "opened_sample_book = fst (snd sample_opening)"

definition opened_ledger :: ledger where "opened_ledger = snd (snd sample_opening)"

definition signing_act :: act where
  "signing_act = (draft 1 2 ''ata'' Physical)\<lparr>act_state := Signing\<rparr>"

definition clean_pack :: rule_pack where
  "clean_pack = \<lparr>rp_id = ''csc/v2'', rp_check_act = (\<lambda>_ _. [])\<rparr>"

definition sample_evidence :: seal_evidence where
  "sample_evidence = Manual \<lparr>mo_storage_reference = ''archive'', mo_custodian = None, mo_note = None\<rparr>"

definition sealing :: "seal_env \<Rightarrow> (seal_error, seal_outcome, book \<times> act \<times> ledger) call" where
  "sealing env = seal_act_with_evidence env opened_sample_book signing_act opened_ledger sample_entity
     clean_pack ''ana'' False sample_evidence 3 sample_time"

lemma call_eq_Ok: "is_ok (fst c) \<Longrightarrow> \<exists>x y z w. c = (Ok x, (y, z, w))"
  by (cases c) (auto simp: is_ok_iff)

lemma sealing_ok: "is_ok (fst (sealing plain_seal_env))"
  by code_simp

lemma sample_opening_ok: "sample_opening = (Ok 1, (opened_sample_book, opened_ledger))"
proof -
  have "fst sample_opening = Ok 1" by code_simp
  then show ?thesis by (simp add: prod_eq_iff opened_sample_book_def opened_ledger_def)
qed

lemma opened_ledger_sound:
  "links_canonical (events opened_ledger)" "is_ok (verify (led_env plain_seal_env) opened_ledger)"
  "chain_heads opened_ledger (Company ''u'') \<noteq> None" "chain_heads opened_ledger (chain_id.Book ''u'') \<noteq> None"
  by code_simp+

lemma plain_uuid_text: "uuid_text_ok plain_seal_env" "uuid_text plain_seal_env = (\<lambda>_. ''u'')"
  by (simp_all add: uuid_text_ok_def plain_seal_env_def sample_seal_env_def)

theorem open_book_is_genesis_witness: "is_ok (verify (led_env plain_seal_env) opened_ledger)"
proof -
  have "links_canonical (events entity_ledger)" "is_ok (verify (led_env plain_seal_env) entity_ledger)"
    "chain_heads entity_ledger (Company ''u'') \<noteq> None" "ent_tenant_id sample_entity = DEFAULT_TENANT_ID"
    by code_simp+
  then show ?thesis
    using open_book_is_genesis [OF sample_opening_ok [unfolded sample_opening_def]] plain_uuid_text by simp
qed

theorem seal_keeps_ledger_verified_witness:
  "is_ok (verify (led_env plain_seal_env) (snd (snd (snd (sealing plain_seal_env)))))"
proof -
  obtain out b a l where s: "sealing plain_seal_env = (Ok out, (b, a, l))"
    using call_eq_Ok [OF sealing_ok] by blast
  show ?thesis
    using seal_keeps_ledger_verified [OF s [unfolded sealing_def] opened_ledger_sound(1, 2) plain_uuid_text(1)]
      opened_ledger_sound(3, 4) plain_uuid_text(2) by (simp add: s)
qed

theorem seal_outcome_verified_witness:
  "act_ata_number (fst (snd (snd (sealing plain_seal_env)))) = Some 1"
proof -
  obtain out b a l where s: "sealing plain_seal_env = (Ok out, (b, a, l))"
    using call_eq_Ok [OF sealing_ok] by blast
  have "bk_last_ata_number opened_sample_book = 0" by code_simp
  with seal_outcome_verified [OF s [unfolded sealing_def]] show ?thesis by (simp add: s)
qed

theorem seal_failure_changes_nothing_witness:
  "seal_act_with_evidence plain_seal_env opened_sample_book (draft 1 2 ''ata'' Physical) opened_ledger
     sample_entity clean_pack ''ana'' False sample_evidence 3 sample_time
   = (Err (SealAct (InvalidTransition Draft Sealed)), (opened_sample_book, draft 1 2 ''ata'' Physical, opened_ledger))"
proof -
  let ?c = "seal_act_with_evidence plain_seal_env opened_sample_book (draft 1 2 ''ata'' Physical) opened_ledger
     sample_entity clean_pack ''ana'' False sample_evidence 3 sample_time"
  have "fst ?c = Err (SealAct (InvalidTransition Draft Sealed))" by code_simp
  then have "?c = (Err (SealAct (InvalidTransition Draft Sealed)), snd ?c)" by (simp add: prod_eq_iff)
  with seal_failure_changes_nothing [OF this] show ?thesis by simp
qed

text \<open>The act and ledger after the sample seal.\<close>

definition sealed_act :: act where "sealed_act = fst (snd (snd (sealing plain_seal_env)))"

definition sealed_ledger :: ledger where "sealed_ledger = snd (snd (snd (sealing plain_seal_env)))"

lemma sealed_act_verified:
  "verify_act_fixity plain_seal_env sealed_act (anchors_from_ledger sealed_ledger) = FixityVerified"
  by code_simp

theorem fixity_survives_witness:
  "verify_act_fixity plain_seal_env (snd (archive_act sealed_act))
     (anchors_from_ledger (snd (append_event sample_env sealed_ledger 4 sample_time ''rui'' ''settings'' ''x'' None [])))
   = FixityVerified"
proof -
  have "is_ok (verify_chain (led_env plain_seal_env) sealed_ledger Global)" by code_simp
  moreover have "length (events sealed_ledger) = 3" by code_simp
  then have "length (events sealed_ledger) < 2 ^ 64" by simp
  moreover have "led_env plain_seal_env = sample_env" by (simp add: plain_seal_env_def sample_seal_env_def)
  ultimately show ?thesis
    using fixity_survives [OF sealed_act_verified, of 4 sample_time "''rui''" "''settings''" "''x''" None "[]"]
    by (metis prod.collapse)
qed

text \<open>A serialiser that accepts the one payload of the sample act, and so confuses no two.\<close>

definition picky_seal_env :: seal_env where
  "picky_seal_env = sample_seal_env (\<lambda>p.
     if sap_act p = act_payload_of (\<lambda>_. ''u'') sealed_act \<and> Some (sap_seal_metadata p) = act_seal_metadata sealed_act
     then Inr [1] else Inl ''unknown'')"

theorem sealed_act_tamper_evident_witness:
  "act_payload_of (uuid_text picky_seal_env) sealed_act = act_payload_of (uuid_text picky_seal_env) (snd (archive_act sealed_act))
   \<or> (\<exists>m m' p p'. act_seal_metadata sealed_act = Some m \<and> act_seal_metadata (snd (archive_act sealed_act)) = Some m'
        \<and> sealed_payload picky_seal_env sealed_act m = Inr p
        \<and> sealed_payload picky_seal_env (snd (archive_act sealed_act)) m' = Inr p'
        \<and> p \<noteq> p' \<and> sha256 (led_env picky_seal_env) p = sha256 (led_env picky_seal_env) p')"
proof -
  obtain m where m: "act_seal_metadata sealed_act = Some m"
    using sealed_act_verified by (auto simp: fixity_verified_iff)
  then have "sealed_act_digest picky_seal_env sealed_act = sealed_act_digest plain_seal_env sealed_act"
    by (simp add: sealed_act_digest_def sealed_payload_def picky_seal_env_def plain_seal_env_def sample_seal_env_def)
  then have v: "verify_act_fixity picky_seal_env sealed_act (anchors_from_ledger sealed_ledger) = FixityVerified"
    using sealed_act_verified by (simp add: fixity_verified_iff)
  moreover have v': "verify_act_fixity picky_seal_env (snd (archive_act sealed_act)) (anchors_from_ledger sealed_ledger) = FixityVerified"
    by (rule fixity_verified_archive [OF v])
  moreover have "act_seal_event_seq sealed_act = act_seal_event_seq (snd (archive_act sealed_act))"
    by (simp add: archive_act_def)
  moreover have "x = y" if "serialize_sealed picky_seal_env x = Inr p" "serialize_sealed picky_seal_env y = Inr p" for x y p
    using that by (cases x, cases y)
      (simp add: picky_seal_env_def sample_seal_env_def m split: if_splits)
  ultimately show ?thesis using sealed_act_tamper_evident by blast
qed

end
