(* ===== verification/Fixity_Report.thy ===== *)
theory Fixity_Report
  imports Seal "HOL-Library.Product_Lexorder" "HOL-Library.Option_ord" "HOL-Library.Multiset"
begin

section \<open>The fixity report over a corpus\<close>

text \<open>
  \<open>src/crates/chancela-core/src/seal.rs\<close>, \<open>ActFixityReport\<close>: every stored act re-verified against the
  anchors of the ledger and the ata numbering of every book. The counters are 64-bit; the findings are
  sorted by book, number and act, as the derived order of tuples, options and strings has it.
\<close>

record act_fixity_finding =
  ff_act_id :: string
  ff_book_id :: string
  ff_ata_number :: "u64 option"
  ff_fixity :: act_fixity

record book_ata_sequence_finding =
  bf_book_id :: string
  bf_issue :: ata_sequence_issue

record act_fixity_report =
  healthy :: bool
  sealed_checked :: u64
  verified :: u64
  broken :: u64
  unverifiable :: u64
  findings :: "act_fixity_finding list"
  ata_sequence :: "book_ata_sequence_finding list"

definition default_report :: act_fixity_report where
  "default_report = \<lparr>healthy = True, sealed_checked = 0, verified = 0, broken = 0, unverifiable = 0,
     findings = [], ata_sequence = []\<rparr>"

definition report_finding :: "seal_env \<Rightarrow> act \<Rightarrow> act_fixity \<Rightarrow> act_fixity_finding" where
  "report_finding env a fixity = \<lparr>ff_act_id = uuid_text env (act_id a), ff_book_id = uuid_text env (act_book_id a),
     ff_ata_number = act_ata_number a, ff_fixity = fixity\<rparr>"

definition report_act :: "seal_env \<Rightarrow> seal_anchors \<Rightarrow> act \<Rightarrow> act_fixity_report \<Rightarrow> act_fixity_report" where
  "report_act env anchors a report =
     (let fixity = verify_act_fixity env a anchors in
      if fixity = Unsealed then report
      else
        (let report = report\<lparr>sealed_checked := sealed_checked report + 1\<rparr> in
         case fixity of
           FixityVerified \<Rightarrow> report\<lparr>verified := verified report + 1\<rparr>
         | Unverifiable _ \<Rightarrow> report\<lparr>unverifiable := unverifiable report + 1,
             findings := findings report @ [report_finding env a fixity]\<rparr>
         | _ \<Rightarrow> report\<lparr>broken := broken report + 1, healthy := False,
             findings := findings report @ [report_finding env a fixity]\<rparr>))"

definition finding_order :: "act_fixity_finding \<Rightarrow> string \<times> u64 option \<times> string" where
  "finding_order f = (ff_book_id f, ff_ata_number f, ff_act_id f)"

definition report_issue :: "seal_env \<Rightarrow> book \<Rightarrow> ata_sequence_issue \<Rightarrow> act_fixity_report \<Rightarrow> act_fixity_report" where
  "report_issue env b issue report =
     report\<lparr>healthy := healthy report \<and> \<not> is_uniqueness_violation issue,
       ata_sequence := ata_sequence report @ [\<lparr>bf_book_id = uuid_text env (bk_id b), bf_issue = issue\<rparr>]\<rparr>"

definition report_book :: "seal_env \<Rightarrow> act list \<Rightarrow> book \<Rightarrow> act_fixity_report \<Rightarrow> act_fixity_report" where
  "report_book env acts b = fold (report_issue env b) (check_ata_sequence (uuid_text env) b acts)"

definition build_report :: "seal_env \<Rightarrow> act list \<Rightarrow> book list \<Rightarrow> seal_anchors \<Rightarrow> act_fixity_report" where
  "build_report env acts books anchors =
     (let report = fold (report_act env anchors) acts default_report;
          report = report\<lparr>findings := sort_key finding_order (findings report)\<rparr>;
          report = fold (report_book env acts) books report in
      report\<lparr>ata_sequence := sort_key bf_book_id (ata_sequence report)\<rparr>)"

definition fully_verified :: "act_fixity_report \<Rightarrow> bool" where
  "fully_verified report \<longleftrightarrow> healthy report \<and> unverifiable report = 0"

section \<open>What the report says\<close>

lemma uniqueness_violation_iff:
  "(\<exists>i \<in> set (check_ata_sequence id_text b acts). is_uniqueness_violation i) \<longleftrightarrow>
     \<not> distinct (map fst (numbered_acts b acts))"
  using ata_sequence_check_exact by blast

text \<open>The acts by verdict.\<close>

definition with_verdict :: "seal_env \<Rightarrow> seal_anchors \<Rightarrow> (act_fixity \<Rightarrow> bool) \<Rightarrow> act list \<Rightarrow> act list" where
  "with_verdict env anchors P acts = filter (\<lambda>a. P (verify_act_fixity env a anchors)) acts"

definition is_unverifiable :: "act_fixity \<Rightarrow> bool" where
  "is_unverifiable f \<longleftrightarrow> (case f of Unverifiable _ \<Rightarrow> True | _ \<Rightarrow> False)"

lemma with_verdict_simps [simp]:
  "with_verdict env anchors P [] = []"
  "with_verdict env anchors P (a # acts) =
     (if P (verify_act_fixity env a anchors) then a # with_verdict env anchors P acts else with_verdict env anchors P acts)"
  by (simp_all add: with_verdict_def)

lemma fold_report_act:
  fixes acts anchors env
  defines "tally P \<equiv> of_nat (length (with_verdict env anchors P acts))"
  shows "healthy (fold (report_act env anchors) acts r) \<longleftrightarrow> healthy r \<and> with_verdict env anchors fixity_is_broken acts = []"
    "sealed_checked (fold (report_act env anchors) acts r) = sealed_checked r + tally (\<lambda>f. f \<noteq> Unsealed)"
    "verified (fold (report_act env anchors) acts r) = verified r + tally (\<lambda>f. f = FixityVerified)"
    "broken (fold (report_act env anchors) acts r) = broken r + tally fixity_is_broken"
    "unverifiable (fold (report_act env anchors) acts r) = unverifiable r + tally is_unverifiable"
    "findings (fold (report_act env anchors) acts r) = findings r
       @ map (\<lambda>a. report_finding env a (verify_act_fixity env a anchors))
           (with_verdict env anchors (\<lambda>f. f \<noteq> Unsealed \<and> f \<noteq> FixityVerified) acts)"
    "ata_sequence (fold (report_act env anchors) acts r) = ata_sequence r"
  unfolding tally_def
  by (induction acts arbitrary: r)
    (auto simp: report_act_def fixity_is_broken_def is_unverifiable_def Let_def split: act_fixity.splits)

lemma fold_report_issue:
  "fold (report_issue env b) issues r = r\<lparr>healthy := healthy r \<and> (\<forall>i \<in> set issues. \<not> is_uniqueness_violation i),
     ata_sequence := ata_sequence r @ map (\<lambda>i. \<lparr>bf_book_id = uuid_text env (bk_id b), bf_issue = i\<rparr>) issues\<rparr>"
proof (induction issues arbitrary: r)
  case Nil
  show ?case by (cases r) simp
qed (simp add: report_issue_def conj_assoc)

lemma report_book_eq:
  "report_book env acts b r =
     r\<lparr>healthy := healthy r \<and> distinct (map fst (numbered_acts b acts)),
       ata_sequence := ata_sequence r @ map (\<lambda>i. \<lparr>bf_book_id = uuid_text env (bk_id b), bf_issue = i\<rparr>)
         (check_ata_sequence (uuid_text env) b acts)\<rparr>"
proof -
  have "(\<forall>i \<in> set (check_ata_sequence (uuid_text env) b acts). \<not> is_uniqueness_violation i)
      \<longleftrightarrow> distinct (map fst (numbered_acts b acts))"
    using uniqueness_violation_iff by blast
  then show ?thesis by (simp add: report_book_def fold_report_issue)
qed

lemma fold_report_book:
  "fold (report_book env acts) books r =
     r\<lparr>healthy := healthy r \<and> (\<forall>b \<in> set books. distinct (map fst (numbered_acts b acts))),
       ata_sequence := ata_sequence r @ concat (map (\<lambda>b. map (\<lambda>i. \<lparr>bf_book_id = uuid_text env (bk_id b), bf_issue = i\<rparr>)
         (check_ata_sequence (uuid_text env) b acts)) books)\<rparr>"
proof (induction books arbitrary: r)
  case Nil
  show ?case by (cases r) simp
next
  case (Cons b books)
  show ?case by (simp add: Cons) (simp add: report_book_eq conj_assoc)
qed

lemma build_report_parts:
  fixes acts books anchors env
  defines "r \<equiv> build_report env acts books anchors"
  shows "healthy r \<longleftrightarrow> with_verdict env anchors fixity_is_broken acts = []
      \<and> (\<forall>b \<in> set books. distinct (map fst (numbered_acts b acts)))"
    "sealed_checked r = of_nat (length (with_verdict env anchors (\<lambda>f. f \<noteq> Unsealed) acts))"
    "verified r = of_nat (length (with_verdict env anchors (\<lambda>f. f = FixityVerified) acts))"
    "broken r = of_nat (length (with_verdict env anchors fixity_is_broken acts))"
    "unverifiable r = of_nat (length (with_verdict env anchors is_unverifiable acts))"
    "mset (findings r) = mset (map (\<lambda>a. report_finding env a (verify_act_fixity env a anchors))
       (with_verdict env anchors (\<lambda>f. f \<noteq> Unsealed \<and> f \<noteq> FixityVerified) acts))"
    "sorted (map finding_order (findings r))"
  by (simp_all add: r_def build_report_def default_report_def fold_report_act fold_report_book Let_def)

lemma of_nat_u64_zero: "n < 2 ^ 64 \<Longrightarrow> (of_nat n :: u64) = 0 \<longleftrightarrow> n = 0"
  by (simp add: word_of_nat_eq_0_iff dvd_eq_mod_eq_0)

lemma verdict_cases: "f = Unsealed \<or> f = FixityVerified \<or> fixity_is_broken f \<or> is_unverifiable f"
  by (cases f) (simp_all add: fixity_is_broken_def is_unverifiable_def)

text \<open>
  C12: the report is exact. It is healthy exactly when no act is affirmatively altered and no book
  holds two acts with one number; it is fully verified exactly when, besides, every sealed act verifies
  against its anchor. The findings are the acts that do not verify, each with its verdict, in the order
  of book, number and act.
\<close>

theorem fixity_report_exact:
  assumes "length acts < 2 ^ 64"
  shows "(healthy (build_report env acts books anchors) \<longleftrightarrow>
      (\<nexists>a. a \<in> set acts \<and> fixity_is_broken (verify_act_fixity env a anchors))
      \<and> list_all (\<lambda>b. distinct (map fst (numbered_acts b acts))) books)
    \<and> (fully_verified (build_report env acts books anchors) \<longleftrightarrow>
      list_all (\<lambda>a. verify_act_fixity env a anchors \<in> {Unsealed, FixityVerified}) acts
      \<and> list_all (\<lambda>b. distinct (map fst (numbered_acts b acts))) books)
    \<and> mset (findings (build_report env acts books anchors)) =
        image_mset (\<lambda>a. report_finding env a (verify_act_fixity env a anchors))
          {#a \<in># mset acts. verify_act_fixity env a anchors \<notin> {Unsealed, FixityVerified}#}
    \<and> sorted (map finding_order (findings (build_report env acts books anchors)))"
proof -
  have "length (with_verdict env anchors is_unverifiable acts) < 2 ^ 64"
    using assms length_filter_le order_le_less_trans unfolding with_verdict_def by blast
  then have u: "unverifiable (build_report env acts books anchors) = 0 \<longleftrightarrow> with_verdict env anchors is_unverifiable acts = []"
    by (simp add: build_report_parts(5) of_nat_u64_zero)
  have h: "with_verdict env anchors P acts = [] \<longleftrightarrow> (\<nexists>a. a \<in> set acts \<and> P (verify_act_fixity env a anchors))" for P
    by (auto simp: with_verdict_def filter_empty_conv)
  have "(\<nexists>a. a \<in> set acts \<and> fixity_is_broken (verify_act_fixity env a anchors))
      \<and> (\<nexists>a. a \<in> set acts \<and> is_unverifiable (verify_act_fixity env a anchors))
    \<longleftrightarrow> list_all (\<lambda>a. verify_act_fixity env a anchors \<in> {Unsealed, FixityVerified}) acts"
    using verdict_cases by (auto simp: list_all_iff fixity_is_broken_def is_unverifiable_def)
  moreover have "healthy (build_report env acts books anchors) \<longleftrightarrow>
      (\<nexists>a. a \<in> set acts \<and> fixity_is_broken (verify_act_fixity env a anchors))
      \<and> list_all (\<lambda>b. distinct (map fst (numbered_acts b acts))) books"
    by (simp only: build_report_parts(1) h list_all_iff)
  moreover have "mset (findings (build_report env acts books anchors)) =
        image_mset (\<lambda>a. report_finding env a (verify_act_fixity env a anchors))
          {#a \<in># mset acts. verify_act_fixity env a anchors \<notin> {Unsealed, FixityVerified}#}"
    by (simp only: build_report_parts(6) with_verdict_def mset_map mset_filter) simp
  ultimately show ?thesis
    unfolding fully_verified_def u h using build_report_parts(7) by blast
qed

section \<open>Evaluated instances\<close>

text \<open>The sealed sample act, and the same act with its text changed after the seal.\<close>

theorem fixity_report_exact_witness:
  "fully_verified (build_report plain_seal_env [sealed_act] [] (anchors_from_ledger sealed_ledger))"
  using fixity_report_exact [of "[sealed_act]" plain_seal_env "[]" "anchors_from_ledger sealed_ledger"] sealed_act_verified
  by simp

end
