(* ===== verification/Rules.thy ===== *)
theory Rules
  imports Seal
begin

section \<open>Compliance rule packs\<close>

text \<open>
  \<open>src/crates/chancela-core/src/rules.rs\<close> and the dispatch of \<open>profile.rs\<close>: the checks an act must pass
  before it is sealed, one pack per family of entities, and the overlay of the entity's own
  statutes. The legal basis of a finding is a function of its rule id and is read off it. The wording of a finding is read by no decision: it is a parameter, a function of the
  rule's id and of the values the message interpolates. Counts are added at their machine width, as
  a release build does.
\<close>

subsection \<open>Findings and their legal basis\<close>

datatype legal_basis_verification = VerifiedBasis | PendingBasis

record legal_basis =
  lb_source_id :: string
  lb_source_label :: string
  lb_article :: "string option"
  lb_article_label :: "string option"
  lb_citation :: string
  lb_verification :: legal_basis_verification
  lb_source_url :: "string option"
  lb_source_complete :: bool

definition pending_law :: "string \<Rightarrow> string \<Rightarrow> string option \<Rightarrow> string option \<Rightarrow> legal_basis" where
  "pending_law source_id source_label article article_label =
     \<lparr>lb_source_id = source_id, lb_source_label = source_label, lb_article = article,
      lb_article_label = article_label,
      lb_citation = (case article_label of Some label \<Rightarrow> source_label @ '', '' @ label | None \<Rightarrow> source_label),
      lb_verification = PendingBasis, lb_source_url = None, lb_source_complete = False\<rparr>"

text \<open>The labels in UTF-8: \<open>Codigo\<close> with an acute accent, the ordinal sign after an article number.\<close>

definition codigo :: "string \<Rightarrow> string" where
  "codigo rest = ''C'' @ [CHR 0xC3, CHR 0xB3] @ ''digo '' @ rest"

definition artigo :: "string \<Rightarrow> string" where
  "artigo number = ''Artigo '' @ number @ ''.'' @ [CHR 0xC2, CHR 0xBA]"

definition legal_basis_for_rule :: "string \<Rightarrow> legal_basis list" where
  "legal_basis_for_rule rule_id =
     (let prefix = takeWhile (\<lambda>c. c \<noteq> CHR ''/'') rule_id;
          csc = (\<lambda>n. [pending_law ''csc'' (codigo ''das Sociedades Comerciais'') (Some n) (Some (artigo n))]) in
      if prefix = ''CSC-63'' then csc ''63''
      else if prefix = ''CSC-54'' then csc ''54''
      else if prefix = ''CSC-377'' then csc ''377''
      else if prefix = ''DL268''
      then [pending_law ''dl-268-94'' (''Decreto-Lei n.'' @ [CHR 0xC2, CHR 0xBA] @ '' 268/94, de 25 de outubro'') None None]
      else if prefix = ''CC'' then [pending_law ''cc'' (codigo ''Civil'') None None]
      else if prefix = ''CCoop''
      then if rule_id = ''CCoop/one-member-one-vote''
           then [pending_law ''cod-cooperativo'' (codigo ''Cooperativo'') (Some ''41'') (Some (artigo ''41''))]
           else [pending_law ''cod-cooperativo'' (codigo ''Cooperativo'') None None]
      else [])"

type_synonym wording = "string \<Rightarrow> string list \<Rightarrow> string"

definition error_issue :: "wording \<Rightarrow> string \<Rightarrow> string list \<Rightarrow> compliance_issue" where
  "error_issue w rule_id values_shown =
     \<lparr>ci_rule_id = rule_id, ci_severity = ErrorSeverity, ci_message = w rule_id values_shown\<rparr>"

definition warning_issue :: "wording \<Rightarrow> string \<Rightarrow> string list \<Rightarrow> compliance_issue" where
  "warning_issue w rule_id values_shown =
     \<lparr>ci_rule_id = rule_id, ci_severity = Warning, ci_message = w rule_id values_shown\<rparr>"

text \<open>\<open>if condition { issues.push(issue) }\<close>, and \<open>issues.extend(option)\<close>.\<close>

definition push_if :: "bool \<Rightarrow> compliance_issue \<Rightarrow> compliance_issue list" where
  "push_if condition issue = (if condition then [issue] else [])"

definition option_list :: "'a option \<Rightarrow> 'a list" where
  "option_list x = (case x of Some a \<Rightarrow> [a] | None \<Rightarrow> [])"

text \<open>\<open>text.as_deref().unwrap_or("").trim().is_empty()\<close>.\<close>

definition blank_option :: "string option \<Rightarrow> bool" where
  "blank_option s \<longleftrightarrow> is_blank (case s of Some x \<Rightarrow> x | None \<Rightarrow> [])"

subsection \<open>What a family permits\<close>

fun allowed_channels :: "entity_family \<Rightarrow> meeting_channel list" where
  "allowed_channels CommercialCompany = [Physical, Hybrid, Telematic, WrittenResolution]"
| "allowed_channels Condominium = [Physical, Hybrid, Telematic]"
| "allowed_channels Association = [Physical, Hybrid, Telematic, WrittenResolution]"
| "allowed_channels Foundation = [Physical, Hybrid, Telematic]"
| "allowed_channels Cooperative = [Physical, Hybrid, Telematic, WrittenResolution]"

fun membership_qualities :: "entity_kind \<Rightarrow> signatory_capacity list" where
  "membership_qualities SociedadePorQuotas = [Member]"
| "membership_qualities SociedadeUnipessoalPorQuotas = [Member]"
| "membership_qualities SociedadeEmNomeColetivo = [Member]"
| "membership_qualities SociedadeEmComanditaSimples = [Member]"
| "membership_qualities SociedadeAnonima = [Shareholder]"
| "membership_qualities SociedadeEmComanditaPorAcoes = [Shareholder, Member]"
| "membership_qualities Condominio = [CondoOwner]"
| "membership_qualities Associacao = [Associate]"
| "membership_qualities Cooperativa = [Cooperator]"
| "membership_qualities Fundacao = []"

subsection \<open>The civil baseline\<close>

definition has_substance :: "act \<Rightarrow> bool" where
  "has_substance a \<longleftrightarrow> \<not> is_blank (act_deliberations a)
     \<or> list_ex (\<lambda>i. \<not> is_blank (di_text i)) (act_deliberation_items a)
     \<or> (case act_body_of a of Some b \<Rightarrow> \<not> is_blank (ab_source b) | None \<Rightarrow> False)"

definition absent_members :: "act \<Rightarrow> entity \<Rightarrow> attendee list" where
  "absent_members a e =
     filter (\<lambda>x. ate_presence x = Absent \<and> ate_quality x \<in> set (membership_qualities (ent_kind e))) (act_attendees a)"

definition join_comma :: "string list \<Rightarrow> string" where
  "join_comma xs = join_with '', '' xs"

definition no_convening_issues :: "wording \<Rightarrow> act \<Rightarrow> entity \<Rightarrow> compliance_issue list" where
  "no_convening_issues w a e =
     (case act_convening_waiver a of
        None \<Rightarrow> []
      | Some waiver \<Rightarrow>
          push_if (act_convening a \<noteq> None) (warning_issue w ''CONV/waiver-conflict'' [])
          @ (case cw_basis waiver of
               OtherBasis \<Rightarrow>
                 push_if (blank_option (cw_grounds waiver)) (warning_issue w ''CONV/waiver-grounds'' [])
             | AssembleiaUniversal \<Rightarrow>
                 (let absent = absent_members a e;
                      member_rows = filter (\<lambda>x. ate_quality x \<in> set (membership_qualities (ent_kind e))) (act_attendees a)
                  in push_if (ent_family e \<noteq> CommercialCompany) (warning_issue w ''CONV/basis-family-unverified'' [])
                     @ push_if (\<not> cw_all_agreed_to_meet waiver \<or> \<not> cw_all_agreed_to_agenda waiver)
                         (error_issue w ''CSC-54/universal-assembly-agreement'' [])
                     @ (if absent \<noteq> []
                        then [error_issue w ''CSC-54/universal-assembly-attendance''
                                [nat_decimal (length absent), join_comma (map ate_name absent)]]
                        else push_if (member_rows = []) (warning_issue w ''CSC-54/universal-assembly-unverified'' []))
                     @ push_if (list_ex (\<lambda>x. ate_presence x = Absent \<and> ate_quality x = OtherCapacity) (act_attendees a)
                           \<and> absent = [])
                         (warning_issue w ''CONV/universal-assembly-unclassified-absentee'' []))))"

definition civil_baseline :: "wording \<Rightarrow> act \<Rightarrow> entity \<Rightarrow> string \<Rightarrow> compliance_issue list" where
  "civil_baseline w a e prefix =
     push_if (is_blank (ent_name e)) (error_issue w (prefix @ ''/entity'') [])
     @ push_if (\<not> nipc_validated (ent_nipc e))
         (warning_issue w (prefix @ ''/nipc-unvalidated'') [nipc_value (ent_nipc e)])
     @ push_if (act_meeting_date a = None) (error_issue w (prefix @ ''/date'') [])
     @ push_if (blank_option (act_place a)) (error_issue w (prefix @ ''/place'') [])
     @ push_if (blank_option (act_attendance_reference a)) (error_issue w (prefix @ ''/attendance'') [])
     @ push_if (\<not> has_substance a) (error_issue w (prefix @ ''/deliberations'') [])
     @ no_convening_issues w a e"

definition missing_vote_warnings :: "wording \<Rightarrow> act \<Rightarrow> string \<Rightarrow> compliance_issue list" where
  "missing_vote_warnings w a prefix =
     map (\<lambda>(i, item). warning_issue w (prefix @ ''/vote-result'') [nat_decimal (i + 1)])
       (filter (\<lambda>(i, item). di_vote item = None) (List.enumerate 0 (act_deliberation_items a)))"

definition channel_debug :: "meeting_channel \<Rightarrow> string" where
  "channel_debug c =
     (case c of Physical \<Rightarrow> ''Physical'' | Hybrid \<Rightarrow> ''Hybrid'' | Telematic \<Rightarrow> ''Telematic''
      | WrittenResolution \<Rightarrow> ''WrittenResolution'')"

definition channel_warning :: "wording \<Rightarrow> act \<Rightarrow> entity \<Rightarrow> string \<Rightarrow> compliance_issue option" where
  "channel_warning w a e prefix =
     (if act_channel a \<in> set (allowed_channels (ent_family e)) then None
      else Some (warning_issue w (prefix @ ''/channel'') [channel_debug (act_channel a)]))"

definition written_resolution_evidence_warning :: "wording \<Rightarrow> act \<Rightarrow> string \<Rightarrow> compliance_issue option" where
  "written_resolution_evidence_warning w a prefix =
     (case ws_status (written_resolution_evidence_summary_of a) of
        NotApplicable \<Rightarrow> None
      | BoundPresent \<Rightarrow> None
      | Missing \<Rightarrow> Some (warning_issue w (prefix @ ''/written-resolution-evidence'') [''missing''])
      | ReferencedOnly \<Rightarrow> Some (warning_issue w (prefix @ ''/written-resolution-evidence'') [''referenced_only'']))"

subsection \<open>Weighted votes\<close>

datatype weight_kind = CapitalKind | PermilageKind

definition weight_for_entity :: "entity \<Rightarrow> weight_kind option" where
  "weight_for_entity e =
     (case ent_family e of
        CommercialCompany \<Rightarrow> Some CapitalKind
      | Condominium \<Rightarrow> Some PermilageKind
      | _ \<Rightarrow> None)"

definition weight_label :: "weight_kind \<Rightarrow> string" where
  "weight_label k = (case k of CapitalKind \<Rightarrow> ''capital'' | PermilageKind \<Rightarrow> ''permilagem'')"

definition vote_total_rule :: "weight_kind \<Rightarrow> string \<Rightarrow> string" where
  "vote_total_rule k prefix =
     (case k of CapitalKind \<Rightarrow> prefix @ ''/capital-vote-total'' | PermilageKind \<Rightarrow> prefix @ ''/permilage-vote-total'')"

definition partial_rule :: "weight_kind \<Rightarrow> string \<Rightarrow> string" where
  "partial_rule k prefix =
     (case k of CapitalKind \<Rightarrow> prefix @ ''/capital-weights-partial''
      | PermilageKind \<Rightarrow> prefix @ ''/permilage-weights-partial'')"

record weighted_attendance_summary =
  wa_kind :: weight_kind
  wa_present_rows :: u32
  wa_present_weight :: u128
  wa_expected_weight_rows :: u32
  wa_other_weight_rows :: u32
  wa_missing_weight_rows :: u32

definition has_weight_metadata :: "weighted_attendance_summary \<Rightarrow> bool" where
  "has_weight_metadata s \<longleftrightarrow> wa_expected_weight_rows s > 0 \<or> wa_other_weight_rows s > 0"

definition weights_complete :: "weighted_attendance_summary \<Rightarrow> bool" where
  "weights_complete s \<longleftrightarrow> wa_other_weight_rows s = 0 \<and> wa_missing_weight_rows s = 0"

definition can_use_weight :: "weighted_attendance_summary \<Rightarrow> bool" where
  "can_use_weight s \<longleftrightarrow> weights_complete s \<and> wa_expected_weight_rows s > 0
     \<and> wa_expected_weight_rows s = wa_present_rows s"

definition present_attendees :: "act \<Rightarrow> attendee list" where
  "present_attendees a = filter (\<lambda>x. ate_presence x \<noteq> Absent) (act_attendees a)"

definition count_attendee :: "attendee \<Rightarrow> weighted_attendance_summary \<Rightarrow> weighted_attendance_summary" where
  "count_attendee x s =
     (let s = s\<lparr>wa_present_rows := wa_present_rows s + 1\<rparr> in
      case (wa_kind s, ate_weight x) of
        (CapitalKind, Some (Capital v)) \<Rightarrow>
          s\<lparr>wa_expected_weight_rows := wa_expected_weight_rows s + 1, wa_present_weight := wa_present_weight s + ucast v\<rparr>
      | (PermilageKind, Some (Permilage v)) \<Rightarrow>
          s\<lparr>wa_expected_weight_rows := wa_expected_weight_rows s + 1, wa_present_weight := wa_present_weight s + ucast v\<rparr>
      | (_, Some _) \<Rightarrow> s\<lparr>wa_other_weight_rows := wa_other_weight_rows s + 1\<rparr>
      | (_, None) \<Rightarrow> s\<lparr>wa_missing_weight_rows := wa_missing_weight_rows s + 1\<rparr>)"

definition attendance_summary :: "act \<Rightarrow> weight_kind \<Rightarrow> weighted_attendance_summary option" where
  "attendance_summary a k =
     (if act_attendees a = [] then None
      else Some (fold count_attendee (present_attendees a)
        \<lparr>wa_kind = k, wa_present_rows = 0, wa_present_weight = 0, wa_expected_weight_rows = 0,
         wa_other_weight_rows = 0, wa_missing_weight_rows = 0\<rparr>))"

definition unwrap_or_zero :: "u32 option \<Rightarrow> u32" where
  "unwrap_or_zero n = (case n of Some x \<Rightarrow> x | None \<Rightarrow> 0)"

definition attendance_count :: "act \<Rightarrow> u32 option" where
  "attendance_count a =
     (if act_members_present a = None \<and> act_members_represented a = None
      then if act_attendees a = [] then None else Some (of_nat (length (present_attendees a)))
      else Some (unwrap_or_zero (act_members_present a) + unwrap_or_zero (act_members_represented a)))"

definition recorded_vote_total :: "vote_result \<Rightarrow> u128 option" where
  "recorded_vote_total v =
     (case v of Recorded f c b \<Rightarrow> Some (ucast f + ucast c + ucast b) | Unanimous \<Rightarrow> None)"

definition recorded_items :: "act \<Rightarrow> (nat \<times> u128) list" where
  "recorded_items a = List.map_filter (\<lambda>(i, item). map_option (Pair i) (Option.bind (di_vote item) recorded_vote_total))
     (List.enumerate 0 (act_deliberation_items a))"

definition weighted_vote_warnings :: "wording \<Rightarrow> act \<Rightarrow> entity \<Rightarrow> string \<Rightarrow> compliance_issue list" where
  "weighted_vote_warnings w a e prefix =
     (case weight_for_entity e of
        None \<Rightarrow> []
      | Some k \<Rightarrow>
          (case attendance_summary a k of
             None \<Rightarrow> []
           | Some s \<Rightarrow>
               if recorded_items a = [] then []
               else if \<not> has_weight_metadata s then []
               else if \<not> weights_complete s then [warning_issue w (partial_rule k prefix) [weight_label k]]
               else map (\<lambda>(i, total). warning_issue w (vote_total_rule k prefix)
                        [nat_decimal (i + 1), nat_decimal (unat total), weight_label k, nat_decimal (unat (wa_present_weight s))])
                      (filter (\<lambda>(i, total). total \<noteq> wa_present_weight s) (recorded_items a))))"

definition attendance_count_mismatch_warning :: "wording \<Rightarrow> act \<Rightarrow> string \<Rightarrow> compliance_issue option" where
  "attendance_count_mismatch_warning w a prefix =
     (let recorded_count = unwrap_or_zero (act_members_present a) + unwrap_or_zero (act_members_represented a);
          row_count = of_nat (length (present_attendees a)) in
      if act_members_present a = None \<and> act_members_represented a = None then None
      else if act_attendees a = [] \<or> recorded_count = row_count then None
      else Some (warning_issue w (prefix @ ''/attendance-count-mismatch'')
        [nat_decimal (unat recorded_count), nat_decimal (unat row_count)]))"

definition saturating_add :: "u32 \<Rightarrow> u32 \<Rightarrow> u32" where
  "saturating_add x y = (if unat x + unat y < 2 ^ 32 then x + y else - 1)"

definition present_permilages :: "act \<Rightarrow> (string \<times> u32) list" where
  "present_permilages a = List.map_filter
     (\<lambda>x. case ate_weight x of Some (Permilage v) \<Rightarrow> Some (ate_name x, v) | _ \<Rightarrow> None) (present_attendees a)"

definition condominium_permilage_warnings :: "wording \<Rightarrow> act \<Rightarrow> compliance_issue list" where
  "condominium_permilage_warnings w a =
     (let rows = present_permilages a; present_total = fold (\<lambda>(_, v) t. saturating_add t v) rows 0 in
      map (\<lambda>(name, v). warning_issue w ''DL268/permilage-value'' [''attendance'', name, nat_decimal (unat v)])
        (filter (\<lambda>(_, v). v > 1000) rows)
      @ push_if (rows \<noteq> [] \<and> present_total > 1000) (warning_issue w ''DL268/permilage-total'' [nat_decimal (unat present_total)])
      @ concat (map (\<lambda>s. case ss_permilage s of
          Some v \<Rightarrow> push_if (ss_capacity s = CondoOwner \<and> v > 1000)
            (warning_issue w ''DL268/permilage-value'' [''owner'', ss_name s, nat_decimal (unat v)])
        | None \<Rightarrow> []) (act_signatories a)))"

subsection \<open>The packs\<close>

definition csc_check_act :: "wording \<Rightarrow> act \<Rightarrow> entity \<Rightarrow> compliance_issue list" where
  "csc_check_act w a e =
     civil_baseline w a e ''CSC-63''
     @ push_if (blank_option (presidente (act_mesa a))) (error_issue w ''CSC-63/mesa-presidente'' [])
     @ push_if (secretarios (act_mesa a) = []) (warning_issue w ''CSC-63/mesa-secretarios'' [])
     @ push_if (act_meeting_time a = None) (warning_issue w ''CSC-63/time'' [])
     @ push_if (act_agenda a = []) (warning_issue w ''CSC-63/agenda'' [])
     @ missing_vote_warnings w a ''CSC-63''
     @ weighted_vote_warnings w a e ''CSC-63''
     @ option_list (written_resolution_evidence_warning w a ''CSC-54'')
     @ push_if (list_ex at_beginning_of_proof (act_attachments a)) (warning_issue w ''CSC-63/detached-document'' [])
     @ push_if (ent_kind e = SociedadeAnonima \<and> act_channel a = Telematic \<and> blank_option (act_telematic_evidence a))
         (error_issue w ''CSC-377/telematic-evidence'' [])
     @ option_list (channel_warning w a e ''CSC-63'')"

definition condominio_check_act :: "wording \<Rightarrow> act \<Rightarrow> entity \<Rightarrow> compliance_issue list" where
  "condominio_check_act w a e =
     civil_baseline w a e ''DL268''
     @ push_if (act_meeting_time a = None) (warning_issue w ''DL268/time'' [])
     @ missing_vote_warnings w a ''DL268''
     @ weighted_vote_warnings w a e ''DL268''
     @ option_list (attendance_count_mismatch_warning w a ''DL268'')
     @ condominium_permilage_warnings w a
     @ concat (map (\<lambda>s. push_if (ss_capacity s = CondoOwner \<and> ss_permilage s = None)
         (warning_issue w ''DL268/permilage'' [ss_name s])) (act_signatories a))"

definition associacao_check_act :: "wording \<Rightarrow> act \<Rightarrow> entity \<Rightarrow> compliance_issue list" where
  "associacao_check_act w a e =
     civil_baseline w a e ''CC''
     @ push_if (act_agenda a = []) (warning_issue w ''CC/agenda'' [])
     @ option_list (written_resolution_evidence_warning w a ''CC'')"

definition fundacao_check_act :: "wording \<Rightarrow> act \<Rightarrow> entity \<Rightarrow> compliance_issue list" where
  "fundacao_check_act w a e = civil_baseline w a e ''CC''"

definition cooperativa_check_act :: "wording \<Rightarrow> act \<Rightarrow> entity \<Rightarrow> compliance_issue list" where
  "cooperativa_check_act w a e =
     civil_baseline w a e ''CCoop''
     @ push_if (list_ex (\<lambda>i. case di_vote i of Some (Recorded _ _ _) \<Rightarrow> True | _ \<Rightarrow> False) (act_deliberation_items a))
         (warning_issue w ''CCoop/one-member-one-vote'' [])
     @ option_list (written_resolution_evidence_warning w a ''CCoop'')"

subsection \<open>The overlay of the statutes\<close>

text \<open>One item of the majority loop: the findings it adds and whether the partial-weight warning has been given.\<close>

definition majority_weight_issues ::
  "wording \<Rightarrow> weighted_attendance_summary option \<Rightarrow> bool \<Rightarrow> nat \<Rightarrow> u128 \<Rightarrow> compliance_issue list" where
  "majority_weight_issues w weighted warned i tally =
     (case weighted of
        None \<Rightarrow> []
      | Some s \<Rightarrow>
          if has_weight_metadata s \<and> \<not> weights_complete s
          then push_if (\<not> warned) (warning_issue w ''STATUTE/majority-weight-unverified'' [weight_label (wa_kind s)])
          else if can_use_weight s
          then if tally = wa_present_weight s then []
               else push_if (has_weight_metadata s) (warning_issue w ''STATUTE/majority-weight-unverified''
                 [nat_decimal (i + 1), nat_decimal (unat tally), weight_label (wa_kind s),
                  nat_decimal (unat (wa_present_weight s))])
          else [])"

definition weighted_unit :: "weighted_attendance_summary option \<Rightarrow> u128 \<Rightarrow> string option" where
  "weighted_unit weighted tally =
     (case weighted of
        None \<Rightarrow> None
      | Some s \<Rightarrow>
          if has_weight_metadata s \<and> \<not> weights_complete s then None
          else if can_use_weight s \<and> tally = wa_present_weight s then Some (weight_label (wa_kind s))
          else None)"

definition partial_weights :: "weighted_attendance_summary option \<Rightarrow> bool" where
  "partial_weights weighted = (case weighted of None \<Rightarrow> False | Some s \<Rightarrow> has_weight_metadata s \<and> \<not> weights_complete s)"

definition below_majority :: "majority \<Rightarrow> u32 \<Rightarrow> u128 \<Rightarrow> bool" where
  "below_majority maj favor tally \<longleftrightarrow>
     tally > 0 \<and> ucast favor * ucast (denominator maj) < ucast (numerator maj) * tally"

fun majority_loop ::
  "wording \<Rightarrow> majority \<Rightarrow> weighted_attendance_summary option \<Rightarrow> bool \<Rightarrow> (nat \<times> deliberation_item) list
     \<Rightarrow> compliance_issue list" where
  "majority_loop w maj weighted warned [] = []"
| "majority_loop w maj weighted warned ((i, item) # rest) =
     (case di_vote item of
        Some (Recorded favor against abstained) \<Rightarrow>
          (let tally = ucast favor + ucast against + ucast abstained in
           majority_weight_issues w weighted warned i tally
           @ push_if (below_majority maj favor tally)
               (warning_issue w ''STATUTE/majority''
                 [nat_decimal (i + 1), nat_decimal (unat favor), nat_decimal (unat tally),
                  (case weighted_unit weighted tally of Some unit \<Rightarrow> '' '' @ unit @ '' vote units'' | None \<Rightarrow> []),
                  nat_decimal (unat (numerator maj)), nat_decimal (unat (denominator maj))])
           @ majority_loop w maj weighted (warned \<or> partial_weights weighted) rest)
      | _ \<Rightarrow> majority_loop w maj weighted warned rest)"

definition majority_findings ::
  "wording \<Rightarrow> act \<Rightarrow> weighted_attendance_summary option \<Rightarrow> statute_overrides \<Rightarrow> compliance_issue list" where
  "majority_findings w a weighted statute =
     (case so_majority statute of
        None \<Rightarrow> []
      | Some maj \<Rightarrow>
          if denominator maj = 0 then [warning_issue w ''STATUTE/majority-invalid'' []]
          else majority_loop w maj weighted False (List.enumerate 0 (act_deliberation_items a)))"

text \<open>
  The quorum: the findings, and whether the function goes on to the convocation notice. Both weighted
  branches return from the whole function.
\<close>

definition quorum_findings ::
  "wording \<Rightarrow> act \<Rightarrow> weighted_attendance_summary option \<Rightarrow> statute_overrides \<Rightarrow> compliance_issue list \<times> bool" where
  "quorum_findings w a weighted statute =
     (let by_count = (\<lambda>q.
        case attendance_count a of
          None \<Rightarrow> [warning_issue w ''STATUTE/quorum-unverified'' [nat_decimal (unat (min_present q))]]
        | Some present \<Rightarrow> push_if (present < min_present q)
            (warning_issue w ''STATUTE/quorum'' [nat_decimal (unat present), nat_decimal (unat (min_present q))])) in
      case so_quorum statute of
        None \<Rightarrow> ([], True)
      | Some q \<Rightarrow>
          (case weighted of
             None \<Rightarrow> (by_count q, True)
           | Some s \<Rightarrow>
               if has_weight_metadata s \<and> \<not> weights_complete s
               then ([warning_issue w ''STATUTE/quorum-weight-unverified'' [weight_label (wa_kind s)]], False)
               else if can_use_weight s
               then (push_if (wa_present_weight s < ucast (min_present q))
                      (warning_issue w ''STATUTE/quorum'' [weight_label (wa_kind s),
                        nat_decimal (unat (wa_present_weight s)), nat_decimal (unat (min_present q))]), False)
               else (by_count q, True)))"

definition statute_convocation_notice_antecedence_days :: "act \<Rightarrow> int option" where
  "statute_convocation_notice_antecedence_days a =
     (case act_convening a of
        None \<Rightarrow> None
      | Some c \<Rightarrow>
          (case cv_antecedence_days c of
             Some days \<Rightarrow> Some (uint days)
           | None \<Rightarrow>
               (case (cv_dispatch_date c, act_meeting_date a) of
                  (Some dispatch_date, Some meeting_date) \<Rightarrow> Some (meeting_date - dispatch_date)
                | _ \<Rightarrow> None)))"

definition int_decimal :: "int \<Rightarrow> string" where
  "int_decimal n = (if n < 0 then ''-'' @ nat_decimal (nat (- n)) else nat_decimal (nat n))"

definition convocation_findings :: "wording \<Rightarrow> act \<Rightarrow> statute_overrides \<Rightarrow> compliance_issue list" where
  "convocation_findings w a statute =
     (case so_convocation_notice_days statute of
        None \<Rightarrow> []
      | Some required_days \<Rightarrow>
          (case statute_convocation_notice_antecedence_days a of
             None \<Rightarrow> [warning_issue w ''STATUTE/convocation-notice-unverified'' [nat_decimal (unat required_days)]]
           | Some actual_days \<Rightarrow> push_if (actual_days < uint required_days)
               (warning_issue w ''STATUTE/convocation-notice'' [int_decimal actual_days, nat_decimal (unat required_days)])))"

definition statute_findings_inner ::
  "wording \<Rightarrow> act \<Rightarrow> entity option \<Rightarrow> statute_overrides \<Rightarrow> compliance_issue list" where
  "statute_findings_inner w a e statute =
     (let weighted = Option.bind (Option.bind e weight_for_entity) (attendance_summary a);
          (quorum_issues, goes_on) = quorum_findings w a weighted statute in
      majority_findings w a weighted statute @ quorum_issues
      @ (if goes_on then convocation_findings w a statute else []))"

definition statute_findings :: "wording \<Rightarrow> act \<Rightarrow> statute_overrides \<Rightarrow> compliance_issue list" where
  "statute_findings w a statute = statute_findings_inner w a None statute"

definition statute_findings_for_entity :: "wording \<Rightarrow> act \<Rightarrow> entity \<Rightarrow> statute_overrides \<Rightarrow> compliance_issue list" where
  "statute_findings_for_entity w a e statute = statute_findings_inner w a (Some e) statute"

subsection \<open>Dispatch\<close>

definition profile_pack :: "wording \<Rightarrow> rule_pack \<Rightarrow> statute_overrides option \<Rightarrow> rule_pack" where
  "profile_pack w family statute =
     \<lparr>rp_id = rp_id family,
      rp_check_act = (\<lambda>a e. rp_check_act family a e
        @ (case statute of Some s \<Rightarrow> statute_findings_for_entity w a e s | None \<Rightarrow> []))\<rparr>"

fun family_pack :: "wording \<Rightarrow> entity_family \<Rightarrow> rule_pack" where
  "family_pack w CommercialCompany = \<lparr>rp_id = ''csc-art63/v2'', rp_check_act = csc_check_act w\<rparr>"
| "family_pack w Condominium = \<lparr>rp_id = ''condominio-dl268/v1'', rp_check_act = condominio_check_act w\<rparr>"
| "family_pack w Association = \<lparr>rp_id = ''assoc-cc/v1'', rp_check_act = associacao_check_act w\<rparr>"
| "family_pack w Foundation = \<lparr>rp_id = ''fundacao-cc/v1'', rp_check_act = fundacao_check_act w\<rparr>"
| "family_pack w Cooperative = \<lparr>rp_id = ''cooperativa-ccoop/v1'', rp_check_act = cooperativa_check_act w\<rparr>"

definition rule_pack_for :: "wording \<Rightarrow> entity \<Rightarrow> rule_pack" where
  "rule_pack_for w e = profile_pack w (family_pack w (ent_family e)) (ent_statute e)"

section \<open>What blocks a seal\<close>

text \<open>Reading the lists of findings.\<close>

definition blocking :: "compliance_issue list \<Rightarrow> bool" where
  "blocking issues \<longleftrightarrow> (\<exists>i \<in> set issues. ci_severity i \<noteq> Warning)"

lemma blocking_Nil [simp]: "\<not> blocking []"
  by (simp add: blocking_def)

lemma blocking_append [simp]: "blocking (xs @ ys) \<longleftrightarrow> blocking xs \<or> blocking ys"
  by (auto simp: blocking_def)

lemma blocking_concat: "blocking (concat xss) \<longleftrightarrow> (\<exists>xs \<in> set xss. blocking xs)"
  by (auto simp: blocking_def)

lemma severity_of_issue [simp]:
  "ci_severity (error_issue w r vs) = ErrorSeverity" "ci_severity (warning_issue w r vs) = Warning"
  "ci_rule_id (error_issue w r vs) = r" "ci_rule_id (warning_issue w r vs) = r"
  by (simp_all add: error_issue_def warning_issue_def)

lemma blocking_push_error [simp]: "blocking (push_if c (error_issue w r vs)) \<longleftrightarrow> c"
  by (simp add: push_if_def blocking_def)

lemma blocking_push_warning [simp]: "\<not> blocking (push_if c (warning_issue w r vs))"
  by (simp add: push_if_def blocking_def)

lemma advisory_single [simp]: "\<not> blocking [warning_issue w r vs]" "blocking [error_issue w r vs]"
  by (simp_all add: blocking_def)

lemma advisory_map: "(\<And>x. \<not> blocking [f x]) \<Longrightarrow> \<not> blocking (map f xs)"
  by (auto simp: blocking_def)

text \<open>The checks that only advise.\<close>

lemma advisory_checks [simp]:
  "\<not> blocking (missing_vote_warnings w a p)"
  "\<not> blocking (weighted_vote_warnings w a e p)"
  "\<not> blocking (option_list (written_resolution_evidence_warning w a p))"
  "\<not> blocking (option_list (channel_warning w a e p))"
  "\<not> blocking (option_list (attendance_count_mismatch_warning w a p))"
  "\<not> blocking (condominium_permilage_warnings w a)"
  by (auto simp: missing_vote_warnings_def weighted_vote_warnings_def written_resolution_evidence_warning_def
      channel_warning_def attendance_count_mismatch_warning_def condominium_permilage_warnings_def option_list_def
      blocking_concat Let_def intro!: advisory_map
      split: option.splits written_resolution_evidence_status.splits if_splits prod.splits)

lemma majority_loop_advisory [simp]: "\<not> blocking (majority_loop w maj weighted warned items)"
  by (induction w maj weighted warned items rule: majority_loop.induct)
    (auto simp: majority_weight_issues_def Let_def split: option.splits vote_result.splits)

lemma majority_findings_advisory [simp]: "\<not> blocking (majority_findings w a weighted statute)"
  by (simp add: majority_findings_def split: option.splits)

lemma quorum_findings_advisory [simp]: "\<not> blocking (fst (quorum_findings w a weighted statute))"
  by (simp add: quorum_findings_def Let_def split: option.splits)

lemma convocation_findings_advisory [simp]: "\<not> blocking (convocation_findings w a statute)"
  by (simp add: convocation_findings_def split: option.splits)

lemma statute_findings_split:
  "statute_findings_inner w a e statute =
     (let weighted = Option.bind (Option.bind e weight_for_entity) (attendance_summary a);
          q = quorum_findings w a weighted statute in
      majority_findings w a weighted statute @ fst q @ (if snd q then convocation_findings w a statute else []))"
  by (simp add: statute_findings_inner_def Let_def split_beta)

lemma statute_findings_advisory [simp]: "\<not> blocking (statute_findings_inner w a e statute)"
  by (simp add: statute_findings_split Let_def)

text \<open>What an act must contain before it can be sealed, family by family.\<close>

definition universal_assembly_holds :: "act \<Rightarrow> entity \<Rightarrow> convening_waiver \<Rightarrow> bool" where
  "universal_assembly_holds a e waiver \<longleftrightarrow>
     cw_all_agreed_to_meet waiver \<and> cw_all_agreed_to_agenda waiver
     \<and> (\<forall>x \<in> set (act_attendees a). ate_quality x \<in> set (membership_qualities (ent_kind e)) \<longrightarrow> ate_presence x \<noteq> Absent)"

definition mandatory_contents :: "act \<Rightarrow> entity \<Rightarrow> bool" where
  "mandatory_contents a e \<longleftrightarrow>
     \<not> is_blank (ent_name e) \<and> act_meeting_date a \<noteq> None \<and> \<not> blank_option (act_place a)
     \<and> \<not> blank_option (act_attendance_reference a) \<and> has_substance a
     \<and> (case act_convening_waiver a of
          Some waiver \<Rightarrow> cw_basis waiver = AssembleiaUniversal \<longrightarrow> universal_assembly_holds a e waiver
        | None \<Rightarrow> True)
     \<and> (ent_family e = CommercialCompany \<longrightarrow>
          \<not> blank_option (presidente (act_mesa a))
          \<and> (ent_kind e = SociedadeAnonima \<and> act_channel a = Telematic \<longrightarrow> \<not> blank_option (act_telematic_evidence a)))"

lemma no_convening_blocks:
  "blocking (no_convening_issues w a e) \<longleftrightarrow>
     (\<exists>waiver. act_convening_waiver a = Some waiver \<and> cw_basis waiver = AssembleiaUniversal
        \<and> \<not> universal_assembly_holds a e waiver)"
proof -
  have "absent_members a e = [] \<longleftrightarrow>
    (\<forall>x \<in> set (act_attendees a). ate_quality x \<in> set (membership_qualities (ent_kind e)) \<longrightarrow> ate_presence x \<noteq> Absent)"
    by (auto simp: absent_members_def filter_empty_conv)
  then show ?thesis
    by (auto simp: no_convening_issues_def universal_assembly_holds_def Let_def
        split: option.splits no_convening_basis.splits)
qed

lemma civil_baseline_blocks:
  "blocking (civil_baseline w a e p) \<longleftrightarrow>
     is_blank (ent_name e) \<or> act_meeting_date a = None \<or> blank_option (act_place a)
     \<or> blank_option (act_attendance_reference a) \<or> \<not> has_substance a \<or> blocking (no_convening_issues w a e)"
  by (auto simp: civil_baseline_def)

lemma family_pack_blocks:
  "blocking (rp_check_act (family_pack w (ent_family e)) a e) \<longleftrightarrow> \<not> mandatory_contents a e"
  by (cases "ent_family e")
    (auto simp: mandatory_contents_def csc_check_act_def condominio_check_act_def associacao_check_act_def
      fundacao_check_act_def cooperativa_check_act_def civil_baseline_blocks no_convening_blocks blocking_concat
      split: option.splits)

lemma rule_pack_blocks:
  "blocking (rp_check_act (rule_pack_for w e) a e) \<longleftrightarrow> \<not> mandatory_contents a e"
  by (auto simp: rule_pack_for_def profile_pack_def family_pack_blocks statute_findings_for_entity_def
      split: option.splits)

section \<open>Properties\<close>

text \<open>
  C14: the pack an entity is dispatched to blocks exactly the incomplete acts. The findings of
  \<open>rule_pack_for\<close> contain an error if and only if the act lacks one of the mandatory contents:
  the entity's name, the date, place and attendance, the substance of a resolution, the conditions of
  a universal assembly when one is declared, and for a commercial company the chair and, in a
  telematic meeting of a sociedade anonima, its evidence. No advisory check and no statute blocks.
\<close>

theorem pack_blocks_exactly_incomplete_acts:
  "(\<exists>i \<in> set (rp_check_act (rule_pack_for w e) a e). ci_severity i = ErrorSeverity) \<longleftrightarrow> \<not> mandatory_contents a e"
proof -
  have "ci_severity i = ErrorSeverity \<longleftrightarrow> ci_severity i \<noteq> Warning" for i
    by (cases "ci_severity i") simp_all
  then show ?thesis using rule_pack_blocks [of w e a] unfolding blocking_def by metis
qed

lemma refusal_None_compliant:
  assumes "seal_refusal env b a e pack ack ev = None"
  shows "\<not> blocking (rp_check_act pack a e)" "rp_check_act pack a e \<noteq> [] \<Longrightarrow> ack"
  using assms by (auto simp: seal_refusal_def blocking_def filter_empty_conv Let_def split: sum.splits if_splits)

text \<open>
  C13: whatever is sealed under the pack of its entity is complete. A seal that succeeds means that
  the act had every mandatory content, that any advisory finding was acknowledged, and that the
  metadata the seal binds names the pack of the entity's family.
\<close>

theorem sealed_act_has_mandatory_contents:
  assumes "seal_act_with_evidence env b a l e (rule_pack_for w e) actor ack ev new_id now = (Ok out, s)"
  shows "mandatory_contents a e \<and> (rp_check_act (rule_pack_for w e) a e = [] \<or> ack)
    \<and> sm_rule_pack_id (so_seal_metadata out) = rp_id (family_pack w (ent_family e))"
proof -
  obtain b' a' l' where s: "s = (b', a', l')" by (cases s) auto
  note sealed = assms [unfolded s]
  from sealed have "seal_refusal env b a e (rule_pack_for w e) ack ev = None"
    by (rule seal_success)
  then have "mandatory_contents a e" "rp_check_act (rule_pack_for w e) a e = [] \<or> ack"
    using refusal_None_compliant rule_pack_blocks by blast+
  moreover from sealed have
    "so_seal_metadata out = with_ata_number (evidence_metadata ev (rp_id (rule_pack_for w e)) e) (bk_last_ata_number b + 1)"
    by (rule seal_success) simp
  then have "sm_rule_pack_id (so_seal_metadata out) = rp_id (rule_pack_for w e)"
    by (simp add: with_ata_number_def evidence_metadata_def new_seal_metadata_def with_digital_signature_evidence_def
        with_manual_signature_original_reference_def Let_def split: seal_evidence.splits)
  ultimately show ?thesis by (simp add: rule_pack_for_def profile_pack_def)
qed

text \<open>The cross-multiplication at 128 bits is the one over the naturals.\<close>

lemma unat_u32_less: "unat (x :: u32) < 2 ^ 32"
  using unsigned_less [of x] by simp

lemma unat_word_of_nat_u128: "n < 2 ^ 128 \<Longrightarrow> unat (of_nat n :: u128) = n"
  by (simp add: unat_of_nat)

lemma unat_ucast_u32: "unat (ucast (x :: u32) :: u128) = unat x"
proof -
  have "unat x < 2 ^ 128" using unat_u32_less [of x] by simp
  then have "unat (of_nat (unat x) :: u128) = unat x" by (rule unat_word_of_nat_u128)
  then show ?thesis by simp
qed

lemma unat_tally:
  "unat (ucast (f :: u32) + ucast (c :: u32) + ucast (b :: u32) :: u128) = unat f + unat c + unat b"
proof -
  have "unat f + unat c + unat b < 2 ^ 128"
    using unat_u32_less [of f] unat_u32_less [of c] unat_u32_less [of b] by simp
  moreover have "ucast f + ucast c + ucast b = (of_nat (unat f + unat c + unat b) :: u128)"
    by simp
  ultimately show ?thesis by (simp only: unat_word_of_nat_u128)
qed

lemma unat_product:
  assumes "unat (t :: u128) < 2 ^ 64"
  shows "unat (ucast (x :: u32) * t) = unat x * unat t"
proof -
  have "unat x * unat t < 2 ^ 32 * 2 ^ 64" using assms unat_u32_less by (intro mult_strict_mono') simp_all
  then have "unat x * unat t < 2 ^ 128" by simp
  moreover have "ucast x * t = (of_nat (unat x * unat t) :: u128)" by simp
  ultimately show ?thesis by (simp only: unat_word_of_nat_u128)
qed

lemma below_majority_exact:
  "below_majority maj f (ucast f + ucast (c :: u32) + ucast (b :: u32)) \<longleftrightarrow>
     0 < unat f + unat c + unat b
     \<and> unat f * unat (denominator maj) < unat (numerator maj) * (unat f + unat c + unat b)"
proof -
  let ?t = "ucast f + ucast c + ucast b :: u128"
  have "unat ?t < 2 ^ 64" using unat_u32_less [of f] unat_u32_less [of c] unat_u32_less [of b]
    by (simp add: unat_tally)
  then have num: "unat (ucast (numerator maj) * ?t) = unat (numerator maj) * (unat f + unat c + unat b)"
    by (simp only: unat_product unat_tally)
  have "unat (ucast (denominator maj) :: u128) < 2 ^ 64"
    using unat_u32_less [of "denominator maj"] by (simp add: unat_ucast_u32)
  then have "unat (ucast f * ucast (denominator maj) :: u128) = unat f * unat (denominator maj)"
    by (simp only: unat_product unat_ucast_u32)
  with num show ?thesis
    unfolding below_majority_def word_less_nat_alt by (simp only: unat_tally unat_0)
qed

text \<open>The rule ids a list of findings carries.\<close>

definition reports :: "compliance_issue list \<Rightarrow> string \<Rightarrow> bool" where
  "reports issues rule_id \<longleftrightarrow> (\<exists>i \<in> set issues. ci_rule_id i = rule_id)"

lemma reports_simps [simp]:
  "\<not> reports [] r" "reports (xs @ ys) r \<longleftrightarrow> reports xs r \<or> reports ys r"
  "reports (push_if c (warning_issue w r' vs)) r \<longleftrightarrow> c \<and> r' = r"
  "reports [warning_issue w r' vs] r \<longleftrightarrow> r' = r"
  by (auto simp: reports_def push_if_def)

lemma majority_weight_issues_report: "\<not> reports (majority_weight_issues w weighted warned i tally) ''STATUTE/majority''"
  by (simp add: majority_weight_issues_def split: option.splits)

text \<open>The declarative reading of a vote below the majority, over the naturals.\<close>

definition falls_short :: "majority \<Rightarrow> deliberation_item \<Rightarrow> bool" where
  "falls_short maj item \<longleftrightarrow>
     (case di_vote item of
        Some (Recorded f c b) \<Rightarrow>
          0 < unat f + unat c + unat b
          \<and> unat f * unat (denominator maj) < unat (numerator maj) * (unat f + unat c + unat b)
      | _ \<Rightarrow> False)"

lemma majority_loop_report:
  "reports (majority_loop w maj weighted warned items) ''STATUTE/majority''
     \<longleftrightarrow> (\<exists>item \<in> snd ` set items. falls_short maj item)"
  by (induction w maj weighted warned items rule: majority_loop.induct)
    (simp_all add: falls_short_def majority_weight_issues_report below_majority_exact Let_def
      split: option.splits vote_result.splits)

lemma quorum_findings_report:
  "\<not> reports (fst (quorum_findings w a weighted statute)) ''STATUTE/majority''"
  "\<not> reports (fst (quorum_findings w a weighted statute)) ''STATUTE/convocation-notice''"
  by (simp_all add: quorum_findings_def Let_def split: option.splits)

lemma convocation_findings_report:
  "\<not> reports (convocation_findings w a statute) ''STATUTE/majority''"
  "reports (convocation_findings w a statute) ''STATUTE/convocation-notice'' \<longleftrightarrow>
     (\<exists>required actual. so_convocation_notice_days statute = Some required
        \<and> statute_convocation_notice_antecedence_days a = Some actual \<and> actual < uint required)"
  by (simp_all add: convocation_findings_def split: option.splits)

lemma majority_loop_no_notice: "\<not> reports (majority_loop w maj weighted warned items) ''STATUTE/convocation-notice''"
  by (induction w maj weighted warned items rule: majority_loop.induct)
    (simp_all add: majority_weight_issues_def Let_def split: option.splits vote_result.splits)

text \<open>
  C15: the statutory majority is checked exactly, at machine width. The overlay reports
  \<open>STATUTE/majority\<close> if and only if a majority with a non-zero denominator is configured and some
  recorded, non-empty vote has a share in favour strictly below it over the unbounded naturals: the
  128-bit cross-multiplication never wraps, whatever the counts and whatever the attendance weights.
\<close>

theorem majority_checked_without_overflow:
  "reports (statute_findings_inner w a e statute) ''STATUTE/majority'' \<longleftrightarrow>
     (\<exists>maj. so_majority statute = Some maj \<and> denominator maj \<noteq> 0
        \<and> (\<exists>item \<in> set (act_deliberation_items a). falls_short maj item))"
proof -
  have "snd ` set (List.enumerate 0 xs) = set xs" for xs :: "deliberation_item list"
    by (metis list.set_map map_snd_enumerate)
  then show ?thesis
    by (auto simp: statute_findings_split majority_findings_def majority_loop_report quorum_findings_report
        convocation_findings_report Let_def split: option.splits)
qed

text \<open>
  C16: when the statutory notice period is checked. A short notice is reported if and only if the
  statutes set a period, the act records a shorter antecedence, and the quorum check did not leave the
  function first: with a quorum configured and weights on the attendance list, whether complete or
  not, the period is never looked at.
\<close>

theorem notice_period_checked_unless_quorum_weighted:
  "reports (statute_findings_inner w a e statute) ''STATUTE/convocation-notice'' \<longleftrightarrow>
     (\<exists>required actual. so_convocation_notice_days statute = Some required
        \<and> statute_convocation_notice_antecedence_days a = Some actual \<and> actual < uint required)
     \<and> (so_quorum statute = None
        \<or> (case Option.bind (Option.bind e weight_for_entity) (attendance_summary a) of
             None \<Rightarrow> True
           | Some s \<Rightarrow> (has_weight_metadata s = False \<or> weights_complete s) \<and> can_use_weight s = False))"
proof -
  let ?weighted = "Option.bind (Option.bind e weight_for_entity) (attendance_summary a)"
  have "snd (quorum_findings w a ?weighted statute) \<longleftrightarrow> so_quorum statute = None \<or>
    (case ?weighted of None \<Rightarrow> True
     | Some s \<Rightarrow> (has_weight_metadata s = False \<or> weights_complete s) \<and> can_use_weight s = False)"
    by (auto simp: quorum_findings_def Let_def split: option.splits)
  moreover have "\<not> reports (majority_findings w a ?weighted statute) ''STATUTE/convocation-notice''"
    by (simp add: majority_findings_def majority_loop_no_notice split: option.splits)
  ultimately show ?thesis
    by (simp add: statute_findings_split quorum_findings_report convocation_findings_report Let_def)
qed

section \<open>Evaluated instances\<close>

definition complete_act :: act where
  "complete_act = signing_act\<lparr>act_meeting_date := Some 0, act_place := Some ''Sede'', act_attendance_reference := Some ''Lista'',
     act_deliberations := ''Aprovado'', act_mesa := (act_mesa signing_act)\<lparr>presidente := Some ''Ana''\<rparr>\<rparr>"

definition sample_pack :: rule_pack where
  "sample_pack = rule_pack_for (\<lambda>r _. r) sample_entity"

definition pack_sealing :: "(seal_error, seal_outcome, book \<times> act \<times> ledger) call" where
  "pack_sealing = seal_act_with_evidence plain_seal_env opened_sample_book complete_act opened_ledger sample_entity
     sample_pack ''ana'' True sample_evidence 3 sample_time"

lemma pack_sealing_ok: "is_ok (fst pack_sealing)"
  by code_simp

theorem sealed_act_has_mandatory_contents_witness:
  "mandatory_contents complete_act sample_entity
     \<and> (\<exists>out s. pack_sealing = (Ok out, s) \<and> sm_rule_pack_id (so_seal_metadata out) = ''csc-art63/v2'')"
proof -
  obtain out b a l where s: "pack_sealing = (Ok out, (b, a, l))" using call_eq_Ok [OF pack_sealing_ok] by blast
  have "ent_family sample_entity = CommercialCompany" by (simp add: sample_entity_def new_entity_def)
  with sealed_act_has_mandatory_contents [OF s [unfolded pack_sealing_def sample_pack_def]] s show ?thesis
    by (intro conjI exI) auto
qed

end
