(* ===== verification/Profile.thy ===== *)
theory Profile
  imports Rules "HOL-Library.Monad_Syntax"
begin

section \<open>Entity profiles and the profile calendar\<close>

text \<open>
  \<open>src/crates/chancela-core/src/profile.rs\<close>: what the platform derives from the legal type of an
  entity, and the planner that turns a calendar preset into the due date of the current year. A date is
  its year, month and day, ordered as the calendar orders them. Which triples the calendar library accepts
  is a parameter \<open>date_ok\<close>; \<open>gregorian\<close> states its documented behaviour. Every
  \<open>expect\<close> and \<open>unreachable!\<close> of the code is the value \<open>None\<close>, so that a result
  \<open>Some\<close> says that the code does not panic. Display texts are UTF-8 bytes.
\<close>

subsection \<open>Dates\<close>

datatype calendar_date = Calendar_Date (date_year: int) (date_month: nat) (date_day: nat)

instantiation calendar_date :: linorder
begin

definition less_eq_calendar_date :: "calendar_date \<Rightarrow> calendar_date \<Rightarrow> bool" where
  "less_eq_calendar_date d d' \<longleftrightarrow> date_year d < date_year d' \<or> date_year d = date_year d'
     \<and> (date_month d < date_month d' \<or> date_month d = date_month d' \<and> date_day d \<le> date_day d')"

definition less_calendar_date :: "calendar_date \<Rightarrow> calendar_date \<Rightarrow> bool" where
  "less_calendar_date d d' \<longleftrightarrow> d \<le> d' \<and> \<not> d' \<le> d"

instance
proof
  fix x y z :: calendar_date
  show "x < y \<longleftrightarrow> x \<le> y \<and> \<not> y \<le> x" by (rule less_calendar_date_def)
  show "x \<le> x" by (simp add: less_eq_calendar_date_def)
  show "x \<le> y \<Longrightarrow> y \<le> z \<Longrightarrow> x \<le> z" by (auto simp: less_eq_calendar_date_def)
  show "x \<le> y \<Longrightarrow> y \<le> x \<Longrightarrow> x = y" by (auto simp: less_eq_calendar_date_def calendar_date.expand)
  show "x \<le> y \<or> y \<le> x" by (auto simp: less_eq_calendar_date_def)
qed

end

type_synonym date_range = "int \<Rightarrow> nat \<Rightarrow> nat \<Rightarrow> bool"

definition from_calendar_date :: "date_range \<Rightarrow> int \<Rightarrow> nat \<Rightarrow> nat \<Rightarrow> calendar_date option" where
  "from_calendar_date date_ok year month day = (if date_ok year month day then Some (Calendar_Date year month day) else None)"

definition month_try_from :: "nat \<Rightarrow> nat option" where
  "month_try_from month = (if 1 \<le> month \<and> month \<le> 12 then Some month else None)"

definition is_leap_year :: "int \<Rightarrow> bool" where
  "is_leap_year year \<longleftrightarrow> (year mod 4 = 0 \<and> year mod 100 \<noteq> 0) \<or> year mod 400 = 0"

definition days_in_month :: "int \<Rightarrow> nat \<Rightarrow> nat option" where
  "days_in_month year month =
     (if month \<in> {1, 3, 5, 7, 8, 10, 12} then Some 31
      else if month \<in> {4, 6, 9, 11} then Some 30
      else if month = 2 then Some (if is_leap_year year then 29 else 28)
      else None)"

subsection \<open>The fiscal year end\<close>

record fiscal_year_end =
  fye_month :: nat
  fye_day :: nat

text \<open>\<open>str::split_once\<close>, and \<open>parse::<u8>\<close>: an optional plus sign, decimal digits, at most 255.\<close>

definition split_once :: "char \<Rightarrow> string \<Rightarrow> (string \<times> string) option" where
  "split_once c s = (case dropWhile (\<lambda>x. x \<noteq> c) s of [] \<Rightarrow> None | _ # rest \<Rightarrow> Some (takeWhile (\<lambda>x. x \<noteq> c) s, rest))"

definition parse_u8 :: "string \<Rightarrow> nat option" where
  "parse_u8 s =
     (let digits = (case s of c # rest \<Rightarrow> if c = CHR ''+'' then rest else s | [] \<Rightarrow> []);
          number = foldl (\<lambda>n c. 10 * n + to_digit c) 0 digits in
      if digits = [] \<or> \<not> list_all is_ascii_digit digits \<or> 255 < number then None else Some number)"

definition parse_fiscal_year_end :: "date_range \<Rightarrow> string \<Rightarrow> fiscal_year_end option" where
  "parse_fiscal_year_end date_ok s = do {
     (month, day) \<leftarrow> split_once (CHR ''-'') s;
     month \<leftarrow> parse_u8 month;
     day \<leftarrow> parse_u8 day;
     month \<leftarrow> month_try_from month;
     _ \<leftarrow> from_calendar_date date_ok 2000 month day;
     Some \<lparr>fye_month = month, fye_day = day\<rparr>
   }"

text \<open>\<open>format!("{:02}-{:02}")\<close>.\<close>

definition two_digits :: "nat \<Rightarrow> string" where
  "two_digits n = (if n < 10 then ''0'' @ nat_decimal n else nat_decimal n)"

definition format_mm_dd :: "fiscal_year_end \<Rightarrow> string" where
  "format_mm_dd f = two_digits (fye_month f) @ ''-'' @ two_digits (fye_day f)"

record annual_fixed_date =
  afd_month :: nat
  afd_day :: nat

definition CONDOMINIUM_ANNUAL_ADVISORY_DATE :: annual_fixed_date where
  "CONDOMINIUM_ANNUAL_ADVISORY_DATE = \<lparr>afd_month = 1, afd_day = 15\<rparr>"

definition DEFAULT_PROFILE_CALENDAR_FISCAL_YEAR_END :: fiscal_year_end where
  "DEFAULT_PROFILE_CALENDAR_FISCAL_YEAR_END = \<lparr>fye_month = 12, fye_day = 31\<rparr>"

subsection \<open>Presets and profiles\<close>

datatype signature_policy_hint = QualifiedPreferred | QualifiedOrHandwritten | ManualAttested

datatype calendar_rule_kind =
    CommercialCompanyAnnualGeneralMeeting | CondominiumAnnualAssembly | AssociationAnnualGeneralMeeting
  | FoundationAnnualGovernanceReview | CooperativeAnnualGeneralMeeting

datatype calendar_support_status = RuleSupported | RuleUnsupported

datatype calendar_review_status = PendingSourceReview

datatype calendar_source_status = PendingUnverified

datatype calendar_unsupported_reason = MissingLocalDueDateRule

datatype calendar_due_rule =
    FiscalYearEndOffset (months_after_fiscal_year_end: nat) (default_fiscal_year_end: fiscal_year_end)
  | AnnualFixedDate nat nat
  | NotEncoded calendar_unsupported_reason

record no_claim_flags =
  local_advisory_only :: bool
  legal_deadline_authority_claimed :: bool
  legal_calendar_authority_claimed :: bool
  legal_compliance_claimed :: bool
  compliance_status_claimed :: bool
  workflow_completion_claimed :: bool
  external_delivery_claimed :: bool
  external_calendar_sync_claimed :: bool
  webhook_delivery_claimed :: bool
  legal_review_claimed :: bool
  dre_verification_claimed :: bool
  provider_effect_claimed :: bool
  certification_claimed :: bool

definition local_advisory :: no_claim_flags where
  "local_advisory = \<lparr>local_advisory_only = True, legal_deadline_authority_claimed = False,
     legal_calendar_authority_claimed = False, legal_compliance_claimed = False, compliance_status_claimed = False,
     workflow_completion_claimed = False, external_delivery_claimed = False, external_calendar_sync_claimed = False,
     webhook_delivery_claimed = False, legal_review_claimed = False, dre_verification_claimed = False,
     provider_effect_claimed = False, certification_claimed = False\<rparr>"

record calendar_law_reference =
  clr_diploma_id :: string
  clr_article :: string
  clr_label :: string
  clr_source_status :: calendar_source_status

definition law_reference :: "string \<Rightarrow> string \<Rightarrow> calendar_law_reference list" where
  "law_reference diploma article =
     [\<lparr>clr_diploma_id = diploma, clr_article = article, clr_label = artigo article, clr_source_status = PendingUnverified\<rparr>]"

record calendar_preset =
  cp_id :: string
  cp_label :: string
  cp_months_after_fiscal_year_end :: "nat option"
  cp_rule_kind :: calendar_rule_kind
  cp_support_status :: calendar_support_status
  cp_review_status :: calendar_review_status
  cp_due_rule :: calendar_due_rule
  cp_source_status :: calendar_source_status
  cp_law_refs :: "calendar_law_reference list"
  cp_no_claims :: no_claim_flags

definition fiscal_year_end_calendar_preset ::
  "string \<Rightarrow> string \<Rightarrow> calendar_rule_kind \<Rightarrow> nat \<Rightarrow> calendar_law_reference list \<Rightarrow> calendar_preset" where
  "fiscal_year_end_calendar_preset ident label rule_kind months law_refs =
     \<lparr>cp_id = ident, cp_label = label, cp_months_after_fiscal_year_end = Some months, cp_rule_kind = rule_kind,
      cp_support_status = RuleSupported, cp_review_status = PendingSourceReview,
      cp_due_rule = FiscalYearEndOffset months DEFAULT_PROFILE_CALENDAR_FISCAL_YEAR_END,
      cp_source_status = PendingUnverified, cp_law_refs = law_refs, cp_no_claims = local_advisory\<rparr>"

definition annual_fixed_date_calendar_preset ::
  "string \<Rightarrow> string \<Rightarrow> calendar_rule_kind \<Rightarrow> annual_fixed_date \<Rightarrow> calendar_law_reference list \<Rightarrow> calendar_preset" where
  "annual_fixed_date_calendar_preset ident label rule_kind fixed law_refs =
     \<lparr>cp_id = ident, cp_label = label, cp_months_after_fiscal_year_end = None, cp_rule_kind = rule_kind,
      cp_support_status = RuleSupported, cp_review_status = PendingSourceReview,
      cp_due_rule = AnnualFixedDate (afd_month fixed) (afd_day fixed),
      cp_source_status = PendingUnverified, cp_law_refs = law_refs, cp_no_claims = local_advisory\<rparr>"

definition local_due_date_rule_configured :: "calendar_due_rule \<Rightarrow> bool" where
  "local_due_date_rule_configured rule = (case rule of NotEncoded _ \<Rightarrow> False | _ \<Rightarrow> True)"

record entity_profile =
  ep_family :: entity_family
  ep_rule_pack_id :: string
  ep_allowed_channels :: "meeting_channel list"
  ep_signature_policy :: signature_policy_hint
  ep_template_family :: string
  ep_calendar_presets :: "calendar_preset list"
  ep_attendee_qualities :: "signatory_capacity list"

definition attendee_qualities :: "entity_kind \<Rightarrow> signatory_capacity list" where
  "attendee_qualities kind =
     (let organ = (if kind \<in> {SociedadePorQuotas, SociedadeUnipessoalPorQuotas, SociedadeEmNomeColetivo,
                        SociedadeEmComanditaSimples} then Manager else Administrator) in
      membership_qualities kind @ [Chair, Secretary, organ, Attorney]
      @ (if kind \<noteq> Condominio then [StatutoryAuditor] else []) @ [Guest, OtherCapacity])"

definition commercial_presets :: "calendar_preset list" where
  "commercial_presets = [fiscal_year_end_calendar_preset ''csc-art376-annual''
     (''Assembleia geral anual (CSC art. 376.'' @ [CHR 0xC2, CHR 0xBA] @ '')'') CommercialCompanyAnnualGeneralMeeting 3
     (law_reference ''csc'' ''376'')]"

definition condominium_presets :: "calendar_preset list" where
  "condominium_presets = [annual_fixed_date_calendar_preset ''condominio-annual''
     (''Assembleia ordin'' @ [CHR 0xC3, CHR 0xA1] @ ''ria anual de cond'' @ [CHR 0xC3, CHR 0xB3] @ ''minos (DL 268/94)'')
     CondominiumAnnualAssembly CONDOMINIUM_ANNUAL_ADVISORY_DATE (law_reference ''cc'' ''1431'')]"

definition association_presets :: "calendar_preset list" where
  "association_presets = [fiscal_year_end_calendar_preset ''assoc-annual''
     (''Assembleia geral ordin'' @ [CHR 0xC3, CHR 0xA1] @ ''ria anual ('' @ codigo ''Civil)'')
     AssociationAnnualGeneralMeeting 3 (law_reference ''cc'' ''173'')]"

definition foundation_presets :: "calendar_preset list" where
  "foundation_presets = [fiscal_year_end_calendar_preset ''fundacao-annual''
     (''Reuni'' @ [CHR 0xC3, CHR 0xA3] @ ''o anual do conselho de administra'' @ [CHR 0xC3, CHR 0xA7, CHR 0xC3, CHR 0xA3]
        @ ''o (Lei 24/2012)'') FoundationAnnualGovernanceReview 3 []]"

definition cooperative_presets :: "calendar_preset list" where
  "cooperative_presets = [fiscal_year_end_calendar_preset ''cooperativa-annual''
     (''Assembleia geral anual ('' @ codigo ''Cooperativo)'') CooperativeAnnualGeneralMeeting 3
     (law_reference ''cod-cooperativo'' ''33'')]"

fun family_facets :: "entity_family \<Rightarrow> string \<times> signature_policy_hint \<times> string \<times> calendar_preset list" where
  "family_facets CommercialCompany = (''csc-art63/v2'', QualifiedPreferred, ''csc-commercial'', commercial_presets)"
| "family_facets Condominium = (''condominio-dl268/v1'', QualifiedOrHandwritten, ''condominio-dl268'', condominium_presets)"
| "family_facets Association = (''assoc-cc/v1'', ManualAttested, ''assoc-cc'', association_presets)"
| "family_facets Foundation = (''fundacao-cc/v1'', ManualAttested, ''fundacao-cc'', foundation_presets)"
| "family_facets Cooperative = (''cooperativa-ccoop/v1'', ManualAttested, ''cooperativa-ccoop'', cooperative_presets)"

definition profile_for :: "entity_kind \<Rightarrow> entity_profile" where
  "profile_for kind =
     (let family = kind_family kind;
          (rule_pack_id, signature_policy, template_family, calendar_presets) = family_facets family in
      \<lparr>ep_family = family, ep_rule_pack_id = rule_pack_id, ep_allowed_channels = allowed_channels family,
       ep_signature_policy = signature_policy, ep_template_family = template_family,
       ep_calendar_presets = calendar_presets, ep_attendee_qualities = attendee_qualities kind\<rparr>)"

record calendar_plan =
  pl_family :: entity_family
  pl_template_family :: string
  pl_rules :: "calendar_preset list"

definition profile_calendar_plan_for :: "entity_kind \<Rightarrow> calendar_plan" where
  "profile_calendar_plan_for kind =
     (let profile = profile_for kind in
      \<lparr>pl_family = ep_family profile, pl_template_family = ep_template_family profile, pl_rules = ep_calendar_presets profile\<rparr>)"

definition is_sa_or_lda_like :: "entity_kind \<Rightarrow> bool" where
  "is_sa_or_lda_like kind \<longleftrightarrow> kind \<in> {SociedadeAnonima, SociedadePorQuotas, SociedadeUnipessoalPorQuotas}"

definition supports_profile_calendar_plan :: "entity_kind \<Rightarrow> bool" where
  "supports_profile_calendar_plan kind \<longleftrightarrow> kind_family kind \<noteq> CommercialCompany \<or> is_sa_or_lda_like kind"

subsection \<open>Due dates\<close>

definition fiscal_year_end_date :: "date_range \<Rightarrow> int \<Rightarrow> fiscal_year_end \<Rightarrow> calendar_date option" where
  "fiscal_year_end_date date_ok year f = do {
     month \<leftarrow> month_try_from (fye_month f);
     days \<leftarrow> days_in_month year (fye_month f);
     from_calendar_date date_ok year month (min (fye_day f) days)
   }"

definition add_months_clamped :: "date_range \<Rightarrow> calendar_date \<Rightarrow> nat \<Rightarrow> calendar_date option" where
  "add_months_clamped date_ok d months =
     (let zero_based_month = int (date_month d) - 1 + int months;
          year = date_year d + zero_based_month div 12;
          month = nat (zero_based_month mod 12) + 1 in
      do {
        days \<leftarrow> days_in_month year month;
        month \<leftarrow> month_try_from month;
        from_calendar_date date_ok year month (min (date_day d) days)
      })"

definition profile_calendar_fixed_date_for_year :: "date_range \<Rightarrow> int \<Rightarrow> annual_fixed_date \<Rightarrow> calendar_date option" where
  "profile_calendar_fixed_date_for_year date_ok year fixed = do {
     month \<leftarrow> month_try_from (afd_month fixed);
     days \<leftarrow> days_in_month year (afd_month fixed);
     from_calendar_date date_ok year month (min (afd_day fixed) days)
   }"

definition due_date_of :: "date_range \<Rightarrow> fiscal_year_end \<Rightarrow> nat \<Rightarrow> int \<Rightarrow> calendar_date option" where
  "due_date_of date_ok f months fiscal_year = do {
     year_end \<leftarrow> fiscal_year_end_date date_ok fiscal_year f;
     add_months_clamped date_ok year_end months
   }"

fun due_date_loop :: "date_range \<Rightarrow> int \<Rightarrow> fiscal_year_end \<Rightarrow> nat \<Rightarrow> int list \<Rightarrow> calendar_date option" where
  "due_date_loop date_ok due_year f months [] = due_date_of date_ok f months due_year"
| "due_date_loop date_ok due_year f months (fiscal_year # rest) = do {
     due_date \<leftarrow> due_date_of date_ok f months fiscal_year;
     if date_year due_date = due_year then Some due_date else due_date_loop date_ok due_year f months rest
   }"

definition profile_calendar_due_date_for_year :: "date_range \<Rightarrow> int \<Rightarrow> fiscal_year_end \<Rightarrow> nat \<Rightarrow> calendar_date option" where
  "profile_calendar_due_date_for_year date_ok due_year f months =
     due_date_loop date_ok due_year f months [due_year, due_year - 1]"

definition first_fiscal_year_end :: "date_range \<Rightarrow> calendar_date \<Rightarrow> fiscal_year_end \<Rightarrow> calendar_date option" where
  "first_fiscal_year_end date_ok constitution f = do {
     constitution_year_end \<leftarrow> fiscal_year_end_date date_ok (date_year constitution) f;
     if constitution_year_end \<ge> constitution then Some constitution_year_end
     else fiscal_year_end_date date_ok (date_year constitution + 1) f
   }"

definition first_applicable_annual_due_date ::
  "date_range \<Rightarrow> calendar_date \<Rightarrow> fiscal_year_end \<Rightarrow> nat \<Rightarrow> calendar_date option" where
  "first_applicable_annual_due_date date_ok constitution f months = do {
     year_end \<leftarrow> first_fiscal_year_end date_ok constitution f;
     add_months_clamped date_ok year_end months
   }"

definition is_in_first_fiscal_year ::
  "date_range \<Rightarrow> calendar_date option \<Rightarrow> fiscal_year_end \<Rightarrow> calendar_date \<Rightarrow> bool option" where
  "is_in_first_fiscal_year date_ok constitution f today =
     (case constitution of
        None \<Rightarrow> Some False
      | Some c \<Rightarrow> do { year_end \<leftarrow> first_fiscal_year_end date_ok c f; Some (today \<le> year_end) })"

definition is_before_first_applicable_annual_due ::
  "date_range \<Rightarrow> calendar_date option \<Rightarrow> fiscal_year_end \<Rightarrow> nat \<Rightarrow> calendar_date \<Rightarrow> bool option" where
  "is_before_first_applicable_annual_due date_ok constitution f months due_date =
     (case constitution of
        None \<Rightarrow> Some False
      | Some c \<Rightarrow> do { first_due \<leftarrow> first_applicable_annual_due_date date_ok c f months; Some (due_date < first_due) })"

definition first_applicable_fixed_annual_due_date ::
  "date_range \<Rightarrow> calendar_date \<Rightarrow> annual_fixed_date \<Rightarrow> calendar_date option" where
  "first_applicable_fixed_annual_due_date date_ok constitution fixed = do {
     same_year_due \<leftarrow> profile_calendar_fixed_date_for_year date_ok (date_year constitution) fixed;
     if same_year_due \<ge> constitution then Some same_year_due
     else profile_calendar_fixed_date_for_year date_ok (date_year constitution + 1) fixed
   }"

definition is_before_first_applicable_fixed_annual_due ::
  "date_range \<Rightarrow> calendar_date option \<Rightarrow> annual_fixed_date \<Rightarrow> calendar_date \<Rightarrow> bool option" where
  "is_before_first_applicable_fixed_annual_due date_ok constitution fixed due_date =
     (case constitution of
        None \<Rightarrow> Some False
      | Some c \<Rightarrow> do { first_due \<leftarrow> first_applicable_fixed_annual_due_date date_ok c fixed; Some (due_date < first_due) })"

subsection \<open>Evaluation of a preset\<close>

datatype calendar_due_basis =
    RecordedFiscalYearEnd | DefaultFiscalYearEndMissingRecordedValue
  | DefaultFiscalYearEndUnreadableRecordedValue | AnnualFixedDateBasis

record calendar_context =
  cc_today :: calendar_date
  cc_recorded_fiscal_year_end :: "string option"
  cc_constitution_date :: "calendar_date option"

record scheduled_rule =
  sr_due_date :: calendar_date
  sr_fiscal_year_end :: "fiscal_year_end option"
  sr_months_after_fiscal_year_end :: "nat option"
  sr_annual_fixed_date :: "annual_fixed_date option"
  sr_due_basis :: calendar_due_basis

datatype suppression_reason = FirstFiscalYear | BeforeFirstApplicableAnnualDue

datatype rule_evaluation =
    Scheduled scheduled_rule | Unsupported calendar_unsupported_reason | Suppressed suppression_reason

definition resolve_fiscal_year_end ::
  "date_range \<Rightarrow> string option \<Rightarrow> fiscal_year_end \<Rightarrow> fiscal_year_end \<times> calendar_due_basis" where
  "resolve_fiscal_year_end date_ok recorded default_end =
     (case recorded of
        None \<Rightarrow> (default_end, DefaultFiscalYearEndMissingRecordedValue)
      | Some s \<Rightarrow>
          (case parse_fiscal_year_end date_ok s of
             Some f \<Rightarrow> (f, RecordedFiscalYearEnd)
           | None \<Rightarrow> (default_end, DefaultFiscalYearEndUnreadableRecordedValue)))"

definition evaluate_offset ::
  "date_range \<Rightarrow> nat \<Rightarrow> fiscal_year_end \<Rightarrow> calendar_due_basis \<Rightarrow> calendar_context \<Rightarrow> rule_evaluation option" where
  "evaluate_offset date_ok months f due_basis ctx = do {
     in_first_year \<leftarrow> is_in_first_fiscal_year date_ok (cc_constitution_date ctx) f (cc_today ctx);
     if in_first_year then Some (Suppressed FirstFiscalYear)
     else do {
       due_date \<leftarrow> profile_calendar_due_date_for_year date_ok (date_year (cc_today ctx)) f months;
       too_early \<leftarrow> is_before_first_applicable_annual_due date_ok (cc_constitution_date ctx) f months due_date;
       if too_early then Some (Suppressed BeforeFirstApplicableAnnualDue)
       else Some (Scheduled \<lparr>sr_due_date = due_date, sr_fiscal_year_end = Some f,
              sr_months_after_fiscal_year_end = Some months, sr_annual_fixed_date = None, sr_due_basis = due_basis\<rparr>)
     }
   }"

definition evaluate_fixed :: "date_range \<Rightarrow> annual_fixed_date \<Rightarrow> calendar_context \<Rightarrow> rule_evaluation option" where
  "evaluate_fixed date_ok fixed ctx = do {
     due_date \<leftarrow> profile_calendar_fixed_date_for_year date_ok (date_year (cc_today ctx)) fixed;
     too_early \<leftarrow> is_before_first_applicable_fixed_annual_due date_ok (cc_constitution_date ctx) fixed due_date;
     if too_early then Some (Suppressed BeforeFirstApplicableAnnualDue)
     else Some (Scheduled \<lparr>sr_due_date = due_date, sr_fiscal_year_end = None, sr_months_after_fiscal_year_end = None,
            sr_annual_fixed_date = Some fixed, sr_due_basis = AnnualFixedDateBasis\<rparr>)
   }"

definition evaluate_profile_calendar_rule ::
  "date_range \<Rightarrow> calendar_preset \<Rightarrow> calendar_context \<Rightarrow> rule_evaluation option" where
  "evaluate_profile_calendar_rule date_ok rule ctx =
     (case cp_due_rule rule of
        FiscalYearEndOffset months default_end \<Rightarrow>
          (let (f, due_basis) = resolve_fiscal_year_end date_ok (cc_recorded_fiscal_year_end ctx) default_end in
           evaluate_offset date_ok months f due_basis ctx)
      | AnnualFixedDate month day \<Rightarrow> evaluate_fixed date_ok \<lparr>afd_month = month, afd_day = day\<rparr> ctx
      | NotEncoded reason \<Rightarrow> Some (Unsupported reason))"

section \<open>The planner does not panic\<close>

text \<open>
  The documented range of the calendar, written down on its own and not by the code's table: years of
  at most four digits, the months with their days, 29 in February in years divisible by 4, and of
  the centuries only those divisible by 400.
\<close>

definition month_lengths :: "nat list" where
  "month_lengths = [31, 28, 31, 30, 31, 30, 31, 31, 30, 31, 30, 31]"

definition gregorian_length :: "int \<Rightarrow> nat \<Rightarrow> nat" where
  "gregorian_length year month =
     month_lengths ! (month - 1)
     + (if month = 2 \<and> 4 dvd year \<and> (100 dvd year \<longrightarrow> 400 dvd year) then 1 else 0)"

definition gregorian :: "date_range \<Rightarrow> bool" where
  "gregorian date_ok \<longleftrightarrow> (\<forall>year month day. date_ok year month day \<longleftrightarrow>
     - 9999 \<le> year \<and> year \<le> 9999 \<and> 1 \<le> month \<and> month \<le> 12
     \<and> 1 \<le> day \<and> day \<le> gregorian_length year month)"

text \<open>The code's own table agrees with that calendar.\<close>

lemma is_leap_year_dvd: "is_leap_year year \<longleftrightarrow> 4 dvd year \<and> (100 dvd year \<longrightarrow> 400 dvd year)"
proof -
  have "400 dvd year \<Longrightarrow> 4 dvd year" by (erule dvd_trans [rotated]) simp
  then show ?thesis unfolding is_leap_year_def mod_eq_0_iff_dvd by blast
qed

lemma days_in_month_gregorian:
  "days_in_month year month =
     (if 1 \<le> month \<and> month \<le> 12 then Some (gregorian_length year month) else None)"
proof (cases "1 \<le> month \<and> month \<le> 12")
  case True
  then have "month \<in> {1, 2, 3, 4, 5, 6, 7, 8, 9, 10, 11, 12}"
    unfolding insert_iff empty_iff by presburger
  with True show ?thesis
    by (elim insertE) (simp_all add: days_in_month_def gregorian_length_def month_lengths_def is_leap_year_dvd)
qed (auto simp: days_in_month_def)

lemma gregorian_days:
  "gregorian date_ok \<longleftrightarrow> (\<forall>year month day. date_ok year month day \<longleftrightarrow>
     - 9999 \<le> year \<and> year \<le> 9999
     \<and> (case days_in_month year month of Some days \<Rightarrow> 1 \<le> day \<and> day \<le> days | None \<Rightarrow> False))"
proof -
  have "(case days_in_month year month of Some days \<Rightarrow> 1 \<le> day \<and> day \<le> days | None \<Rightarrow> False)
      \<longleftrightarrow> 1 \<le> month \<and> month \<le> 12 \<and> 1 \<le> day \<and> day \<le> gregorian_length year month" for year month day
    by (auto simp: days_in_month_gregorian)
  then show ?thesis by (simp only: gregorian_def)
qed

definition valid_date :: "date_range \<Rightarrow> calendar_date \<Rightarrow> bool" where
  "valid_date date_ok d \<longleftrightarrow> date_ok (date_year d) (date_month d) (date_day d)"

definition plausible :: "nat \<Rightarrow> nat \<Rightarrow> bool" where
  "plausible month day \<longleftrightarrow> 1 \<le> month \<and> month \<le> 12 \<and> 1 \<le> day"

lemma days_in_month_Some: "1 \<le> month \<Longrightarrow> month \<le> 12 \<Longrightarrow> \<exists>days. days_in_month year month = Some days \<and> 28 \<le> days"
  by (simp add: days_in_month_def) presburger

lemma days_in_month_SomeD: "days_in_month year month = Some days \<Longrightarrow> 1 \<le> month \<and> month \<le> 12"
  by (auto simp: days_in_month_def split: if_splits)

lemma clamped_date:
  assumes "gregorian date_ok" "plausible month day" "- 9999 \<le> year" "year \<le> 9999"
  obtains days where "days_in_month year month = Some days" "month_try_from month = Some month"
    "from_calendar_date date_ok year month (min day days) = Some (Calendar_Date year month (min day days))"
    "valid_date date_ok (Calendar_Date year month (min day days))"
proof -
  from assms(2) obtain days where "days_in_month year month = Some days" "28 \<le> days"
    using days_in_month_Some [of month year] by (auto simp: plausible_def)
  moreover from this assms have "date_ok year month (min day days)" by (simp add: gregorian_days plausible_def)
  ultimately show thesis
    using that assms(2) by (simp add: plausible_def month_try_from_def from_calendar_date_def valid_date_def)
qed

lemma fiscal_year_end_date_Some:
  assumes "gregorian date_ok" "plausible (fye_month f) (fye_day f)" "- 9999 \<le> year" "year \<le> 9999"
  obtains d where "fiscal_year_end_date date_ok year f = Some d" "valid_date date_ok d"
    "date_year d = year" "date_month d = fye_month f"
  using assms by (rule clamped_date) (simp add: fiscal_year_end_date_def)

lemma fixed_date_Some:
  assumes "gregorian date_ok" "plausible (afd_month f) (afd_day f)" "- 9999 \<le> year" "year \<le> 9999"
  obtains d where "profile_calendar_fixed_date_for_year date_ok year f = Some d" "valid_date date_ok d" "date_year d = year"
  using assms by (rule clamped_date) (simp add: profile_calendar_fixed_date_for_year_def)

lemma valid_date_plausible: "gregorian date_ok \<Longrightarrow> valid_date date_ok d \<Longrightarrow>
    plausible (date_month d) (date_day d) \<and> - 9999 \<le> date_year d \<and> date_year d \<le> 9999"
  by (auto simp: gregorian_days valid_date_def plausible_def dest: days_in_month_SomeD split: option.splits)

text \<open>Adding months carries into the year, clamps the day, and never goes back.\<close>

lemma add_months_not_before:
  assumes "gregorian date_ok" "valid_date date_ok d" "k = int (date_month d) - 1 + int months"
    "days_in_month (date_year d + k div 12) (nat (k mod 12) + 1) = Some days"
  shows "d \<le> Calendar_Date (date_year d + k div 12) (nat (k mod 12) + 1) (min (date_day d) days)"
proof (cases "k < 12")
  case True
  have "1 \<le> date_month d" using valid_date_plausible [OF assms(1, 2)] by (simp add: plausible_def)
  with True assms(3) have same: "k div 12 = 0" "nat (k mod 12) + 1 = date_month d + months"
    by simp_all
  show ?thesis
  proof (cases months)
    case 0
    with same assms(4) have "days_in_month (date_year d) (date_month d) = Some days" by simp
    then have "date_day d \<le> days" using assms(1, 2) by (simp add: gregorian_days valid_date_def)
    with 0 same show ?thesis by (simp add: less_eq_calendar_date_def)
  next
    case (Suc n)
    with same show ?thesis by (simp add: less_eq_calendar_date_def)
  qed
next
  case False
  then have "1 \<le> k div 12" by linarith
  then show ?thesis by (simp add: less_eq_calendar_date_def)
qed

lemma add_months_clamped_Some:
  assumes "gregorian date_ok" "valid_date date_ok d"
    "year = date_year d + (int (date_month d) - 1 + int months) div 12" "year \<le> 9999"
  obtains d' where "add_months_clamped date_ok d months = Some d'" "valid_date date_ok d'" "date_year d' = year" "d \<le> d'"
proof -
  define k where "k = int (date_month d) - 1 + int months"
  let ?month = "nat (k mod 12) + 1"
  have p: "plausible (date_month d) (date_day d)" "- 9999 \<le> date_year d"
    using valid_date_plausible [OF assms(1, 2)] by blast+
  then have "0 \<le> k" by (simp add: plausible_def k_def)
  then have "0 \<le> k div 12" by linarith
  then have lo: "- 9999 \<le> year" using assms(3) p(2) by (simp add: k_def)
  have m: "plausible ?month (date_day d)"
    using p(1) pos_mod_bound [of 12 k] by (simp add: plausible_def nat_le_iff)
  obtain days where days: "days_in_month year ?month = Some days" "month_try_from ?month = Some ?month"
    and made: "from_calendar_date date_ok year ?month (min (date_day d) days) = Some (Calendar_Date year ?month (min (date_day d) days))"
    and valid: "valid_date date_ok (Calendar_Date year ?month (min (date_day d) days))"
    using clamped_date [OF assms(1) m lo assms(4)] by blast
  have year: "year = date_year d + k div 12" using assms(3) by (simp add: k_def)
  show thesis
  proof (rule that)
    show "add_months_clamped date_ok d months = Some (Calendar_Date year ?month (min (date_day d) days))"
      using days made by (simp add: add_months_clamped_def Let_def k_def [symmetric] year [symmetric])
    show "d \<le> Calendar_Date year ?month (min (date_day d) days)"
      using add_months_not_before [OF assms(1, 2) k_def] days(1) by (simp add: year)
  qed (use valid in simp_all)
qed

text \<open>Of the two fiscal years tried, one has its due date in the year asked for.\<close>

lemma due_date_for_year_Some:
  assumes "gregorian date_ok" "plausible (fye_month f) (fye_day f)" "months \<le> 12" "- 9998 \<le> year" "year \<le> 9998"
  obtains d where "profile_calendar_due_date_for_year date_ok year f months = Some d" "valid_date date_ok d" "date_year d = year"
proof -
  define q where "q = (int (fye_month f) - 1 + int months) div 12"
  have "int (fye_month f) - 1 + int months < 24" "0 \<le> int (fye_month f) - 1 + int months"
    using assms(2, 3) by (simp_all add: plausible_def)
  then have "0 \<le> q" "q < 2" unfolding q_def by linarith+
  then have q: "q = 0 \<or> q = 1" by linarith
  have attempt: "\<exists>d. due_date_of date_ok f months y = Some d \<and> valid_date date_ok d \<and> date_year d = y + q"
    if y: "- 9999 \<le> y" "y \<le> 9998" for y
  proof -
    from y have "y \<le> 9999" by simp
    with y(1) obtain e where e: "fiscal_year_end_date date_ok y f = Some e" "valid_date date_ok e"
      "date_year e = y" "date_month e = fye_month f"
      using fiscal_year_end_date_Some [OF assms(1, 2)] by blast
    then have "y + q = date_year e + (int (date_month e) - 1 + int months) div 12" by (simp add: q_def)
    moreover have "y + q \<le> 9999" using y q by auto
    ultimately obtain d where "add_months_clamped date_ok e months = Some d" "valid_date date_ok d" "date_year d = y + q"
      using add_months_clamped_Some [OF assms(1) e(2)] by metis
    with e(1) show ?thesis by (simp add: due_date_of_def)
  qed
  from attempt [of year] attempt [of "year - 1"] assms(4, 5) obtain d d' where
    "due_date_of date_ok f months year = Some d" "valid_date date_ok d" "date_year d = year + q"
    "due_date_of date_ok f months (year - 1) = Some d'" "valid_date date_ok d'" "date_year d' = year - 1 + q" by auto
  with q that show thesis by (auto simp: profile_calendar_due_date_for_year_def)
qed

lemma first_fiscal_year_end_Some:
  assumes "gregorian date_ok" "plausible (fye_month f) (fye_day f)" "- 9999 \<le> date_year c" "date_year c \<le> 9998"
  obtains d where "first_fiscal_year_end date_ok c f = Some d" "valid_date date_ok d" "c \<le> d"
    "date_year d \<le> date_year c + 1" "date_month d = fye_month f"
proof -
  obtain d where d: "fiscal_year_end_date date_ok (date_year c) f = Some d" "valid_date date_ok d"
    "date_year d = date_year c" "date_month d = fye_month f"
    by (rule fiscal_year_end_date_Some [OF assms(1, 2), of "date_year c"]) (use assms(3, 4) in auto)
  obtain d' where "fiscal_year_end_date date_ok (date_year c + 1) f = Some d'" "valid_date date_ok d'"
    "date_year d' = date_year c + 1" "date_month d' = fye_month f"
    by (rule fiscal_year_end_date_Some [OF assms(1, 2), of "date_year c + 1"]) (use assms(3, 4) in auto)
  with d that show thesis
    by (cases "c \<le> d") (auto simp: first_fiscal_year_end_def less_eq_calendar_date_def)
qed

lemma first_annual_due_Some:
  assumes "gregorian date_ok" "plausible (fye_month f) (fye_day f)" "months \<le> 12" "- 9999 \<le> date_year c" "date_year c \<le> 9997"
  obtains d where "first_applicable_annual_due_date date_ok c f months = Some d" "c \<le> d"
proof -
  obtain e where e: "first_fiscal_year_end date_ok c f = Some e" "valid_date date_ok e" "c \<le> e"
    "date_year e \<le> date_year c + 1" "date_month e = fye_month f"
    by (rule first_fiscal_year_end_Some [OF assms(1, 2, 4)]) (use assms(5) in auto)
  have "int (date_month e) - 1 + int months < 24" using e(5) assms(2, 3) by (simp add: plausible_def)
  then have "(int (date_month e) - 1 + int months) div 12 < 2" by linarith
  then have "date_year e + (int (date_month e) - 1 + int months) div 12 \<le> 9999" using e(4) assms(5) by linarith
  with e(1) show thesis
    by (rule_tac add_months_clamped_Some [OF assms(1) e(2) refl])
      (auto simp: first_applicable_annual_due_date_def intro: that order_trans [OF e(3)])
qed

lemma first_fixed_due_Some:
  assumes "gregorian date_ok" "plausible (afd_month f) (afd_day f)" "- 9999 \<le> date_year c" "date_year c \<le> 9998"
  obtains d where "first_applicable_fixed_annual_due_date date_ok c f = Some d" "c \<le> d"
proof -
  obtain d where d: "profile_calendar_fixed_date_for_year date_ok (date_year c) f = Some d" "date_year d = date_year c"
    by (rule fixed_date_Some [OF assms(1, 2), of "date_year c"]) (use assms(3, 4) in auto)
  obtain d' where "profile_calendar_fixed_date_for_year date_ok (date_year c + 1) f = Some d'" "date_year d' = date_year c + 1"
    by (rule fixed_date_Some [OF assms(1, 2), of "date_year c + 1"]) (use assms(3, 4) in auto)
  with d that show thesis
    by (cases "c \<le> d") (auto simp: first_applicable_fixed_annual_due_date_def less_eq_calendar_date_def)
qed

text \<open>A context the planner is given: dates of the calendar, two years away from its ends.\<close>

definition dated_context :: "date_range \<Rightarrow> calendar_context \<Rightarrow> bool" where
  "dated_context date_ok ctx \<longleftrightarrow> - 9998 \<le> date_year (cc_today ctx) \<and> date_year (cc_today ctx) \<le> 9998
     \<and> (case cc_constitution_date ctx of None \<Rightarrow> True | Some c \<Rightarrow> - 9999 \<le> date_year c \<and> date_year c \<le> 9997)"

text \<open>
  A scheduled date is a date of the current year, not before the constitution; a preset is suppressed
  only when a constitution date is known.
\<close>

definition sound_evaluation :: "date_range \<Rightarrow> calendar_context \<Rightarrow> rule_evaluation \<Rightarrow> bool" where
  "sound_evaluation date_ok ctx ev =
     (case ev of
        Scheduled s \<Rightarrow> valid_date date_ok (sr_due_date s) \<and> date_year (sr_due_date s) = date_year (cc_today ctx)
          \<and> (case cc_constitution_date ctx of None \<Rightarrow> True | Some c \<Rightarrow> c \<le> sr_due_date s)
      | Suppressed _ \<Rightarrow> cc_constitution_date ctx \<noteq> None
      | Unsupported _ \<Rightarrow> False)"

lemma evaluate_offset_sound:
  assumes "gregorian date_ok" "plausible (fye_month f) (fye_day f)" "months \<le> 12" "dated_context date_ok ctx"
  shows "\<exists>ev. evaluate_offset date_ok months f basis ctx = Some ev \<and> sound_evaluation date_ok ctx ev"
proof -
  obtain due where due: "profile_calendar_due_date_for_year date_ok (date_year (cc_today ctx)) f months = Some due"
    "valid_date date_ok due" "date_year due = date_year (cc_today ctx)"
    by (rule due_date_for_year_Some [OF assms(1-3)]) (use assms(4) in \<open>auto simp: dated_context_def\<close>)
  show ?thesis
  proof (cases "cc_constitution_date ctx")
    case None
    with due show ?thesis
      by (simp add: evaluate_offset_def is_in_first_fiscal_year_def is_before_first_applicable_annual_due_def sound_evaluation_def)
  next
    case (Some c)
    with assms(4) have c: "- 9999 \<le> date_year c" "date_year c \<le> 9997" "date_year c \<le> 9998"
      by (auto simp: dated_context_def)
    obtain e where "first_fiscal_year_end date_ok c f = Some e"
      by (rule first_fiscal_year_end_Some [OF assms(1, 2) c(1, 3)])
    moreover obtain d where "first_applicable_annual_due_date date_ok c f months = Some d" "c \<le> d"
      by (rule first_annual_due_Some [OF assms(1-3) c(1, 2)])
    ultimately show ?thesis using Some due
      by (auto simp: evaluate_offset_def is_in_first_fiscal_year_def is_before_first_applicable_annual_due_def
          sound_evaluation_def not_less intro: order_trans)
  qed
qed

lemma evaluate_fixed_sound:
  assumes "gregorian date_ok" "plausible (afd_month f) (afd_day f)" "dated_context date_ok ctx"
  shows "\<exists>ev. evaluate_fixed date_ok f ctx = Some ev \<and> sound_evaluation date_ok ctx ev"
proof -
  obtain due where due: "profile_calendar_fixed_date_for_year date_ok (date_year (cc_today ctx)) f = Some due"
    "valid_date date_ok due" "date_year due = date_year (cc_today ctx)"
    by (rule fixed_date_Some [OF assms(1, 2), of "date_year (cc_today ctx)"])
      (use assms(3) in \<open>auto simp: dated_context_def\<close>)
  show ?thesis
  proof (cases "cc_constitution_date ctx")
    case None
    with due show ?thesis
      by (simp add: evaluate_fixed_def is_before_first_applicable_fixed_annual_due_def sound_evaluation_def)
  next
    case (Some c)
    with assms(3) have c: "- 9999 \<le> date_year c" "date_year c \<le> 9998" by (auto simp: dated_context_def)
    obtain d where "first_applicable_fixed_annual_due_date date_ok c f = Some d" "c \<le> d"
      by (rule first_fixed_due_Some [OF assms(1, 2) c])
    with Some due show ?thesis
      by (auto simp: evaluate_fixed_def is_before_first_applicable_fixed_annual_due_def sound_evaluation_def not_less
          intro: order_trans)
  qed
qed

text \<open>Whatever is recorded, the fiscal year end used is plausible.\<close>

lemma resolved_fiscal_year_end_plausible:
  assumes "gregorian date_ok" "plausible (fye_month default_end) (fye_day default_end)"
    "resolve_fiscal_year_end date_ok recorded default_end = (f, basis)"
  shows "plausible (fye_month f) (fye_day f)"
proof -
  have "plausible (fye_month g) (fye_day g)" if "parse_fiscal_year_end date_ok s = Some g" for s g
    using that assms(1)
    by (auto simp: parse_fiscal_year_end_def month_try_from_def from_calendar_date_def plausible_def gregorian_days
        Option.bind_eq_Some_conv split: if_splits option.splits)
  with assms(2, 3) show ?thesis by (auto simp: resolve_fiscal_year_end_def split: option.splits)
qed

definition well_formed_rule :: "calendar_due_rule \<Rightarrow> bool" where
  "well_formed_rule rule =
     (case rule of
        FiscalYearEndOffset months f \<Rightarrow> months \<le> 12 \<and> plausible (fye_month f) (fye_day f)
      | AnnualFixedDate month day \<Rightarrow> plausible month day
      | NotEncoded _ \<Rightarrow> False)"

lemma profile_presets_well_formed: "rule \<in> set (ep_calendar_presets (profile_for kind)) \<Longrightarrow> well_formed_rule (cp_due_rule rule)"
  by (cases "kind_family kind")
    (auto simp: profile_for_def well_formed_rule_def plausible_def commercial_presets_def condominium_presets_def
      association_presets_def foundation_presets_def cooperative_presets_def fiscal_year_end_calendar_preset_def
      annual_fixed_date_calendar_preset_def DEFAULT_PROFILE_CALENDAR_FISCAL_YEAR_END_def CONDOMINIUM_ANNUAL_ADVISORY_DATE_def)

section \<open>Properties\<close>

text \<open>
  C17: the planner never panics and never schedules outside its year. Over the Gregorian calendar of years of
  at most four digits, for every preset of every legal type, whatever text is recorded as the fiscal
  year end, with today in the years -9998 to 9998 and the constitution, if known, in the years -9999 to 9997, the evaluation returns, reaching none of
  its panics; a scheduled date is an existing date of the current year, not earlier than the
  constitution of the entity; and nothing is suppressed unless a constitution date is known.
\<close>

theorem profile_calendar_evaluates:
  assumes "gregorian date_ok" "rule \<in> set (pl_rules (profile_calendar_plan_for kind))" "dated_context date_ok ctx"
  shows "\<exists>ev. evaluate_profile_calendar_rule date_ok rule ctx = Some ev \<and> sound_evaluation date_ok ctx ev"
proof -
  have wf: "well_formed_rule (cp_due_rule rule)"
    using assms(2) profile_presets_well_formed by (simp add: profile_calendar_plan_for_def Let_def)
  show ?thesis
  proof (cases "cp_due_rule rule")
    case (FiscalYearEndOffset months default_end)
    obtain f basis where r: "resolve_fiscal_year_end date_ok (cc_recorded_fiscal_year_end ctx) default_end = (f, basis)"
      by fastforce
    with wf FiscalYearEndOffset have "plausible (fye_month f) (fye_day f)" "months \<le> 12"
      using resolved_fiscal_year_end_plausible [OF assms(1)] by (auto simp: well_formed_rule_def)
    with evaluate_offset_sound [OF assms(1) _ _ assms(3)] r FiscalYearEndOffset show ?thesis
      by (simp add: evaluate_profile_calendar_rule_def)
  next
    case (AnnualFixedDate month day)
    with wf evaluate_fixed_sound [OF assms(1) _ assms(3), of "\<lparr>afd_month = month, afd_day = day\<rparr>"] show ?thesis
      by (simp add: evaluate_profile_calendar_rule_def well_formed_rule_def)
  next
    case (NotEncoded reason)
    with wf show ?thesis by (simp add: well_formed_rule_def)
  qed
qed

text \<open>The two digits of a month or a day.\<close>

lemma to_digit_char: "n < 10 \<Longrightarrow> to_digit (char_of (48 + n)) = n" "n < 10 \<Longrightarrow> is_ascii_digit (char_of (48 + n))"
  by (simp_all add: to_digit_def is_ascii_digit_def)

lemma two_digits_eq:
  assumes "n < 100"
  shows "two_digits n = [char_of (48 + n div 10), char_of (48 + n mod 10)]"
proof (cases "n < 10")
  case True
  have "CHR ''0'' = char_of (48 :: nat)" by code_simp
  with True show ?thesis by (simp add: two_digits_def nat_decimal.simps)
next
  case False
  with assms have "n div 10 < 10" by simp
  with False show ?thesis by (simp add: two_digits_def nat_decimal.simps [of n] nat_decimal.simps [of "n div 10"])
qed

lemma digit_not_sign: "is_ascii_digit c \<Longrightarrow> c \<noteq> CHR ''+'' \<and> c \<noteq> CHR ''-''"
  by (auto simp: is_ascii_digit_def)

lemma parse_two_digits:
  assumes "n < 100"
  shows "parse_u8 (two_digits n) = Some n"
proof -
  have d: "n div 10 < 10" "n mod 10 < 10" using assms by simp_all
  then have "char_of (48 + n div 10) \<noteq> CHR ''+''" using to_digit_char(2) digit_not_sign by blast
  with d assms show ?thesis
    by (simp add: two_digits_eq parse_u8_def to_digit_char)
qed

lemma split_two_digits:
  assumes "m < 100"
  shows "split_once (CHR ''-'') (two_digits m @ CHR ''-'' # rest) = Some (two_digits m, rest)"
proof -
  have d: "m div 10 < 10" "m mod 10 < 10" using assms by simp_all
  then have "char_of (48 + m div 10) \<noteq> CHR ''-''" "char_of (48 + m mod 10) \<noteq> CHR ''-''"
    using to_digit_char(2) digit_not_sign by blast+
  with assms show ?thesis by (simp add: two_digits_eq split_once_def)
qed

text \<open>
  The text form of a fiscal year end reads back. Every month and day that exists in a leap year is
  written as \<open>MM-DD\<close> and parsed to itself.
\<close>

theorem fiscal_year_end_round_trip:
  assumes "gregorian date_ok" "date_ok 2000 (fye_month f) (fye_day f)"
  shows "parse_fiscal_year_end date_ok (format_mm_dd f) = Some f"
proof -
  obtain days where days: "days_in_month 2000 (fye_month f) = Some days" "fye_day f \<le> days"
    using assms by (auto simp: gregorian_days split: option.splits)
  then have "fye_month f \<le> 12" "1 \<le> fye_month f" "days \<le> 31"
    using days_in_month_SomeD by (auto simp: days_in_month_def split: if_splits)
  with days(2) assms(2) show ?thesis
    by (simp add: parse_fiscal_year_end_def format_mm_dd_def split_two_digits parse_two_digits month_try_from_def
        from_calendar_date_def)
qed

section \<open>Evaluated instances\<close>

definition sample_calendar :: date_range where
  "sample_calendar year month day \<longleftrightarrow> - 9999 \<le> year \<and> year \<le> 9999 \<and> 1 \<le> month \<and> month \<le> 12
     \<and> 1 \<le> day \<and> day \<le> gregorian_length year month"

definition sample_context :: calendar_context where
  "sample_context = \<lparr>cc_today = Calendar_Date 2026 5 20, cc_recorded_fiscal_year_end = Some ''11-30'',
     cc_constitution_date = Some (Calendar_Date 2024 3 1)\<rparr>"

lemma sample_calendar_gregorian: "gregorian sample_calendar"
  by (simp add: gregorian_def sample_calendar_def)

text \<open>Three months after the end of November: the last day of February.\<close>

theorem profile_calendar_evaluates_witness:
  "\<exists>ev. evaluate_profile_calendar_rule sample_calendar (hd commercial_presets) sample_context = Some ev
     \<and> sound_evaluation sample_calendar sample_context ev
     \<and> (case ev of Scheduled s \<Rightarrow> sr_due_date s = Calendar_Date 2026 2 28 | _ \<Rightarrow> False)"
proof -
  have "hd commercial_presets \<in> set (pl_rules (profile_calendar_plan_for SociedadeAnonima))"
    by (simp add: profile_calendar_plan_for_def profile_for_def commercial_presets_def Let_def)
  moreover have "dated_context sample_calendar sample_context" by (simp add: dated_context_def sample_context_def)
  ultimately have "\<exists>ev. evaluate_profile_calendar_rule sample_calendar (hd commercial_presets) sample_context = Some ev
     \<and> sound_evaluation sample_calendar sample_context ev"
    by (rule profile_calendar_evaluates [OF sample_calendar_gregorian])
  moreover have "case evaluate_profile_calendar_rule sample_calendar (hd commercial_presets) sample_context of
     Some (Scheduled s) \<Rightarrow> sr_due_date s = Calendar_Date 2026 2 28 | _ \<Rightarrow> False" by code_simp
  ultimately show ?thesis by fastforce
qed

theorem fiscal_year_end_round_trip_witness:
  "parse_fiscal_year_end sample_calendar ''02-29'' = Some \<lparr>fye_month = 2, fye_day = 29\<rparr>"
proof -
  have "format_mm_dd \<lparr>fye_month = 2, fye_day = 29\<rparr> = ''02-29''" by code_simp
  moreover have "sample_calendar 2000 2 29" by code_simp
  ultimately show ?thesis
    using fiscal_year_end_round_trip [OF sample_calendar_gregorian, of "\<lparr>fye_month = 2, fye_day = 29\<rparr>"] by simp
qed

end
