(* ===== verification/Numerals.thy ===== *)
theory Numerals
  imports Prelude
begin

section \<open>Numbers in words\<close>

text \<open>
  \<open>src/crates/chancela-templates/src/numerals.rs\<close>: the words in which a template writes a number into
  a legal instrument, cardinal, ordinal, fractional and multiplicative, in European Portuguese. Words
  are UTF-8 bytes. The number is an integer, since the code takes an \<open>i128\<close> and rejects what is out of
  range before it computes; the reasons given with an error are fixed texts and are left out. What the
  template engine answers when the filter reads its arguments is an argument of the filter.

  The words are given a meaning by \<open>read_cardinal\<close> and \<open>read_ordinal\<close>, a dictionary and an adder
  that know nothing of how the words were made.
\<close>

definition MAX_CARDINAL :: int where "MAX_CARDINAL = 999999999"

definition MAX_ORDINAL :: int where "MAX_ORDINAL = 1999"

definition MAX_MULTIPLICATIVE :: int where "MAX_MULTIPLICATIVE = 12"

datatype numeral_form = Cardinal | Ordinal | Fractional | Multiplicative

datatype gender = Masculine | Feminine | Indeterminate

definition is_feminine :: "gender \<Rightarrow> bool" where
  "is_feminine g \<longleftrightarrow> g = Feminine"

datatype grammatical_number = Singular | Plural

datatype numeral_error =
    Negative int numeral_form
  | OutOfRange int numeral_form int int
  | NoSuchNumeral int numeral_form
  | GenderNotInflected int numeral_form
  | NumberNotInflected numeral_form

subsection \<open>Tables\<close>

text \<open>The accented letters.\<close>

definition a_acute :: string where "a_acute = [CHR 0xC3, CHR 0xA1]"
definition a_tilde :: string where "a_tilde = [CHR 0xC3, CHR 0xA3]"
definition c_cedilla :: string where "c_cedilla = [CHR 0xC3, CHR 0xA7]"
definition e_acute :: string where "e_acute = [CHR 0xC3, CHR 0xA9]"
definition e_circ :: string where "e_circ = [CHR 0xC3, CHR 0xAA]"
definition i_acute :: string where "i_acute = [CHR 0xC3, CHR 0xAD]"
definition o_acute :: string where "o_acute = [CHR 0xC3, CHR 0xB3]"
definition o_tilde :: string where "o_tilde = [CHR 0xC3, CHR 0xB5]"

definition UNITS :: "string list" where
  "UNITS = [''zero'', ''um'', ''dois'', ''tr'' @ e_circ @ ''s'', ''quatro'', ''cinco'', ''seis'', ''sete'', ''oito'', ''nove'']"

definition TEN_TO_NINETEEN :: "string list" where
  "TEN_TO_NINETEEN = [''dez'', ''onze'', ''doze'', ''treze'', ''catorze'', ''quinze'', ''dezasseis'', ''dezassete'',
     ''dezoito'', ''dezanove'']"

definition TENS :: "string list" where
  "TENS = [[], [], ''vinte'', ''trinta'', ''quarenta'', ''cinquenta'', ''sessenta'', ''setenta'', ''oitenta'', ''noventa'']"

definition HUNDREDS_M :: "string list" where
  "HUNDREDS_M = [[], ''cento'', ''duzentos'', ''trezentos'', ''quatrocentos'', ''quinhentos'', ''seiscentos'',
     ''setecentos'', ''oitocentos'', ''novecentos'']"

definition HUNDREDS_F :: "string list" where
  "HUNDREDS_F = [[], ''cento'', ''duzentas'', ''trezentas'', ''quatrocentas'', ''quinhentas'', ''seiscentas'',
     ''setecentas'', ''oitocentas'', ''novecentas'']"

definition ORD_UNITS :: "string list" where
  "ORD_UNITS = [[], ''primeiro'', ''segundo'', ''terceiro'', ''quarto'', ''quinto'', ''sexto'',
     ''s'' @ e_acute @ ''timo'', ''oitavo'', ''nono'']"

definition esimo :: "string \<Rightarrow> string" where
  "esimo stem = stem @ e_acute @ ''simo''"

definition ORD_TENS :: "string list" where
  "ORD_TENS = [[], ''d'' @ e_acute @ ''cimo'', esimo ''vig'', esimo ''trig'', esimo ''quadrag'', esimo ''quinquag'',
     esimo ''sexag'', esimo ''septuag'', esimo ''octog'', esimo ''nonag'']"

definition ORD_HUNDREDS :: "string list" where
  "ORD_HUNDREDS = [[], esimo ''cent'', esimo ''ducent'', esimo ''trecent'', esimo ''quadringent'', esimo ''quingent'',
     esimo ''sexcent'', esimo ''septingent'', esimo ''octingent'', esimo ''nongent'']"

definition ORD_THOUSAND :: string where "ORD_THOUSAND = esimo ''mil''"

definition ORD_MILLION :: string where "ORD_MILLION = esimo ''milion''"

definition MULTIPLICATIVES :: "string list" where
  "MULTIPLICATIVES = [''dobro'', ''triplo'', ''qu'' @ a_acute @ ''druplo'', ''qu'' @ i_acute @ ''ntuplo'',
     ''s'' @ e_circ @ ''xtuplo'', ''s'' @ e_acute @ ''tuplo'', o_acute @ ''ctuplo'', ''n'' @ o_acute @ ''nuplo'',
     ''d'' @ e_acute @ ''cuplo'', ''und'' @ e_acute @ ''cuplo'', ''duod'' @ e_acute @ ''cuplo'']"

definition CENTUPLE :: string where "CENTUPLE = ''c'' @ e_circ @ ''ntuplo''"

subsection \<open>Cardinals\<close>

definition unit_word :: "nat \<Rightarrow> gender \<Rightarrow> string" where
  "unit_word n g =
     (if n = 1 \<and> is_feminine g then ''uma'' else if n = 2 \<and> is_feminine g then ''duas'' else UNITS ! n)"

definition under_hundred :: "nat \<Rightarrow> gender \<Rightarrow> string" where
  "under_hundred n g =
     (if 1 \<le> n \<and> n \<le> 9 then unit_word n g
      else if 10 \<le> n \<and> n \<le> 19 then TEN_TO_NINETEEN ! (n - 10)
      else if n mod 10 = 0 then TENS ! (n div 10)
      else TENS ! (n div 10) @ '' e '' @ unit_word (n mod 10) g)"

definition group_words :: "nat \<Rightarrow> gender \<Rightarrow> string" where
  "group_words n g =
     (if n = 100 then ''cem''
      else
        (let hundreds = n div 100; rest = n mod 100; table = (if is_feminine g then HUNDREDS_F else HUNDREDS_M) in
         if hundreds = 0 then under_hundred rest g
         else if rest = 0 then table ! hundreds
         else table ! hundreds @ '' e '' @ under_hundred rest g))"

definition cardinal_classes :: "nat \<Rightarrow> gender \<Rightarrow> (nat \<times> string) list" where
  "cardinal_classes n g =
     (let millions = n div 1000000; thousands = (n div 1000) mod 1000; units = n mod 1000 in
      (if millions > 0
       then [(millions, if millions = 1 then ''um milh'' @ a_tilde @ ''o''
                        else group_words millions Masculine @ '' milh'' @ o_tilde @ ''es'')] else [])
      @ (if thousands > 0
         then [(thousands, if thousands = 1 then ''mil'' else group_words thousands g @ '' mil'')] else [])
      @ (if units > 0 then [(units, group_words units g)] else []))"

fun join_lower_classes :: "(nat \<times> string) list \<Rightarrow> string" where
  "join_lower_classes [] = []"
| "join_lower_classes ((class_value, words_of) # rest) =
     (if rest = [] \<and> (class_value < 100 \<or> class_value mod 100 = 0) then '' e '' else '' '')
     @ words_of @ join_lower_classes rest"

fun join_classes :: "(nat \<times> string) list \<Rightarrow> string" where
  "join_classes [] = []"
| "join_classes ((_, words_of) # rest) = words_of @ join_lower_classes rest"

definition cardinal :: "int \<Rightarrow> gender \<Rightarrow> numeral_error + string" where
  "cardinal n g =
     (if n < 0 then Err (Negative n Cardinal)
      else if n > MAX_CARDINAL then Err (OutOfRange n Cardinal 0 MAX_CARDINAL)
      else if n = 0 then Ok (UNITS ! 0)
      else Ok (join_classes (cardinal_classes (nat n) g)))"

subsection \<open>Ordinals, fractions, multiples\<close>

definition inflect_o_stem :: "string \<Rightarrow> gender \<Rightarrow> grammatical_number \<Rightarrow> string" where
  "inflect_o_stem word g number =
     butlast word @ (case (is_feminine g, number) of
       (False, Singular) \<Rightarrow> ''o'' | (False, Plural) \<Rightarrow> ''os'' | (True, Singular) \<Rightarrow> ''a'' | (True, Plural) \<Rightarrow> ''as'')"

definition ordinal_parts :: "nat \<Rightarrow> string list" where
  "ordinal_parts n =
     (let rest = n mod 1000; hundreds = rest div 100; tens = (rest mod 100) div 10; units = rest mod 10 in
      (if n \<ge> 1000 then [ORD_THOUSAND] else [])
      @ (if hundreds > 0 then [ORD_HUNDREDS ! hundreds] else [])
      @ (if tens > 0 then [ORD_TENS ! tens] else [])
      @ (if units > 0 then [ORD_UNITS ! units] else []))"

fun join_space :: "string list \<Rightarrow> string" where
  "join_space [] = []"
| "join_space [w] = w"
| "join_space (w # v # ws) = w @ '' '' @ join_space (v # ws)"

definition ordinal :: "int \<Rightarrow> gender \<Rightarrow> grammatical_number \<Rightarrow> numeral_error + string" where
  "ordinal n g number =
     (if n < 0 then Err (Negative n Ordinal)
      else if n = 0 then Err (NoSuchNumeral 0 Ordinal)
      else if n > MAX_ORDINAL then Err (OutOfRange n Ordinal 1 MAX_ORDINAL)
      else Ok (join_space (map (\<lambda>w. inflect_o_stem w g number) (ordinal_parts (nat n)))))"

definition single_word_ordinal :: "int \<Rightarrow> string option" where
  "single_word_ordinal n =
     (if 1 \<le> n \<and> n \<le> 9 then Some (ORD_UNITS ! nat n)
      else if n < 100 \<and> n mod 10 = 0 then Some (ORD_TENS ! nat (n div 10))
      else if n < 1000 \<and> n mod 100 = 0 then Some (ORD_HUNDREDS ! nat (n div 100))
      else if n = 1000 then Some ORD_THOUSAND
      else if n = 1000000 then Some ORD_MILLION
      else None)"

definition fractional :: "int \<Rightarrow> gender \<Rightarrow> grammatical_number \<Rightarrow> numeral_error + string" where
  "fractional n g number =
     (if n < 0 then Err (Negative n Fractional)
      else if n = 0 then Err (NoSuchNumeral 0 Fractional)
      else if n = 1 then Err (NoSuchNumeral 1 Fractional)
      else if n > MAX_CARDINAL then Err (OutOfRange n Fractional 2 MAX_CARDINAL)
      else if n = 2 then Ok (inflect_o_stem ''meio'' g number)
      else if is_feminine g then Err (GenderNotInflected n Fractional)
      else if n = 3 then Ok (inflect_o_stem (''ter'' @ c_cedilla @ ''o'') g number)
      else case single_word_ordinal n of
        Some word \<Rightarrow> Ok (inflect_o_stem word g number)
      | None \<Rightarrow> (case cardinal n Masculine of Inl e \<Rightarrow> Inl e | Inr words_of \<Rightarrow> Ok (words_of @ '' avos'')))"

definition multiplicative :: "int \<Rightarrow> gender \<Rightarrow> grammatical_number \<Rightarrow> numeral_error + string" where
  "multiplicative n g number =
     (if n < 0 then Err (Negative n Multiplicative)
      else if is_feminine g then Err (GenderNotInflected n Multiplicative)
      else if number = Plural then Err (NumberNotInflected Multiplicative)
      else if n = 100 then Ok CENTUPLE
      else if 2 \<le> n \<and> n \<le> MAX_MULTIPLICATIVE then Ok (MULTIPLICATIVES ! nat (n - 2))
      else Err (NoSuchNumeral n Multiplicative))"

definition in_words :: "int \<Rightarrow> numeral_form \<Rightarrow> gender \<Rightarrow> grammatical_number \<Rightarrow> numeral_error + string" where
  "in_words n form g number =
     (case form of
        Cardinal \<Rightarrow> if number = Plural then Err (NumberNotInflected Cardinal) else cardinal n g
      | Ordinal \<Rightarrow> ordinal n g number
      | Fractional \<Rightarrow> fractional n g number
      | Multiplicative \<Rightarrow> multiplicative n g number)"

subsection \<open>The template filters\<close>

datatype jinja_error = InvalidOperation "numeral_error option" | EngineError string

definition form_arg :: "string option \<Rightarrow> jinja_error + numeral_form" where
  "form_arg raw =
     (if raw = None \<or> raw = Some ''cardinal'' then Ok Cardinal
      else if raw = Some ''ordinal'' then Ok Ordinal
      else if raw = Some ''fractional'' then Ok Fractional
      else if raw = Some ''multiplicative'' then Ok Multiplicative
      else Err (InvalidOperation None))"

definition gender_arg :: "string option \<Rightarrow> jinja_error + gender" where
  "gender_arg raw =
     (if raw = None \<or> raw = Some ''m'' then Ok Masculine
      else if raw = Some ''f'' then Ok Feminine
      else if raw = Some ''i'' then Ok Indeterminate
      else Err (InvalidOperation None))"

definition number_arg :: "string option \<Rightarrow> jinja_error + grammatical_number" where
  "number_arg raw =
     (if raw = None \<or> raw = Some ''singular'' then Ok Singular
      else if raw = Some ''plural'' then Ok Plural
      else Err (InvalidOperation None))"

text \<open>\<open>Kwargs::get\<close> for a keyword, \<open>assert_all_used\<close>, and the value as an integer when it is one.\<close>

record filter_call =
  fc_keyword :: "string \<Rightarrow> jinja_error + string option"
  fc_all_used :: "jinja_error + unit"
  fc_integer :: "int option"

definition integer_arg :: "filter_call \<Rightarrow> jinja_error + int" where
  "integer_arg c = (case fc_integer c of Some n \<Rightarrow> Ok n | None \<Rightarrow> Err (InvalidOperation None))"

definition and_then :: "'e + 'a \<Rightarrow> ('a \<Rightarrow> 'e + 'b) \<Rightarrow> 'e + 'b" where
  "and_then r f = (case r of Inl e \<Rightarrow> Inl e | Inr x \<Rightarrow> f x)"

definition in_words_filter :: "filter_call \<Rightarrow> jinja_error + string" where
  "in_words_filter c =
     and_then (and_then (fc_keyword c ''form'') form_arg) (\<lambda>form.
     and_then (and_then (fc_keyword c ''gender'') gender_arg) (\<lambda>g.
     and_then (and_then (fc_keyword c ''number'') number_arg) (\<lambda>number.
     and_then (fc_all_used c) (\<lambda>_.
     and_then (integer_arg c) (\<lambda>n.
       map_sum (\<lambda>e. InvalidOperation (Some e)) id (in_words n form g number))))))"

definition plural_filter :: "filter_call \<Rightarrow> string \<Rightarrow> string \<Rightarrow> jinja_error + string" where
  "plural_filter c singular plural = and_then (integer_arg c) (\<lambda>n. Ok (if n = 1 then singular else plural))"

section \<open>What the words mean\<close>

fun words :: "string \<Rightarrow> string list" where
  "words [] = [[]]"
| "words (c # s) = (if c = CHR '' '' then [] # words s else (c # hd (words s)) # tl (words s))"

definition cardinal_dictionary :: "(string \<times> nat) list" where
  "cardinal_dictionary =
     [(''zero'', 0), (''um'', 1), (''uma'', 1), (''dois'', 2), (''duas'', 2), (''tr'' @ e_circ @ ''s'', 3), (''quatro'', 4),
      (''cinco'', 5), (''seis'', 6), (''sete'', 7), (''oito'', 8), (''nove'', 9), (''dez'', 10), (''onze'', 11), (''doze'', 12),
      (''treze'', 13), (''catorze'', 14), (''quinze'', 15), (''dezasseis'', 16), (''dezassete'', 17), (''dezoito'', 18),
      (''dezanove'', 19), (''vinte'', 20), (''trinta'', 30), (''quarenta'', 40), (''cinquenta'', 50), (''sessenta'', 60),
      (''setenta'', 70), (''oitenta'', 80), (''noventa'', 90), (''cem'', 100), (''cento'', 100), (''duzentos'', 200),
      (''duzentas'', 200), (''trezentos'', 300), (''trezentas'', 300), (''quatrocentos'', 400), (''quatrocentas'', 400),
      (''quinhentos'', 500), (''quinhentas'', 500), (''seiscentos'', 600), (''seiscentas'', 600), (''setecentos'', 700),
      (''setecentas'', 700), (''oitocentos'', 800), (''oitocentas'', 800), (''novecentos'', 900), (''novecentas'', 900)]"

text \<open>
  One word: \<open>e\<close> says nothing, \<open>mil\<close> and \<open>milhao\<close> multiply what has been read since the last class, any
  other word is added.
\<close>

definition read_word :: "string \<Rightarrow> nat \<times> nat \<Rightarrow> (nat \<times> nat) option" where
  "read_word w st =
     (case st of (higher, class_value) \<Rightarrow>
        if w = ''e'' then Some (higher, class_value)
        else if w = ''mil'' then Some (higher + 1000 * (if class_value = 0 then 1 else class_value), 0)
        else if w = ''milh'' @ a_tilde @ ''o'' \<or> w = ''milh'' @ o_tilde @ ''es''
        then Some (higher + 1000000 * class_value, 0)
        else map_option (\<lambda>v. (higher, class_value + v)) (map_of cardinal_dictionary w))"

fun read_words :: "string list \<Rightarrow> nat \<times> nat \<Rightarrow> (nat \<times> nat) option" where
  "read_words [] st = Some st"
| "read_words (w # ws) st = Option.bind (read_word w st) (read_words ws)"

definition read_cardinal :: "string \<Rightarrow> nat option" where
  "read_cardinal s = map_option (\<lambda>(higher, class_value). higher + class_value) (read_words (words s) (0, 0))"

definition ordinal_dictionary :: "(string \<times> nat) list" where
  "ordinal_dictionary =
     [(''primeir'', 1), (''segund'', 2), (''terceir'', 3), (''quart'', 4), (''quint'', 5), (''sext'', 6),
      (''s'' @ e_acute @ ''tim'', 7), (''oitav'', 8), (''non'', 9), (''d'' @ e_acute @ ''cim'', 10),
      (''vig'' @ e_acute @ ''sim'', 20), (''trig'' @ e_acute @ ''sim'', 30), (''quadrag'' @ e_acute @ ''sim'', 40),
      (''quinquag'' @ e_acute @ ''sim'', 50), (''sexag'' @ e_acute @ ''sim'', 60), (''septuag'' @ e_acute @ ''sim'', 70),
      (''octog'' @ e_acute @ ''sim'', 80), (''nonag'' @ e_acute @ ''sim'', 90), (''cent'' @ e_acute @ ''sim'', 100),
      (''ducent'' @ e_acute @ ''sim'', 200), (''trecent'' @ e_acute @ ''sim'', 300), (''quadringent'' @ e_acute @ ''sim'', 400),
      (''quingent'' @ e_acute @ ''sim'', 500), (''sexcent'' @ e_acute @ ''sim'', 600), (''septingent'' @ e_acute @ ''sim'', 700),
      (''octingent'' @ e_acute @ ''sim'', 800), (''nongent'' @ e_acute @ ''sim'', 900), (''mil'' @ e_acute @ ''sim'', 1000)]"

text \<open>The ending that agrees with the noun, and the sum of the stems.\<close>

definition ending :: "gender \<Rightarrow> grammatical_number \<Rightarrow> string" where
  "ending g number = (if is_feminine g then ''a'' else ''o'') @ (if number = Plural then ''s'' else [])"

definition read_stem :: "string \<Rightarrow> string \<Rightarrow> nat option" where
  "read_stem suffix w =
     (let k = length w - length suffix in
      if drop k w = suffix then map_of ordinal_dictionary (take k w) else None)"

fun read_stems :: "string \<Rightarrow> string list \<Rightarrow> nat option" where
  "read_stems suffix [] = Some 0"
| "read_stems suffix (w # ws) = Option.bind (read_stem suffix w) (\<lambda>v. map_option ((+) v) (read_stems suffix ws))"

definition read_ordinal :: "gender \<Rightarrow> grammatical_number \<Rightarrow> string \<Rightarrow> nat option" where
  "read_ordinal g number s = read_stems (ending g number) (words s)"

subsection \<open>Splitting and adding\<close>

lemma words_not_Nil [simp]: "words s \<noteq> []"
  by (induction s) simp_all

lemma words_append_space: "words (s @ CHR '' '' # t) = words s @ words t"
  by (induction s) (simp_all add: hd_append tl_append2)

lemma words_single: "CHR '' '' \<notin> set w \<Longrightarrow> words w = [w]"
  by (induction w) auto

lemma read_words_append: "read_words (a @ b) st = Option.bind (read_words a st) (read_words b)"
  by (induction a arbitrary: st) (simp_all add: Option.bind_assoc cong: Option.bind_cong)

text \<open>A text of the lowest three digits: reading it adds its value to the class being read.\<close>

definition adds :: "string \<Rightarrow> nat \<Rightarrow> bool" where
  "adds s v \<longleftrightarrow> (\<forall>higher class_value. read_words (words s) (higher, class_value) = Some (higher, class_value + v))"

definition dictionary_word :: "string \<Rightarrow> nat \<Rightarrow> bool" where
  "dictionary_word w v \<longleftrightarrow> CHR '' '' \<notin> set w \<and> w \<noteq> ''e'' \<and> w \<noteq> ''mil'' \<and> w \<noteq> ''milh'' @ a_tilde @ ''o''
     \<and> w \<noteq> ''milh'' @ o_tilde @ ''es'' \<and> map_of cardinal_dictionary w = Some v"

lemma dictionary_word_adds: "dictionary_word w v \<Longrightarrow> adds w v"
  by (simp add: adds_def dictionary_word_def words_single read_word_def)

lemma adds_join:
  assumes "adds s v" "adds t u"
  shows "adds (s @ '' e '' @ t) (v + u)"
proof -
  have "words (s @ '' e '' @ t) = words s @ [''e''] @ words t"
    using words_append_space [of s "''e '' @ t"] words_append_space [of "''e''" t] by simp
  with assms show ?thesis by (simp add: adds_def read_words_append read_word_def ac_simps)
qed

text \<open>The tables against the dictionary.\<close>

lemma table_words:
  "list_all (\<lambda>n. dictionary_word (unit_word n Masculine) n \<and> dictionary_word (unit_word n Feminine) n
     \<and> dictionary_word (unit_word n Indeterminate) n) [1..<10]"
  "list_all (\<lambda>n. dictionary_word (TEN_TO_NINETEEN ! n) (10 + n)) [0..<10]"
  "list_all (\<lambda>n. dictionary_word (TENS ! n) (10 * n)) [2..<10]"
  "list_all (\<lambda>n. dictionary_word (HUNDREDS_M ! n) (100 * n) \<and> dictionary_word (HUNDREDS_F ! n) (100 * n)) [1..<10]"
  "dictionary_word ''cem'' 100"
  by code_simp+

lemma upt_all: "list_all P [a..<b] \<Longrightarrow> a \<le> n \<Longrightarrow> n < b \<Longrightarrow> P n"
  by (simp add: list_all_iff)

lemma unit_word_adds: "1 \<le> n \<Longrightarrow> n \<le> 9 \<Longrightarrow> adds (unit_word n g) n"
  using upt_all [OF table_words(1), of n] by (cases g) (auto intro: dictionary_word_adds)

lemma teen_adds: "n < 10 \<Longrightarrow> adds (TEN_TO_NINETEEN ! n) (10 + n)"
  using upt_all [OF table_words(2), of n] by (auto intro: dictionary_word_adds)

lemma tens_adds: "2 \<le> n \<Longrightarrow> n < 10 \<Longrightarrow> adds (TENS ! n) (10 * n)"
  using upt_all [OF table_words(3), of n] by (auto intro: dictionary_word_adds)

lemma hundreds_adds: "1 \<le> n \<Longrightarrow> n < 10 \<Longrightarrow> adds ((if is_feminine g then HUNDREDS_F else HUNDREDS_M) ! n) (100 * n)"
  using upt_all [OF table_words(4), of n] by (auto intro: dictionary_word_adds)

lemma under_hundred_adds:
  assumes "1 \<le> n" "n < 100"
  shows "adds (under_hundred n g) n"
proof -
  consider "n \<le> 9" | "10 \<le> n" "n \<le> 19" | "20 \<le> n" "n mod 10 = 0" | "20 \<le> n" "n mod 10 \<noteq> 0" by linarith
  then show ?thesis
  proof cases
    case 1
    with assms show ?thesis by (simp add: under_hundred_def unit_word_adds)
  next
    case 2
    with teen_adds [of "n - 10"] show ?thesis by (simp add: under_hundred_def)
  next
    case 3
    have "10 * (n div 10) = n" using mult_div_mod_eq [of 10 n] 3 by simp
    moreover have "adds (TENS ! (n div 10)) (10 * (n div 10))" using 3 assms by (intro tens_adds) auto
    ultimately show ?thesis using 3 by (simp add: under_hundred_def)
  next
    case 4
    then have "adds (TENS ! (n div 10) @ '' e '' @ unit_word (n mod 10) g) (10 * (n div 10) + n mod 10)"
      using assms by (intro adds_join tens_adds unit_word_adds) auto
    with 4 show ?thesis by (simp add: under_hundred_def)
  qed
qed

lemma group_words_adds:
  assumes "1 \<le> n" "n < 1000"
  shows "adds (group_words n g) n"
proof -
  consider "n = 100" | "n \<noteq> 100" "n < 100" | "n \<noteq> 100" "100 \<le> n" "n mod 100 = 0" | "n \<noteq> 100" "100 \<le> n" "n mod 100 \<noteq> 0"
    by linarith
  then show ?thesis
  proof cases
    case 1
    with table_words(5) show ?thesis by (simp add: group_words_def dictionary_word_adds)
  next
    case 2
    with assms show ?thesis by (simp add: group_words_def under_hundred_adds)
  next
    case 3
    have "100 * (n div 100) = n" using mult_div_mod_eq [of 100 n] 3 by simp
    moreover have "adds ((if is_feminine g then HUNDREDS_F else HUNDREDS_M) ! (n div 100)) (100 * (n div 100))"
      using 3 assms by (intro hundreds_adds) auto
    ultimately show ?thesis using 3 by (simp add: group_words_def Let_def)
  next
    case 4
    then have "adds ((if is_feminine g then HUNDREDS_F else HUNDREDS_M) ! (n div 100) @ '' e '' @ under_hundred (n mod 100) g)
        (100 * (n div 100) + n mod 100)"
      using assms by (intro adds_join hundreds_adds under_hundred_adds) auto
    moreover have "n div 100 \<noteq> 0" using 4 by (simp add: div_eq_0_iff)
    ultimately show ?thesis using 4 by (simp add: group_words_def Let_def)
  qed
qed

subsection \<open>Classes\<close>

lemma read_join_space:
  "read_words (words (a @ CHR '' '' # b)) st = Option.bind (read_words (words a) st) (read_words (words b))"
  by (simp add: words_append_space read_words_append)

lemma read_join:
  "read_words (words (a @ (if c then '' e '' else '' '') @ b)) st = Option.bind (read_words (words a) st) (read_words (words b))"
proof (cases c)
  case True
  have "read_words (words (''e'' @ CHR '' '' # b)) st' = read_words (words b) st'" for st'
    by (cases st') (simp only: read_join_space, simp add: read_word_def)
  with True show ?thesis using read_join_space [of a "''e '' @ b" st] by (cases "read_words (words a) st") simp_all
qed (simp add: read_join_space)

definition millions_words :: "nat \<Rightarrow> string" where
  "millions_words m = (if m = 1 then ''um milh'' @ a_tilde @ ''o'' else group_words m Masculine @ '' milh'' @ o_tilde @ ''es'')"

definition thousands_words :: "nat \<Rightarrow> gender \<Rightarrow> string" where
  "thousands_words t g = (if t = 1 then ''mil'' else group_words t g @ '' mil'')"

lemma million_word: "read_words (words (''milh'' @ o_tilde @ ''es'')) (h, v) = Some (h + 1000000 * v, 0)"
  "read_words (words (''milh'' @ a_tilde @ ''o'')) (h, v) = Some (h + 1000000 * v, 0)"
  "read_words (words ''mil'') (h, v) = Some (h + 1000 * (if v = 0 then 1 else v), 0)"
  "read_words (words ''um'') (h, v) = Some (h, v + 1)"
proof -
  have "words (''milh'' @ o_tilde @ ''es'') = [''milh'' @ o_tilde @ ''es'']"
    "words (''milh'' @ a_tilde @ ''o'') = [''milh'' @ a_tilde @ ''o'']" "words ''mil'' = [''mil'']" by code_simp+
  then show "read_words (words (''milh'' @ o_tilde @ ''es'')) (h, v) = Some (h + 1000000 * v, 0)"
    "read_words (words (''milh'' @ a_tilde @ ''o'')) (h, v) = Some (h + 1000000 * v, 0)"
    "read_words (words ''mil'') (h, v) = Some (h + 1000 * (if v = 0 then 1 else v), 0)"
    by (simp_all add: read_word_def)
  have "dictionary_word ''um'' 1" by code_simp
  then have "adds ''um'' 1" by (rule dictionary_word_adds)
  then show "read_words (words ''um'') (h, v) = Some (h, v + 1)" unfolding adds_def by blast
qed

lemma read_group: "1 \<le> n \<Longrightarrow> n < 1000 \<Longrightarrow> read_words (words (group_words n g)) (h, v) = Some (h, v + n)"
  using group_words_adds unfolding adds_def by blast

lemma read_millions:
  assumes "1 \<le> m" "m < 1000"
  shows "read_words (words (millions_words m)) (0, 0) = Some (1000000 * m, 0)"
proof (cases "m = 1")
  case True
  then have "millions_words m = ''um'' @ CHR '' '' # ''milh'' @ a_tilde @ ''o''" by (simp add: millions_words_def)
  then have "read_words (words (millions_words m)) (0, 0) = Some (0 + 1000000 * (0 + 1), 0)"
    by (simp only: read_join_space million_word Option.bind_lunit)
  with True show ?thesis by simp
next
  case False
  then have "millions_words m = group_words m Masculine @ CHR '' '' # ''milh'' @ o_tilde @ ''es''"
    by (simp add: millions_words_def)
  then have "read_words (words (millions_words m)) (0, 0) = Some (0 + 1000000 * (0 + m), 0)"
    by (simp only: read_join_space read_group [OF assms] million_word Option.bind_lunit)
  then show ?thesis by simp
qed

lemma read_thousands:
  assumes "1 \<le> t" "t < 1000"
  shows "read_words (words (thousands_words t g)) (h, 0) = Some (h + 1000 * t, 0)"
proof (cases "t = 1")
  case True
  then have "read_words (words (thousands_words t g)) (h, 0) = Some (h + 1000 * (if (0 :: nat) = 0 then 1 else 0), 0)"
    by (simp only: thousands_words_def if_True simp_thms million_word)
  with True show ?thesis by simp
next
  case False
  then have "thousands_words t g = group_words t g @ CHR '' '' # ''mil''" by (simp add: thousands_words_def)
  then have "read_words (words (thousands_words t g)) (h, 0) = Some (h + 1000 * (if 0 + t = 0 then 1 else 0 + t), 0)"
    by (simp only: read_join_space read_group [OF assms] million_word Option.bind_lunit)
  with assms show ?thesis by simp
qed

lemma read_units: "1 \<le> u \<Longrightarrow> u < 1000 \<Longrightarrow> read_words (words (group_words u g)) (h, 0) = Some (h, u)"
  by (simp add: read_group)

lemma read_classes:
  assumes "n \<noteq> 0" "n < 1000000000"
  shows "map_option (\<lambda>(h, v). h + v) (read_words (words (join_classes (cardinal_classes n g))) (0, 0)) = Some n"
proof -
  define m t u where "m = n div 1000000" and "t = (n div 1000) mod 1000" and "u = n mod 1000"
  have "n = 1000 * (n div 1000) + u" by (simp add: u_def)
  moreover have "n div 1000 = 1000 * (n div 1000 div 1000) + t" by (simp add: t_def)
  moreover have "n div 1000 div 1000 = m" by (simp add: m_def div_mult2_eq [symmetric])
  ultimately have n: "n = 1000000 * m + 1000 * t + u" by linarith
  have less: "m < 1000" "t < 1000" "u < 1000" using assms(2) by (simp_all add: m_def t_def u_def div_less_iff_less_mult)
  have c: "cardinal_classes n g = (if m > 0 then [(m, millions_words m)] else [])
      @ (if t > 0 then [(t, thousands_words t g)] else []) @ (if u > 0 then [(u, group_words u g)] else [])"
    by (simp add: cardinal_classes_def millions_words_def thousands_words_def m_def t_def u_def Let_def)
  note reads = read_millions [OF _ less(1)] read_thousands [OF _ less(2)] read_units [OF _ less(3)]
  have "m \<noteq> 0 \<or> t \<noteq> 0 \<or> u \<noteq> 0" using assms(1) n by auto
  then have "map_option (\<lambda>(h, v). h + v) (read_words (words (join_classes (cardinal_classes n g))) (0, 0))
      = Some (1000000 * m + 1000 * t + u)"
    unfolding c by (cases "m = 0"; cases "t = 0"; cases "u = 0")
      (simp_all add: reads read_join read_join_space)
  with n show ?thesis by simp
qed

subsection \<open>Ordinals\<close>

definition ordinal_word :: "string \<Rightarrow> nat \<Rightarrow> bool" where
  "ordinal_word w v \<longleftrightarrow> CHR '' '' \<notin> set w \<and> map_of ordinal_dictionary (butlast w) = Some v"

lemma inflected: "inflect_o_stem w g number = butlast w @ ending g number"
  by (simp add: inflect_o_stem_def ending_def split: bool.splits grammatical_number.splits)

lemma space_not_in_ending: "CHR '' '' \<notin> set (ending g number)"
  by (simp add: ending_def)

lemma inflected_word:
  assumes "ordinal_word w v"
  shows "CHR '' '' \<notin> set (inflect_o_stem w g number)" "read_stem (ending g number) (inflect_o_stem w g number) = Some v"
  using assms by (auto simp: ordinal_word_def inflected read_stem_def space_not_in_ending dest: in_set_butlastD)

lemma words_join_space: "ws \<noteq> [] \<Longrightarrow> list_all (\<lambda>w. CHR '' '' \<notin> set w) ws \<Longrightarrow> words (join_space ws) = ws"
  by (induction ws rule: join_space.induct) (simp_all add: words_single words_append_space)

lemma ordinal_tables:
  "list_all (\<lambda>n. ordinal_word (ORD_UNITS ! n) n) [1..<10]"
  "list_all (\<lambda>n. ordinal_word (ORD_TENS ! n) (10 * n)) [1..<10]"
  "list_all (\<lambda>n. ordinal_word (ORD_HUNDREDS ! n) (100 * n)) [1..<10]"
  "ordinal_word ORD_THOUSAND 1000"
  by code_simp+

text \<open>The parts of an ordinal with the values they stand for.\<close>

definition ordinal_values :: "nat \<Rightarrow> nat list" where
  "ordinal_values n =
     (if n \<ge> 1000 then [1000] else []) @ (if (n mod 1000) div 100 > 0 then [100 * ((n mod 1000) div 100)] else [])
     @ (if (n mod 1000 mod 100) div 10 > 0 then [10 * ((n mod 1000 mod 100) div 10)] else [])
     @ (if n mod 1000 mod 10 > 0 then [n mod 1000 mod 10] else [])"

lemma ordinal_parts_values: "list_all2 ordinal_word (ordinal_parts n) (ordinal_values n)"
proof -
  have less: "n mod 1000 div 100 < 10" "n mod 1000 mod 100 div 10 < 10" "n mod 1000 mod 10 < 10"
    by (simp_all add: div_less_iff_less_mult)
  note tables = upt_all [OF ordinal_tables(1) _ less(3)] upt_all [OF ordinal_tables(2) _ less(2)]
    upt_all [OF ordinal_tables(3) _ less(1)] ordinal_tables(4)
  show ?thesis unfolding ordinal_parts_def ordinal_values_def Let_def
    by (intro list_all2_appendI) (auto simp del: upt_rec_numeral simp: tables)
qed

lemma ordinal_values_sum:
  assumes "n < 2000"
  shows "sum_list (ordinal_values n) = n"
proof -
  define r h t u where "r = n mod 1000" and "h = r div 100" and "t = r mod 100 div 10" and "u = r mod 10"
  have "n = (if n \<ge> 1000 then 1000 else 0) + r" using assms by (auto simp: r_def mod_if)
  moreover have "r = 100 * h + r mod 100" by (simp add: h_def)
  moreover have "r mod 100 = 10 * t + r mod 100 mod 10" by (simp add: t_def)
  moreover have "r mod 100 mod 10 = u" by (simp add: mod_mod_cancel u_def)
  moreover have "sum_list (if x > 0 then [k * x] else []) = k * x" for k x :: nat by simp
  then have "sum_list (ordinal_values n) = (if n \<ge> 1000 then 1000 else 0) + (100 * h + (10 * t + u))"
    unfolding ordinal_values_def r_def [symmetric] h_def [symmetric] t_def [symmetric] u_def [symmetric] by simp
  ultimately show ?thesis by linarith
qed

lemma read_stems_inflected:
  "list_all2 ordinal_word ws vs \<Longrightarrow>
     read_stems (ending g number) (map (\<lambda>w. inflect_o_stem w g number) ws) = Some (sum_list vs)"
  by (induction rule: list_all2_induct) (simp_all add: inflected_word)

lemma read_ordinal_parts:
  assumes "0 < n" "n < 2000"
  shows "read_ordinal g number (join_space (map (\<lambda>w. inflect_o_stem w g number) (ordinal_parts n))) = Some n"
proof -
  let ?ws = "map (\<lambda>w. inflect_o_stem w g number) (ordinal_parts n)"
  note parts = ordinal_parts_values [of n]
  have "ordinal_parts n \<noteq> []"
    using parts ordinal_values_sum [OF assms(2)] assms(1) by (auto simp: list_all2_Nil)
  moreover have "list_all (\<lambda>w. CHR '' '' \<notin> set w) ?ws"
    using parts by (auto simp: list_all2_conv_all_nth list_all_length inflected_word(1))
  ultimately have "words (join_space ?ws) = ?ws" by (simp add: words_join_space)
  then show ?thesis
    by (simp add: read_ordinal_def read_stems_inflected [OF parts] ordinal_values_sum [OF assms(2)])
qed

section \<open>Properties\<close>

text \<open>
  C18: what is written is what was meant. Whatever cardinal is rendered, in either gender, reading its
  words with a dictionary gives the number back, and so does reading an ordinal in the gender and
  number it was written in; in particular two numbers are never written alike.
\<close>

theorem numerals_read_back:
  assumes "in_words n form g number = Ok s"
  shows "(form = Cardinal \<longrightarrow> read_cardinal s = Some (nat n))
    \<and> (form = Ordinal \<longrightarrow> read_ordinal g number s = Some (nat n))"
proof (intro conjI impI)
  assume "form = Cardinal"
  with assms have c: "cardinal n g = Ok s" by (simp add: in_words_def split: if_splits)
  then have range: "0 \<le> n" "n \<le> MAX_CARDINAL" by (auto simp: cardinal_def split: if_splits)
  show "read_cardinal s = Some (nat n)"
  proof (cases "n = 0")
    case True
    have "read_cardinal ''zero'' = Some 0" by code_simp
    with True c show ?thesis by (auto simp: cardinal_def UNITS_def MAX_CARDINAL_def)
  next
    case False
    with c range have "s = join_classes (cardinal_classes (nat n) g)" by (simp add: cardinal_def)
    moreover have "nat n \<noteq> 0" "nat n < 1000000000" using False range by (auto simp: MAX_CARDINAL_def)
    ultimately show ?thesis using read_classes [of "nat n" g] unfolding read_cardinal_def by blast
  qed
next
  assume "form = Ordinal"
  with assms have o: "ordinal n g number = Ok s" by (simp add: in_words_def)
  then have "0 < n" "n \<le> MAX_ORDINAL" by (auto simp: ordinal_def split: if_splits)
  moreover from this have "0 < nat n" "nat n < 2000" by (auto simp: MAX_ORDINAL_def)
  ultimately show "read_ordinal g number s = Some (nat n)"
    using o by (auto simp: ordinal_def read_ordinal_parts)
qed

text \<open>
  The domain of each form. A number is written exactly when it is in the range of its form and
  asks for no inflection the form does not have; everything else is an error and never a wrong word.
\<close>

theorem in_words_domain:
  "is_ok (in_words n form g number) \<longleftrightarrow>
     (case form of
        Cardinal \<Rightarrow> number = Singular \<and> 0 \<le> n \<and> n \<le> MAX_CARDINAL
      | Ordinal \<Rightarrow> 1 \<le> n \<and> n \<le> MAX_ORDINAL
      | Fractional \<Rightarrow> n = 2 \<or> 3 \<le> n \<and> n \<le> MAX_CARDINAL \<and> g \<noteq> Feminine
      | Multiplicative \<Rightarrow> (2 \<le> n \<and> n \<le> MAX_MULTIPLICATIVE \<or> n = 100) \<and> g \<noteq> Feminine \<and> number = Singular)"
  by (cases form; cases number)
    (auto simp: in_words_def cardinal_def ordinal_def fractional_def multiplicative_def is_feminine_def
      MAX_CARDINAL_def MAX_ORDINAL_def MAX_MULTIPLICATIVE_def split: option.splits sum.splits if_splits)

section \<open>Evaluated instances\<close>

text \<open>A thousand and a class below it, in the feminine.\<close>

theorem numerals_read_back_witness:
  "\<exists>s. in_words 1230 Cardinal Feminine Singular = Ok s \<and> read_cardinal s = Some 1230
     \<and> s = ''mil duzentas e trinta''"
proof -
  have s: "in_words 1230 Cardinal Feminine Singular = Ok ''mil duzentas e trinta''"
    by (simp add: in_words_def cardinal_def MAX_CARDINAL_def cardinal_classes_def group_words_def under_hundred_def
        is_feminine_def HUNDREDS_F_def TENS_def)
  then have "read_cardinal ''mil duzentas e trinta'' = Some (nat 1230)" using numerals_read_back by blast
  then have "read_cardinal ''mil duzentas e trinta'' = Some 1230" by (simp only: nat_numeral)
  with s show ?thesis by blast
qed

end
