(* ===== verification/Permission.thy ===== *)
theory Permission
  imports Prelude
begin

section \<open>The permission catalogue\<close>

text \<open>
  \<open>src/crates/chancela-authz/src/permission.rs\<close>: the verbs, their stable dotted ids, the
  meta-permissions and the ceiling for self-signup. The derived order is the declaration order;
  it fixes the iteration order of a \<open>BTreeSet<Permission>\<close>, so permissions are made a
  \<open>linorder\<close>.
\<close>

datatype permission =
    TenantRead | TenantCreate | TenantAdmin | EntityRead | EntityCreate | EntityUpdate |
    EntityRegistryImport | EntityRegistryLookup | EntityArchive | BookRead | BookOpen |
    BookClose | BookExport | BookImport | BookStartOver | BookReopen | LegalHoldManage |
    ActRead | ActDraft | ActEdit | ActAdvance | ActRevert | ActArchive | SigningPerform |
    SigningConfigure | DocumentGenerate | TemplateManage | SearchRead | SearchManage |
    LedgerRead | LedgerRecover | LedgerReanchor | LedgerRestore | DataBackup | DataExport |
    DataWipe | DataStartOver | PrivacyManage | RetentionManage | SettingsRead | SettingsManage |
    PlatformLogsWrite | CaeRead | CaeRefresh | LawRead | LawManage | TrustManage | UserRead |
    UserManage | UserInvite | RoleManage | RoleAssign | DelegationGrant | DelegationRevoke

definition ALL_PERMISSIONS :: "permission list" where
  "ALL_PERMISSIONS =
    [TenantRead, TenantCreate, TenantAdmin, EntityRead, EntityCreate, EntityUpdate,
     EntityRegistryImport, EntityRegistryLookup, EntityArchive, BookRead, BookOpen, BookClose,
     BookExport, BookImport, BookStartOver, BookReopen, LegalHoldManage, ActRead, ActDraft,
     ActEdit, ActAdvance, ActRevert, ActArchive, SigningPerform, SigningConfigure,
     DocumentGenerate, TemplateManage, SearchRead, SearchManage, LedgerRead, LedgerRecover,
     LedgerReanchor, LedgerRestore, DataBackup, DataExport, DataWipe, DataStartOver,
     PrivacyManage, RetentionManage, SettingsRead, SettingsManage, PlatformLogsWrite, CaeRead,
     CaeRefresh, LawRead, LawManage, TrustManage, UserRead, UserManage, UserInvite, RoleManage,
     RoleAssign, DelegationGrant, DelegationRevoke]"

definition META_PERMISSIONS :: "permission list" where
  "META_PERMISSIONS = [RoleManage, RoleAssign, DelegationGrant, DelegationRevoke]"

definition SELF_SIGNUP_FORBIDDEN :: "permission list" where
  "SELF_SIGNUP_FORBIDDEN =
    [UserManage, RoleManage, RoleAssign, SettingsManage, DelegationGrant, DataWipe,
     DataStartOver, BookStartOver, LegalHoldManage, PrivacyManage, RetentionManage,
     LedgerReanchor, LedgerRestore, SigningConfigure, SearchManage]"

text \<open>\<open>Permission::as_str\<close>, the form on the wire and on disk.\<close>

fun permission_str :: "permission \<Rightarrow> string" where
  "permission_str TenantRead = ''tenant.read''"
| "permission_str TenantCreate = ''tenant.create''"
| "permission_str TenantAdmin = ''tenant.admin''"
| "permission_str EntityRead = ''entity.read''"
| "permission_str EntityCreate = ''entity.create''"
| "permission_str EntityUpdate = ''entity.update''"
| "permission_str EntityRegistryImport = ''entity.registry.import''"
| "permission_str EntityRegistryLookup = ''entity.registry.lookup''"
| "permission_str EntityArchive = ''entity.archive''"
| "permission_str BookRead = ''book.read''"
| "permission_str BookOpen = ''book.open''"
| "permission_str BookClose = ''book.close''"
| "permission_str BookExport = ''book.export''"
| "permission_str BookImport = ''book.import''"
| "permission_str BookStartOver = ''book.start_over''"
| "permission_str BookReopen = ''book.reopen''"
| "permission_str LegalHoldManage = ''legal_hold.manage''"
| "permission_str ActRead = ''act.read''"
| "permission_str ActDraft = ''act.draft''"
| "permission_str ActEdit = ''act.edit''"
| "permission_str ActAdvance = ''act.advance''"
| "permission_str ActRevert = ''act.revert''"
| "permission_str ActArchive = ''act.archive''"
| "permission_str SigningPerform = ''signing.perform''"
| "permission_str SigningConfigure = ''signing.configure''"
| "permission_str DocumentGenerate = ''document.generate''"
| "permission_str TemplateManage = ''template.manage''"
| "permission_str SearchRead = ''search.read''"
| "permission_str SearchManage = ''search.manage''"
| "permission_str LedgerRead = ''ledger.read''"
| "permission_str LedgerRecover = ''ledger.recover''"
| "permission_str LedgerReanchor = ''ledger.reanchor''"
| "permission_str LedgerRestore = ''ledger.restore''"
| "permission_str DataBackup = ''data.backup''"
| "permission_str DataExport = ''data.export''"
| "permission_str DataWipe = ''data.wipe''"
| "permission_str DataStartOver = ''data.start_over''"
| "permission_str PrivacyManage = ''privacy.manage''"
| "permission_str RetentionManage = ''retention.manage''"
| "permission_str SettingsRead = ''settings.read''"
| "permission_str SettingsManage = ''settings.manage''"
| "permission_str PlatformLogsWrite = ''platform.logs.write''"
| "permission_str CaeRead = ''cae.read''"
| "permission_str CaeRefresh = ''cae.refresh''"
| "permission_str LawRead = ''law.read''"
| "permission_str LawManage = ''law.manage''"
| "permission_str TrustManage = ''trust.manage''"
| "permission_str UserRead = ''user.read''"
| "permission_str UserManage = ''user.manage''"
| "permission_str UserInvite = ''user.invite''"
| "permission_str RoleManage = ''role.manage''"
| "permission_str RoleAssign = ''role.assign''"
| "permission_str DelegationGrant = ''delegation.grant''"
| "permission_str DelegationRevoke = ''delegation.revoke''"

definition is_meta :: "permission \<Rightarrow> bool" where
  "is_meta p \<longleftrightarrow> p = RoleManage \<or> p = RoleAssign \<or> p = DelegationGrant \<or> p = DelegationRevoke"

lemma is_meta_iff: "is_meta p \<longleftrightarrow> p \<in> set META_PERMISSIONS"
  by (simp add: is_meta_def META_PERMISSIONS_def)

subsection \<open>The declaration order\<close>

text \<open>The discriminant of a verb.\<close>

fun permission_index :: "permission \<Rightarrow> nat" where
  "permission_index TenantRead = 0"
| "permission_index TenantCreate = 1"
| "permission_index TenantAdmin = 2"
| "permission_index EntityRead = 3"
| "permission_index EntityCreate = 4"
| "permission_index EntityUpdate = 5"
| "permission_index EntityRegistryImport = 6"
| "permission_index EntityRegistryLookup = 7"
| "permission_index EntityArchive = 8"
| "permission_index BookRead = 9"
| "permission_index BookOpen = 10"
| "permission_index BookClose = 11"
| "permission_index BookExport = 12"
| "permission_index BookImport = 13"
| "permission_index BookStartOver = 14"
| "permission_index BookReopen = 15"
| "permission_index LegalHoldManage = 16"
| "permission_index ActRead = 17"
| "permission_index ActDraft = 18"
| "permission_index ActEdit = 19"
| "permission_index ActAdvance = 20"
| "permission_index ActRevert = 21"
| "permission_index ActArchive = 22"
| "permission_index SigningPerform = 23"
| "permission_index SigningConfigure = 24"
| "permission_index DocumentGenerate = 25"
| "permission_index TemplateManage = 26"
| "permission_index SearchRead = 27"
| "permission_index SearchManage = 28"
| "permission_index LedgerRead = 29"
| "permission_index LedgerRecover = 30"
| "permission_index LedgerReanchor = 31"
| "permission_index LedgerRestore = 32"
| "permission_index DataBackup = 33"
| "permission_index DataExport = 34"
| "permission_index DataWipe = 35"
| "permission_index DataStartOver = 36"
| "permission_index PrivacyManage = 37"
| "permission_index RetentionManage = 38"
| "permission_index SettingsRead = 39"
| "permission_index SettingsManage = 40"
| "permission_index PlatformLogsWrite = 41"
| "permission_index CaeRead = 42"
| "permission_index CaeRefresh = 43"
| "permission_index LawRead = 44"
| "permission_index LawManage = 45"
| "permission_index TrustManage = 46"
| "permission_index UserRead = 47"
| "permission_index UserManage = 48"
| "permission_index UserInvite = 49"
| "permission_index RoleManage = 50"
| "permission_index RoleAssign = 51"
| "permission_index DelegationGrant = 52"
| "permission_index DelegationRevoke = 53"

lemma ALL_nth_index: "ALL_PERMISSIONS ! permission_index p = p"
  by (cases p) (simp_all add: ALL_PERMISSIONS_def)

lemma permission_index_less: "permission_index p < length ALL_PERMISSIONS"
  by (cases p) (simp_all add: ALL_PERMISSIONS_def)

lemma permission_index_inject: "permission_index p = permission_index q \<longleftrightarrow> p = q"
  by (metis ALL_nth_index)

lemma ALL_PERMISSIONS_complete: "p \<in> set ALL_PERMISSIONS"
  by (metis ALL_nth_index nth_mem permission_index_less)

lemma UNIV_permission: "(UNIV :: permission set) = set ALL_PERMISSIONS"
  using ALL_PERMISSIONS_complete by blast

lemma finite_permission [simp]: "finite (S :: permission set)"
  by (rule finite_subset [OF subset_UNIV]) (simp add: UNIV_permission)

instantiation permission :: linorder
begin

definition less_eq_permission :: "permission \<Rightarrow> permission \<Rightarrow> bool" where
  "less_eq_permission p q \<longleftrightarrow> permission_index p \<le> permission_index q"

definition less_permission :: "permission \<Rightarrow> permission \<Rightarrow> bool" where
  "less_permission p q \<longleftrightarrow> permission_index p < permission_index q"

instance
  by standard (auto simp: less_eq_permission_def less_permission_def permission_index_inject)

end

text \<open>The wire form determines the verb: decoding looks the text up in the catalogue.\<close>

definition permission_of_str :: "string \<Rightarrow> permission option" where
  "permission_of_str s = find (\<lambda>p. permission_str p = s) ALL_PERMISSIONS"

lemma permission_str_inject: "permission_str p = permission_str q \<Longrightarrow> p = q"
proof -
  have "distinct (map permission_str ALL_PERMISSIONS)" by code_simp
  then have "inj_on permission_str (set ALL_PERMISSIONS)" by (simp add: distinct_map)
  then show "permission_str p = permission_str q \<Longrightarrow> p = q"
    using ALL_PERMISSIONS_complete by (blast dest: inj_onD)
qed

lemma permission_of_str_iff: "permission_of_str s = Some p \<longleftrightarrow> s = permission_str p"
proof
  assume "permission_of_str s = Some p"
  then show "s = permission_str p" by (auto simp: permission_of_str_def find_Some_iff)
next
  assume s: "s = permission_str p"
  then obtain q where "permission_of_str s = Some q"
    using ALL_PERMISSIONS_complete [of p]
    by (cases "permission_of_str s") (auto simp: permission_of_str_def find_None_iff)
  moreover from this s have "q = p"
    using permission_str_inject by (auto simp: permission_of_str_def find_Some_iff)
  ultimately show "permission_of_str s = Some p" by simp
qed

end
