(* ===== verification/Authz_Scope.thy ===== *)
theory Authz_Scope
  imports Prelude
begin

section \<open>Authorization scopes and narrowing-only coverage\<close>

text \<open>
  \<open>src/crates/chancela-authz/src/scope.rs\<close>: the scopes an authority is held at, the caller's
  containment relation (\<open>BookScope\<close>) and \<open>scope_covers\<close>, which walks from the target towards
  its parents. The relation comes from live state and may be anything, cycles included; the
  walk is bounded, so it is total. The locale \<open>coverage\<close> is what the permission checks rely
  on; it is interpreted on \<open>scope_covers\<close> at the end.
\<close>

datatype scope =
    Global
  | Tenant u128
  | Entity u128
  | Book u128
  | Act u128
  | Folder u128
  | TemplateLibrary u128
  | Archive u128
  | Integration u128
  | Repository u128

definition is_global_scope :: "scope \<Rightarrow> bool" where
  "is_global_scope s \<longleftrightarrow> (case s of Global \<Rightarrow> True | _ \<Rightarrow> False)"

text \<open>The trait \<open>BookScope\<close>: one resolver per kind of resource.\<close>

record scope_relation =
  entity_of :: "u128 \<Rightarrow> u128 option"
  tenant_of :: "u128 \<Rightarrow> u128 option"
  book_of_act :: "u128 \<Rightarrow> u128 option"
  parent_of_folder :: "u128 \<Rightarrow> scope option"
  parent_of_template_library :: "u128 \<Rightarrow> scope option"
  parent_of_archive :: "u128 \<Rightarrow> scope option"
  parent_of_integration :: "u128 \<Rightarrow> scope option"
  parent_of_repository :: "u128 \<Rightarrow> scope option"

fun parent_scope :: "scope_relation \<Rightarrow> scope \<Rightarrow> scope option" where
  "parent_scope books Global = None"
| "parent_scope books (Tenant _) = None"
| "parent_scope books (Entity e) = map_option Tenant (tenant_of books e)"
| "parent_scope books (Book b) = map_option Entity (entity_of books b)"
| "parent_scope books (Act a) = map_option Book (book_of_act books a)"
| "parent_scope books (Folder f) = parent_of_folder books f"
| "parent_scope books (TemplateLibrary l) = parent_of_template_library books l"
| "parent_scope books (Archive a) = parent_of_archive books a"
| "parent_scope books (Integration i) = parent_of_integration books i"
| "parent_scope books (Repository r) = parent_of_repository books r"

text \<open>A closure \<open>Fn(BookId) -> Option<EntityId>\<close> as a relation, and \<open>NoBooks\<close>.\<close>

definition book_closure :: "(u128 \<Rightarrow> u128 option) \<Rightarrow> scope_relation" where
  "book_closure f = \<lparr>entity_of = f, tenant_of = (\<lambda>_. None), book_of_act = (\<lambda>_. None),
     parent_of_folder = (\<lambda>_. None), parent_of_template_library = (\<lambda>_. None),
     parent_of_archive = (\<lambda>_. None), parent_of_integration = (\<lambda>_. None),
     parent_of_repository = (\<lambda>_. None)\<rparr>"

definition no_books :: scope_relation where
  "no_books = book_closure (\<lambda>_. None)"

text \<open>The loop \<open>for _ in 0..8\<close>, with the number of rounds left.\<close>

fun covers_walk :: "scope_relation \<Rightarrow> nat \<Rightarrow> scope \<Rightarrow> scope option \<Rightarrow> bool" where
  "covers_walk books 0 grant current = False"
| "covers_walk books (Suc n) grant current =
     (case current of
        None \<Rightarrow> False
      | Some s \<Rightarrow> s = grant \<or> covers_walk books n grant (parent_scope books s))"

definition scope_covers :: "scope \<Rightarrow> scope \<Rightarrow> scope_relation \<Rightarrow> bool" where
  "scope_covers grant target books \<longleftrightarrow> grant = Global \<or> covers_walk books 8 grant (Some target)"

subsection \<open>Containment, as a relation\<close>

text \<open>\<open>contained books s a\<close>: \<open>a\<close> is \<open>s\<close> itself or reached from it over parents.\<close>

inductive contained :: "scope_relation \<Rightarrow> scope \<Rightarrow> scope \<Rightarrow> bool" for books where
  contained_refl: "contained books s s"
| contained_step: "parent_scope books s = Some p \<Longrightarrow> contained books p a \<Longrightarrow> contained books s a"

inductive_cases contained_cases: "contained books s a"

text \<open>\<open>hops books n s\<close>: the scope \<open>n\<close> parents up.\<close>

primrec hops :: "scope_relation \<Rightarrow> nat \<Rightarrow> scope \<Rightarrow> scope option" where
  "hops books 0 s = Some s"
| "hops books (Suc n) s = Option.bind (parent_scope books s) (hops books n)"

definition shallow :: "scope_relation \<Rightarrow> scope \<Rightarrow> bool" where
  "shallow books s \<longleftrightarrow> hops books 8 s = None"

lemma hops_add: "hops books (m + n) s = Option.bind (hops books m s) (hops books n)"
proof (induction m arbitrary: s)
  case (Suc m)
  show ?case by (cases "parent_scope books s") (simp_all add: Suc.IH)
qed simp

lemma contained_iff_hops: "contained books s a \<longleftrightarrow> (\<exists>n. hops books n s = Some a)"
proof
  show "\<exists>n. hops books n s = Some a" if "contained books s a"
    using that
  proof induction
    case (contained_refl s)
    show ?case by (rule exI [of _ 0]) simp
  next
    case (contained_step s p a)
    then obtain n where "hops books n p = Some a" by blast
    with contained_step show ?case by (intro exI [of _ "Suc n"]) simp
  qed
next
  have "contained books s a" if "hops books n s = Some a" for n
    using that
  proof (induction n arbitrary: s)
    case 0
    then show ?case by (simp add: contained_refl)
  next
    case (Suc n)
    then obtain p where "parent_scope books s = Some p" "hops books n p = Some a"
      by (auto simp: bind_eq_Some_conv)
    then show ?case using Suc.IH contained_step by blast
  qed
  then show "\<exists>n. hops books n s = Some a \<Longrightarrow> contained books s a" by blast
qed

lemma covers_walk_iff:
  "covers_walk books n g (Some t) \<longleftrightarrow> (\<exists>m < n. hops books m t = Some g)"
proof (induction n arbitrary: t)
  case (Suc n)
  have "covers_walk books (Suc n) g (Some t)
      \<longleftrightarrow> t = g \<or> (\<exists>p. parent_scope books t = Some p \<and> covers_walk books n g (Some p))"
    by (cases n; cases "parent_scope books t") simp_all
  also have "\<dots> \<longleftrightarrow> hops books 0 t = Some g \<or> (\<exists>m < n. hops books (Suc m) t = Some g)"
    by (auto simp: Suc.IH bind_eq_Some_conv)
  also have "\<dots> \<longleftrightarrow> (\<exists>m < Suc n. hops books m t = Some g)"
    using less_Suc_eq_0_disj by auto
  finally show ?case .
qed simp

lemma scope_covers_iff:
  "scope_covers g t books \<longleftrightarrow> g = Global \<or> (\<exists>n < 8. hops books n t = Some g)"
  by (simp add: scope_covers_def covers_walk_iff)

lemma hops_shallow: "shallow books t \<Longrightarrow> hops books n t = Some a \<Longrightarrow> n < 8"
proof (rule ccontr)
  assume s: "shallow books t" and h: "hops books n t = Some a" and "\<not> n < 8"
  then have "n = 8 + (n - 8)" by simp
  with h have "hops books (8 + (n - 8)) t = Some a" by simp
  with s show False by (simp only: hops_add shallow_def bind.bind_lzero) simp
qed

lemma scope_covers_refl: "scope_covers s s books"
  by (auto simp: scope_covers_iff intro!: exI [of _ 0])

lemma hops_Global: "hops books n Global = Some a \<longleftrightarrow> n = 0 \<and> a = Global"
  by (cases n) auto

lemma scope_covers_Global: "scope_covers g Global books \<longleftrightarrow> g = Global"
  by (auto simp: scope_covers_iff hops_Global intro: exI [of _ 0])

lemma scope_covers_trans:
  assumes "shallow books t" and "scope_covers g s books" and "scope_covers s t books"
  shows "scope_covers g t books"
proof (cases "g = Global \<or> s = Global")
  case True
  then show ?thesis using assms(2) scope_covers_Global by (auto simp: scope_covers_iff)
next
  case False
  then obtain m n where "hops books n s = Some g" "hops books m t = Some s"
    using assms(2, 3) by (auto simp: scope_covers_iff)
  then have "hops books (m + n) t = Some g" by (simp add: hops_add)
  then show ?thesis using hops_shallow [OF assms(1)] by (auto simp: scope_covers_iff)
qed

text \<open>The fixed part of the tree, down to acts, is at most four hops deep.\<close>

fun core_scope :: "scope \<Rightarrow> bool" where
  "core_scope Global = True"
| "core_scope (Tenant _) = True"
| "core_scope (Entity _) = True"
| "core_scope (Book _) = True"
| "core_scope (Act _) = True"
| "core_scope _ = False"

lemma core_scope_shallow: "core_scope s \<Longrightarrow> shallow books s"
  by (cases s) (auto simp: shallow_def eval_nat_numeral bind_eq_None_conv split: option.splits)

subsection \<open>The interface of the permission checks\<close>

text \<open>
  What a permission check needs of coverage: it holds of a scope itself, the widest scope
  covers everything and is covered by nothing else, and on the targets the tree resolves it is
  transitive. \<open>held\<close> is the question every check asks of a set of grants.
\<close>

locale coverage =
  fixes covers :: "'s \<Rightarrow> 's \<Rightarrow> bool"
    and top :: 's
    and resolved :: "'s \<Rightarrow> bool"
  assumes covers_refl: "covers s s"
    and covers_top: "covers top s"
    and top_covered: "covers g top \<Longrightarrow> g = top"
    and covers_trans: "resolved t \<Longrightarrow> covers g s \<Longrightarrow> covers s t \<Longrightarrow> covers g t"
begin

lemma held_narrows:
  assumes "\<exists>(q, g) \<in> grants. q = p \<and> covers g s" and "covers s t" and "resolved t"
  shows "\<exists>(q, g) \<in> grants. q = p \<and> covers g t"
  using assms covers_trans by blast

lemma held_at_top:
  assumes "\<exists>(q, g) \<in> grants. q = p \<and> covers g top"
  shows "\<exists>(q, g) \<in> grants. q = p \<and> covers g t"
  using assms top_covered covers_top by blast

lemma held_at_top_iff: "(\<exists>(q, g) \<in> grants. q = p \<and> covers g top) \<longleftrightarrow> (p, top) \<in> grants"
  using top_covered covers_refl by blast

lemma ceiling_bounds:
  assumes "\<forall>p \<in> perms. \<exists>(q, g) \<in> grants. q = p \<and> covers g s"
    and "resolved t" and "\<exists>(q, g) \<in> perms \<times> {s}. q = p \<and> covers g t"
  shows "\<exists>(q, g) \<in> grants. q = p \<and> covers g t"
proof -
  have "p \<in> perms" and t: "covers s t" using assms(3) by auto
  with assms(1) have "\<exists>(q, g) \<in> grants. q = p \<and> covers g s" by simp
  then show ?thesis using t assms(2) by (rule held_narrows)
qed

end

interpretation sc: coverage "\<lambda>g t. scope_covers g t books" Global "shallow books" for books
  by unfold_locales
    (auto simp: scope_covers_refl scope_covers_Global scope_covers_iff [of Global]
       intro: scope_covers_trans)

subsection \<open>Properties\<close>

text \<open>
  C33: what a grant covers. A grant covers a target exactly when it is global or its scope is the target
  or one of the seven scopes next above it (the code makes eight rounds, the first on the target itself). So
  it never covers what its scope does not contain; and it covers all that its scope contains
  when the target is a tenant, entity, book or act, or another scope whose chain of parents ends within seven hops
  (\<open>shallow\<close>). A global target is covered by a global grant alone, and a tenant by that
  tenant's grant or a global one, whatever the caller's relation says.
\<close>

theorem scope_covers_exact:
  "(scope_covers g t books \<longleftrightarrow> g = Global \<or> (\<exists>n \<le> 7. hops books n t = Some g))
   \<and> (scope_covers g t books \<longrightarrow> g = Global \<or> contained books t g)
   \<and> (core_scope t \<or> shallow books t \<longrightarrow> (scope_covers g t books \<longleftrightarrow> g = Global \<or> contained books t g))
   \<and> (scope_covers g Global books \<longleftrightarrow> g = Global)
   \<and> (scope_covers g (Tenant u) books \<longleftrightarrow> g = Global \<or> g = Tenant u)"
proof -
  have "hops books n (Tenant u) = Some g \<longleftrightarrow> n = 0 \<and> g = Tenant u" for n by (cases n) auto
  then have tenant: "scope_covers g (Tenant u) books \<longleftrightarrow> g = Global \<or> g = Tenant u"
    by (auto simp: scope_covers_iff)
  have hop: "scope_covers g t books \<longleftrightarrow> g = Global \<or> (\<exists>n \<le> 7. hops books n t = Some g)"
  proof -
    have "n < 8 \<longleftrightarrow> n \<le> 7" for n :: nat by linarith
    then show ?thesis unfolding scope_covers_iff by simp
  qed
  have "shallow books t \<Longrightarrow> contained books t g \<Longrightarrow> \<exists>n < 8. hops books n t = Some g"
    using hops_shallow by (meson contained_iff_hops)
  moreover have "core_scope t \<Longrightarrow> shallow books t" by (rule core_scope_shallow)
  ultimately show ?thesis
    using hop tenant scope_covers_Global by (auto simp: scope_covers_iff contained_iff_hops)
qed

text \<open>A tenant 1 with an entity 2, a book 3 and an act 4.\<close>

definition sample_scopes :: scope_relation where
  "sample_scopes = no_books\<lparr>tenant_of := (\<lambda>e. if e = 2 then Some 1 else None),
     entity_of := (\<lambda>b. if b = 3 then Some 2 else None),
     book_of_act := (\<lambda>a. if a = 4 then Some 3 else None)\<rparr>"

theorem scope_covers_exact_witness:
  "shallow sample_scopes (Act 4)
   \<and> scope_covers (Tenant 1) (Act 4) sample_scopes
   \<and> \<not> scope_covers (Tenant 2) (Act 4) sample_scopes
   \<and> contained sample_scopes (Act 4) (Tenant 1)"
proof -
  have a: "scope_covers (Tenant 1) (Act 4) sample_scopes" "\<not> scope_covers (Tenant 2) (Act 4) sample_scopes"
    "shallow sample_scopes (Act 4)"
    by code_simp+
  then show ?thesis using scope_covers_exact [of "Tenant 1" "Act 4" sample_scopes] by simp
qed

text \<open>
  Eight rounds test the target and seven parents. A folder nested eight deep below its entity
  is contained in the entity and not covered by a grant there: the walk fails closed.
\<close>

definition nested_folders :: scope_relation where
  "nested_folders = no_books\<lparr>parent_of_folder := (\<lambda>f. if f = 0 then Some (Entity 7) else Some (Folder (f - 1)))\<rparr>"

lemma eighth_hop_not_covered:
  "contained nested_folders (Folder 7) (Entity 7) \<and> \<not> scope_covers (Entity 7) (Folder 7) nested_folders"
proof -
  have "hops nested_folders 8 (Folder 7) = Some (Entity 7)" by code_simp
  moreover have "\<not> scope_covers (Entity 7) (Folder 7) nested_folders" by code_simp
  ultimately show ?thesis using contained_iff_hops by blast
qed

end
