(* ===== verification/Authz.thy ===== *)
theory Authz
  imports Permission Authz_Scope "HOL-Library.AList"
begin

section \<open>Roles, delegations and the escalation checks\<close>

text \<open>
  \<open>src/crates/chancela-authz/src/lib.rs\<close>, \<open>assignment.rs\<close>, \<open>delegation.rs\<close> and the role
  type and catalogue of \<open>role.rs\<close>: the derivation of a principal's effective authority and the
  checks that guard role authoring, role assignment, delegation and the removal of an owner. A
  \<open>BTreeSet<Permission>\<close> is a set, iterated in order; a \<open>HashSet\<close> is a set; the catalogue's
  \<open>HashMap\<close> is an association list with distinct keys, in any order.
\<close>

subsection \<open>Roles and the catalogue\<close>

record role =
  rl_id :: u128
  rl_name :: string
  rl_permission_set :: "permission set"
  rl_protected :: bool

definition can_be_deleted :: "role \<Rightarrow> bool" where
  "can_be_deleted r \<longleftrightarrow> \<not> rl_protected r"

definition can_edit_permission_set :: "role \<Rightarrow> bool" where
  "can_edit_permission_set r \<longleftrightarrow> \<not> rl_protected r"

datatype signup_default_refusal = Protected | HoldsPrivilegedPermission permission

definition signup_default_refusal_of :: "role \<Rightarrow> signup_default_refusal option" where
  "signup_default_refusal_of r =
     (if rl_protected r then Some Protected
      else map_option HoldsPrivilegedPermission
             (find (\<lambda>p. p \<in> rl_permission_set r) SELF_SIGNUP_FORBIDDEN))"

type_synonym role_catalog = "(u128 \<times> role) list"

definition catalog_get :: "role_catalog \<Rightarrow> u128 \<Rightarrow> role option" where
  "catalog_get c = map_of c"

definition catalog_insert :: "role \<Rightarrow> role_catalog \<Rightarrow> role_catalog" where
  "catalog_insert r c = AList.update (rl_id r) r c"

definition catalog_remove :: "u128 \<Rightarrow> role_catalog \<Rightarrow> role option \<times> role_catalog" where
  "catalog_remove i c = (map_of c i, AList.delete i c)"

definition catalog_from :: "role list \<Rightarrow> role_catalog" where
  "catalog_from rs = fold catalog_insert rs []"

text \<open>The catalogue's own invariant: one entry per key, and the key is the id of the role.\<close>

definition catalog_ok :: "role_catalog \<Rightarrow> bool" where
  "catalog_ok c \<longleftrightarrow> distinct (map fst c) \<and> (\<forall>(i, r) \<in> set c. rl_id r = i)"

lemma catalog_get_insert [simp]:
  "catalog_get (catalog_insert r c) i = (if i = rl_id r then Some r else catalog_get c i)"
  by (simp add: catalog_get_def catalog_insert_def update_conv')

lemma catalog_get_remove [simp]:
  "catalog_get (snd (catalog_remove i c)) j = (if j = i then None else catalog_get c j)"
  by (simp add: catalog_get_def catalog_remove_def delete_conv')

lemma catalog_get_Nil [simp]: "catalog_get [] i = None"
  by (simp add: catalog_get_def)

lemma set_alist_update: "set (AList.update k v al) \<subseteq> insert (k, v) (set al)"
  by (induction al) auto

lemma catalog_ok_insert: "catalog_ok c \<Longrightarrow> catalog_ok (catalog_insert r c)"
  using set_alist_update [of "rl_id r" r c]
  by (auto simp: catalog_ok_def catalog_insert_def distinct_update)

lemma catalog_ok_remove: "catalog_ok c \<Longrightarrow> catalog_ok (snd (catalog_remove i c))"
  by (auto simp: catalog_ok_def catalog_remove_def AList.distinct_delete)
    (auto simp: AList.delete_eq)

lemma catalog_ok_from: "catalog_ok (catalog_from rs)"
proof -
  have "catalog_ok (fold catalog_insert rs c)" if "catalog_ok c" for c
    using that by (induction rs arbitrary: c) (simp_all add: catalog_ok_insert)
  moreover have "catalog_ok []" by (simp add: catalog_ok_def)
  ultimately show ?thesis by (simp add: catalog_from_def)
qed

subsection \<open>Assignments and delegations\<close>

record role_assignment =
  ra_role_id :: u128
  ra_scope :: scope

definition OWNER_ROLE_ID :: u128 where
  "OWNER_ROLE_ID = 0x6f776e65720000000000000000000001"

definition is_owner_admin :: "role_assignment \<Rightarrow> bool" where
  "is_owner_admin a \<longleftrightarrow> ra_role_id a = OWNER_ROLE_ID \<and> is_global_scope (ra_scope a)"

record delegation =
  dl_from :: u128
  dl_to :: u128
  dl_permission :: "permission option"
  dl_extra_permissions :: "permission list"
  dl_roles :: "u128 list"
  dl_scope :: scope
  dl_starts_at :: offset_date_time
  dl_expires_at :: "offset_date_time option"
  dl_legal_basis :: "string option"
  dl_revoked :: bool
  dl_suspended :: bool

definition default_starts_at :: offset_date_time where
  "default_starts_at = \<lparr>unix_nanos = 0, utc_offset = 0\<rparr>"

text \<open>\<open>if !out.contains(&p) { out.push(p) }\<close>.\<close>

definition push_new :: "'a \<Rightarrow> 'a list \<Rightarrow> 'a list" where
  "push_new x out = (if x \<in> set out then out else out @ [x])"

lemma set_fold_push_new [simp]: "set (fold push_new xs out) = set out \<union> set xs"
  by (induction xs arbitrary: out) (auto simp: push_new_def)

lemma distinct_fold_push_new [simp]: "distinct (fold push_new xs out) \<longleftrightarrow> distinct out"
  by (induction xs arbitrary: out) (auto simp: push_new_def)

lemma fold_push_new_Nil_iff: "fold push_new xs [] = [] \<longleftrightarrow> xs = []"
  by (metis set_fold_push_new set_empty sup_bot_left)

definition delegation_new :: "u128 \<Rightarrow> u128 \<Rightarrow> permission \<Rightarrow> scope \<Rightarrow> delegation" where
  "delegation_new grantor grantee p s =
     \<lparr>dl_from = grantor, dl_to = grantee, dl_permission = Some p, dl_extra_permissions = [],
      dl_roles = [], dl_scope = s, dl_starts_at = default_starts_at, dl_expires_at = None,
      dl_legal_basis = None, dl_revoked = False, dl_suspended = False\<rparr>"

definition with_roles :: "u128 \<Rightarrow> u128 \<Rightarrow> u128 list \<Rightarrow> scope \<Rightarrow> delegation option" where
  "with_roles grantor grantee roles s =
     (let distinct_roles = fold push_new roles [] in
      if distinct_roles = [] then None
      else Some \<lparr>dl_from = grantor, dl_to = grantee, dl_permission = None, dl_extra_permissions = [],
        dl_roles = distinct_roles, dl_scope = s, dl_starts_at = default_starts_at,
        dl_expires_at = None, dl_legal_basis = None, dl_revoked = False, dl_suspended = False\<rparr>)"

definition with_permissions :: "u128 \<Rightarrow> u128 \<Rightarrow> permission list \<Rightarrow> scope \<Rightarrow> delegation option" where
  "with_permissions grantor grantee ps s =
     (case fold push_new ps [] of
        [] \<Rightarrow> None
      | primary # rest \<Rightarrow>
          Some ((delegation_new grantor grantee primary s)\<lparr>dl_extra_permissions := rest\<rparr>))"

definition legacy_permissions :: "delegation \<Rightarrow> permission list" where
  "legacy_permissions d =
     fold push_new (dl_extra_permissions d) (case dl_permission d of None \<Rightarrow> [] | Some p \<Rightarrow> [p])"

definition push_role_permissions :: "role_catalog \<Rightarrow> u128 \<Rightarrow> permission list \<Rightarrow> permission list" where
  "push_role_permissions c i out =
     (case catalog_get c i of
        None \<Rightarrow> out
      | Some r \<Rightarrow> fold push_new (sorted_list_of_set (rl_permission_set r)) out)"

definition granted_permissions :: "delegation \<Rightarrow> role_catalog \<Rightarrow> permission list" where
  "granted_permissions d c = fold (push_role_permissions c) (dl_roles d) (legacy_permissions d)"

definition starting_at :: "offset_date_time \<Rightarrow> delegation \<Rightarrow> delegation" where
  "starting_at t d = d\<lparr>dl_starts_at := t\<rparr>"

definition expiring_at :: "offset_date_time \<Rightarrow> delegation \<Rightarrow> delegation" where
  "expiring_at t d = d\<lparr>dl_expires_at := Some t\<rparr>"

definition with_legal_basis :: "string option \<Rightarrow> delegation \<Rightarrow> delegation" where
  "with_legal_basis b d = d\<lparr>dl_legal_basis := b\<rparr>"

text \<open>\<open>OffsetDateTime\<close> compares instants.\<close>

definition has_started :: "delegation \<Rightarrow> offset_date_time \<Rightarrow> bool" where
  "has_started d now \<longleftrightarrow> unix_nanos (dl_starts_at d) \<le> unix_nanos now"

definition is_expired :: "delegation \<Rightarrow> offset_date_time \<Rightarrow> bool" where
  "is_expired d now \<longleftrightarrow> (case dl_expires_at d of None \<Rightarrow> False | Some e \<Rightarrow> unix_nanos e \<le> unix_nanos now)"

definition is_active :: "delegation \<Rightarrow> offset_date_time \<Rightarrow> bool" where
  "is_active d now \<longleftrightarrow> has_started d now \<and> \<not> dl_revoked d \<and> \<not> dl_suspended d \<and> \<not> is_expired d now"

lemma set_legacy_permissions:
  "set (legacy_permissions d) = set_option (dl_permission d) \<union> set (dl_extra_permissions d)"
  by (cases "dl_permission d") (simp_all add: legacy_permissions_def)

lemma set_push_role_permissions:
  "set (push_role_permissions c i out) = set out \<union> {p. \<exists>r. catalog_get c i = Some r \<and> p \<in> rl_permission_set r}"
  by (auto simp: push_role_permissions_def split: option.split)

lemma set_granted_permissions:
  "set (granted_permissions d c) = set_option (dl_permission d) \<union> set (dl_extra_permissions d)
     \<union> {p. \<exists>i \<in> set (dl_roles d). \<exists>r. catalog_get c i = Some r \<and> p \<in> rl_permission_set r}"
proof -
  have "set (fold (push_role_permissions c) is out)
      = set out \<union> {p. \<exists>i \<in> set is. \<exists>r. catalog_get c i = Some r \<and> p \<in> rl_permission_set r}" for "is" out
    by (induction "is" arbitrary: out) (auto simp: set_push_role_permissions)
  then show ?thesis by (simp add: granted_permissions_def set_legacy_permissions)
qed

subsection \<open>Effective authority\<close>

record scoped_permission_set =
  role_grants :: "(permission \<times> scope) set"
  delegated_grants :: "(permission \<times> scope) set"

definition scoped_permission_set_new :: scoped_permission_set where
  "scoped_permission_set_new = \<lparr>role_grants = {}, delegated_grants = {}\<rparr>"

definition all_grants :: "scoped_permission_set \<Rightarrow> (permission \<times> scope) set" where
  "all_grants s = role_grants s \<union> delegated_grants s"

definition scoped_is_empty :: "scoped_permission_set \<Rightarrow> bool" where
  "scoped_is_empty s \<longleftrightarrow> role_grants s = {} \<and> delegated_grants s = {}"

definition has_via_role :: "scoped_permission_set \<Rightarrow> permission \<Rightarrow> scope \<Rightarrow> scope_relation \<Rightarrow> bool" where
  "has_via_role s p target books \<longleftrightarrow> (\<exists>(q, g) \<in> role_grants s. q = p \<and> scope_covers g target books)"

definition add_assignment :: "role_catalog \<Rightarrow> role_assignment \<Rightarrow> scoped_permission_set \<Rightarrow> scoped_permission_set" where
  "add_assignment roles a s =
     (case catalog_get roles (ra_role_id a) of
        None \<Rightarrow> s
      | Some r \<Rightarrow> s\<lparr>role_grants := role_grants s \<union> (\<lambda>p. (p, ra_scope a)) ` rl_permission_set r\<rparr>)"

definition add_delegation ::
  "u128 \<Rightarrow> role_catalog \<Rightarrow> offset_date_time \<Rightarrow> delegation \<Rightarrow> scoped_permission_set \<Rightarrow> scoped_permission_set" where
  "add_delegation user roles now d s =
     (if dl_to d = user \<and> is_active d now
      then s\<lparr>delegated_grants := delegated_grants s \<union> (\<lambda>p. (p, dl_scope d)) ` set (granted_permissions d roles)\<rparr>
      else s)"

definition effective_permissions ::
  "u128 \<Rightarrow> role_assignment list \<Rightarrow> role_catalog \<Rightarrow> delegation list \<Rightarrow> offset_date_time \<Rightarrow> scoped_permission_set" where
  "effective_permissions user assignments roles delegations now =
     fold (add_delegation user roles now) delegations
       (fold (add_assignment roles) assignments scoped_permission_set_new)"

definition has_permission ::
  "scoped_permission_set \<Rightarrow> permission \<Rightarrow> scope \<Rightarrow> scope_relation \<Rightarrow> bool" where
  "has_permission effective p target books \<longleftrightarrow>
     (\<exists>(q, g) \<in> all_grants effective. q = p \<and> scope_covers g target books)"

subsection \<open>The escalation checks\<close>

definition can_define_role :: "scoped_permission_set \<Rightarrow> permission list \<Rightarrow> scope_relation \<Rightarrow> bool" where
  "can_define_role actor ps books \<longleftrightarrow> (\<forall>p \<in> set ps. has_permission actor p Global books)"

definition can_assign_role :: "scoped_permission_set \<Rightarrow> role \<Rightarrow> scope \<Rightarrow> scope_relation \<Rightarrow> bool" where
  "can_assign_role actor r s books \<longleftrightarrow> (\<forall>p \<in> rl_permission_set r. has_permission actor p s books)"

definition can_delegate :: "scoped_permission_set \<Rightarrow> permission \<Rightarrow> scope \<Rightarrow> scope_relation \<Rightarrow> bool" where
  "can_delegate actor p s books \<longleftrightarrow> \<not> is_meta p \<and> has_via_role actor p s books"

datatype delegation_refusal = Meta permission | NotHeldViaRole permission | UnknownRole u128

fun refusal_permission :: "delegation_refusal \<Rightarrow> permission option" where
  "refusal_permission (Meta p) = Some p"
| "refusal_permission (NotHeldViaRole p) = Some p"
| "refusal_permission (UnknownRole _) = None"

fun can_delegate_all ::
  "scoped_permission_set \<Rightarrow> permission list \<Rightarrow> scope \<Rightarrow> scope_relation \<Rightarrow> delegation_refusal + unit" where
  "can_delegate_all actor [] s books = Ok ()"
| "can_delegate_all actor (p # ps) s books =
     (if is_meta p then Err (Meta p)
      else if \<not> has_via_role actor p s books then Err (NotHeldViaRole p)
      else can_delegate_all actor ps s books)"

definition can_delegate_role ::
  "scoped_permission_set \<Rightarrow> role \<Rightarrow> scope \<Rightarrow> scope_relation \<Rightarrow> delegation_refusal + unit" where
  "can_delegate_role actor r s books =
     can_delegate_all actor (sorted_list_of_set (rl_permission_set r)) s books"

fun can_delegate_roles ::
  "scoped_permission_set \<Rightarrow> u128 list \<Rightarrow> role_catalog \<Rightarrow> scope \<Rightarrow> scope_relation \<Rightarrow> delegation_refusal + unit" where
  "can_delegate_roles actor [] catalog s books = Ok ()"
| "can_delegate_roles actor (i # is) catalog s books =
     (case catalog_get catalog i of
        None \<Rightarrow> Err (UnknownRole i)
      | Some r \<Rightarrow>
          (case can_delegate_role actor r s books of
             Inl e \<Rightarrow> Err e
           | Inr _ \<Rightarrow> can_delegate_roles actor is catalog s books))"

definition last_owner_guard :: "nat \<Rightarrow> bool" where
  "last_owner_guard current_owner_admin_holders \<longleftrightarrow> current_owner_admin_holders > 1"

definition count_owner_admin_holders :: "(u128 \<times> role_assignment) list \<Rightarrow> nat" where
  "count_owner_admin_holders assignments =
     card (set (map fst (filter (\<lambda>(u, a). is_owner_admin a) assignments)))"

subsection \<open>What a principal holds\<close>

lemma grants_add_assignments:
  "role_grants (fold (add_assignment roles) as s) = role_grants s
     \<union> {(p, ra_scope a) |p a. a \<in> set as \<and> (\<exists>r. catalog_get roles (ra_role_id a) = Some r \<and> p \<in> rl_permission_set r)}"
  "delegated_grants (fold (add_assignment roles) as s) = delegated_grants s"
  by (induction as arbitrary: s) (auto simp: add_assignment_def split: option.split)

lemma grants_add_delegations:
  "role_grants (fold (add_delegation u roles now) ds s) = role_grants s"
  "delegated_grants (fold (add_delegation u roles now) ds s) = delegated_grants s
     \<union> {(p, dl_scope d) |p d. d \<in> set ds \<and> dl_to d = u \<and> is_active d now \<and> p \<in> set (granted_permissions d roles)}"
  by (induction ds arbitrary: s) (auto simp: add_delegation_def)

lemma role_grants_effective:
  "role_grants (effective_permissions u as roles ds now) =
     {(p, ra_scope a) |p a. a \<in> set as \<and> (\<exists>r. catalog_get roles (ra_role_id a) = Some r \<and> p \<in> rl_permission_set r)}"
  by (simp add: effective_permissions_def grants_add_assignments grants_add_delegations scoped_permission_set_new_def)

lemma delegated_grants_effective:
  "delegated_grants (effective_permissions u as roles ds now) =
     {(p, dl_scope d) |p d. d \<in> set ds \<and> dl_to d = u \<and> is_active d now \<and> p \<in> set (granted_permissions d roles)}"
  by (simp add: effective_permissions_def grants_add_assignments grants_add_delegations scoped_permission_set_new_def)

lemmas effective_grants = role_grants_effective delegated_grants_effective

lemma has_via_role_effective:
  "has_via_role (effective_permissions u as roles ds now) p t books \<longleftrightarrow>
     (\<exists>a \<in> set as. \<exists>r. catalog_get roles (ra_role_id a) = Some r \<and> p \<in> rl_permission_set r
        \<and> scope_covers (ra_scope a) t books)"
  unfolding has_via_role_def role_grants_effective by blast

lemma has_permission_effective:
  "has_permission (effective_permissions u as roles ds now) p t books \<longleftrightarrow>
     has_via_role (effective_permissions u as roles ds now) p t books
     \<or> (\<exists>d \<in> set ds. dl_to d = u \<and> is_active d now \<and> p \<in> set (granted_permissions d roles)
          \<and> scope_covers (dl_scope d) t books)"
  unfolding has_permission_def has_via_role_def all_grants_def delegated_grants_effective by blast

lemma has_via_role_permission: "has_via_role s p t books \<Longrightarrow> has_permission s p t books"
  by (auto simp: has_via_role_def has_permission_def all_grants_def)

text \<open>The interface lemmas of coverage, read on the two checks.\<close>

lemma has_permission_narrows:
  "has_permission s p g books \<Longrightarrow> scope_covers g t books \<Longrightarrow> shallow books t \<Longrightarrow> has_permission s p t books"
  unfolding has_permission_def by (rule sc.held_narrows)

lemma has_via_role_narrows:
  "has_via_role s p g books \<Longrightarrow> scope_covers g t books \<Longrightarrow> shallow books t \<Longrightarrow> has_via_role s p t books"
  unfolding has_via_role_def by (rule sc.held_narrows)

lemma has_permission_everywhere: "has_permission s p Global books \<Longrightarrow> has_permission s p t books"
  unfolding has_permission_def by (rule sc.held_at_top)

lemma can_delegate_all_ok:
  "can_delegate_all actor ps s books = Inr u \<longleftrightarrow> (\<forall>p \<in> set ps. can_delegate actor p s books)"
  by (induction ps) (auto simp: can_delegate_def)

lemma can_delegate_role_ok:
  "can_delegate_role actor r s books = Inr u \<longleftrightarrow> (\<forall>p \<in> rl_permission_set r. can_delegate actor p s books)"
  by (simp add: can_delegate_role_def can_delegate_all_ok)

lemma can_delegate_roles_ok:
  "can_delegate_roles actor is c s books = Inr u \<longleftrightarrow>
     (\<forall>i \<in> set is. \<exists>r. catalog_get c i = Some r \<and> (\<forall>p \<in> rl_permission_set r. can_delegate actor p s books))"
proof (induction "is")
  case (Cons i "is")
  have "(case can_delegate_role actor r s books of Inl e \<Rightarrow> Err e | Inr _ \<Rightarrow> can_delegate_roles actor is c s books) = Inr u
      \<longleftrightarrow> (\<forall>p \<in> rl_permission_set r. can_delegate actor p s books) \<and> can_delegate_roles actor is c s books = Inr u" for r
    using can_delegate_role_ok [of actor r s books] by (cases "can_delegate_role actor r s books") auto
  with Cons show ?case by (auto split: option.split)
qed simp

subsection \<open>Properties\<close>

text \<open>
  delegating never escalates, and what was received cannot be passed on. When the check
  accepts the roles, everything the resulting delegation adds to its receiver at a target the
  scope tree resolves is a permission that is not a meta-permission and that the grantor holds
  there through a role; and the verdict of the check is the same whatever delegations were
  addressed to the grantor.
\<close>

theorem delegation_within_ceiling:
  assumes "can_delegate_roles (effective_permissions grantor as roles ds now) is roles s books = Ok ()"
    and "with_roles grantor grantee is s = Some d"
    and "shallow books t"
    and "has_permission (effective_permissions grantee as' roles (ds' @ [d\<lparr>dl_starts_at := b, dl_expires_at := e\<rparr>]) now') p t books"
  shows "(has_permission (effective_permissions grantee as' roles ds' now') p t books
      \<or> \<not> is_meta p \<and> has_via_role (effective_permissions grantor as roles ds now) p t books)
    \<and> can_delegate_roles (effective_permissions grantor as roles [] now) is roles s books = Ok ()"
proof -
  let ?d = "d\<lparr>dl_starts_at := b, dl_expires_at := e\<rparr>"
  have d: "dl_permission d = None" "dl_extra_permissions d = []" "set (dl_roles d) = set is" "dl_scope d = s"
    using assms(2) by (auto simp: with_roles_def Let_def split: if_splits)
  have roles: "can_delegate (effective_permissions grantor as roles ds now) q s books"
    if "q \<in> set (granted_permissions ?d roles)" for q
    using that assms(1) d by (auto simp: set_granted_permissions can_delegate_roles_ok)
  have "can_delegate (effective_permissions grantor as roles [] now) q s books
      \<longleftrightarrow> can_delegate (effective_permissions grantor as roles ds now) q s books" for q
    by (simp add: can_delegate_def has_via_role_effective)
  then have "can_delegate_roles (effective_permissions grantor as roles [] now) is roles s books = Ok ()"
    using assms(1) by (simp add: can_delegate_roles_ok)
  moreover have "\<not> is_meta p \<and> has_via_role (effective_permissions grantor as roles ds now) p t books"
    if "p \<in> set (granted_permissions ?d roles)" "scope_covers s t books"
    using roles [OF that(1)] has_via_role_narrows [OF _ that(2) assms(3)] by (auto simp: can_delegate_def)
  ultimately show ?thesis
    using assms(4) d(4) by (auto simp: has_permission_effective has_via_role_effective)
qed

text \<open>
  assigning and authoring never escalate. A role the check lets an actor assign at a scope
  gives its holder, at every target the scope tree resolves, only permissions the actor has
  there; a permission set the check lets an actor author gives, at whatever scope a role with
  it is assigned, only permissions the actor has.
\<close>

theorem assignment_within_ceiling:
  "(can_assign_role actor r s books \<longrightarrow> p \<in> rl_permission_set r \<longrightarrow> scope_covers s t books \<longrightarrow> shallow books t
      \<longrightarrow> has_permission actor p t books)
   \<and> (can_define_role actor ps books \<longrightarrow> p \<in> set ps \<longrightarrow> has_permission actor p t books)"
proof (intro conjI impI)
  assume "can_assign_role actor r s books" and p: "p \<in> rl_permission_set r" and t: "scope_covers s t books" "shallow books t"
  then have "has_permission actor p s books" by (simp add: can_assign_role_def)
  then show "has_permission actor p t books" using t by (rule has_permission_narrows)
next
  assume "can_define_role actor ps books" and "p \<in> set ps"
  then have "has_permission actor p Global books" by (simp add: can_define_role_def)
  then show "has_permission actor p t books" by (rule has_permission_everywhere)
qed

text \<open>
  authority is exactly what the records give. A principal has a permission at a target when
  an assignment of a catalogued role with that permission covers it, or a delegation addressed
  to them does that has started, has not expired, is neither revoked nor suspended, and conveys
  the permission directly or through a catalogued role; missing roles give nothing.
\<close>

theorem authority_exact:
  "has_permission (effective_permissions u as roles ds now) p t books \<longleftrightarrow>
     (\<exists>a \<in> set as. \<exists>r. catalog_get roles (ra_role_id a) = Some r \<and> p \<in> rl_permission_set r
        \<and> scope_covers (ra_scope a) t books)
   \<or> (\<exists>d \<in> set ds. dl_to d = u \<and> \<not> dl_revoked d \<and> \<not> dl_suspended d
        \<and> unix_nanos (dl_starts_at d) \<le> unix_nanos now
        \<and> (\<forall>e. dl_expires_at d = Some e \<longrightarrow> unix_nanos now < unix_nanos e)
        \<and> (dl_permission d = Some p \<or> p \<in> set (dl_extra_permissions d)
           \<or> (\<exists>i \<in> set (dl_roles d). \<exists>r. catalog_get roles i = Some r \<and> p \<in> rl_permission_set r))
        \<and> scope_covers (dl_scope d) t books)"
proof -
  have active: "is_active d now \<longleftrightarrow> \<not> dl_revoked d \<and> \<not> dl_suspended d
      \<and> unix_nanos (dl_starts_at d) \<le> unix_nanos now
      \<and> (\<forall>e. dl_expires_at d = Some e \<longrightarrow> unix_nanos now < unix_nanos e)" for d
    by (auto simp: is_active_def has_started_def is_expired_def split: option.splits)
  have conveyed: "p \<in> set (granted_permissions d roles) \<longleftrightarrow> dl_permission d = Some p \<or> p \<in> set (dl_extra_permissions d)
      \<or> (\<exists>i \<in> set (dl_roles d). \<exists>r. catalog_get roles i = Some r \<and> p \<in> rl_permission_set r)" for d
    by (auto simp: set_granted_permissions)
  show ?thesis unfolding has_permission_effective has_via_role_effective active conveyed by blast
qed

text \<open>
  The ceiling of self-signup: the shared check accepts a role exactly when it is not protected
  and holds none of the forbidden verbs.
\<close>

lemma signup_default_accepted_iff:
  "signup_default_refusal_of r = None \<longleftrightarrow> \<not> rl_protected r \<and> rl_permission_set r \<inter> set SELF_SIGNUP_FORBIDDEN = {}"
  by (auto simp: signup_default_refusal_of_def find_None_iff)

lemma signup_default_no_meta_but_revoke:
  "signup_default_refusal_of r = None \<Longrightarrow> p \<in> rl_permission_set r \<Longrightarrow> is_meta p \<Longrightarrow> p = DelegationRevoke"
  by (auto simp: signup_default_accepted_iff is_meta_def SELF_SIGNUP_FORBIDDEN_def)

subsection \<open>Evaluated instances\<close>

definition sample_role :: role where
  "sample_role = \<lparr>rl_id = 10, rl_name = ''Redator'', rl_permission_set = {ActRead, ActDraft}, rl_protected = False\<rparr>"

definition sample_catalog :: role_catalog where
  "sample_catalog = catalog_from [sample_role]"

definition sample_assignments :: "role_assignment list" where
  "sample_assignments = [\<lparr>ra_role_id = 10, ra_scope = Tenant 1\<rparr>]"

theorem delegation_within_ceiling_witness:
  "has_via_role (effective_permissions 100 sample_assignments sample_catalog [] default_starts_at) ActDraft (Act 4) sample_scopes
   \<and> \<not> is_meta ActDraft"
proof -
  obtain d where d: "with_roles 100 200 [10] (Entity 2) = Some d" by (simp add: with_roles_def push_new_def)
  then have d_eq: "d = the (with_roles 100 200 [10] (Entity 2))" by simp
  have ok: "can_delegate_roles (effective_permissions 100 sample_assignments sample_catalog [] default_starts_at) [10]
      sample_catalog (Entity 2) sample_scopes = Ok ()"
    by code_simp
  have "has_permission (effective_permissions 200 [] sample_catalog
      ([] @ [(the (with_roles 100 200 [10] (Entity 2)))\<lparr>dl_starts_at := default_starts_at, dl_expires_at := None\<rparr>]) default_starts_at)
      ActDraft (Act 4) sample_scopes"
    by code_simp
  moreover have "\<not> has_permission (effective_permissions 200 [] sample_catalog [] default_starts_at) ActDraft (Act 4) sample_scopes"
    by code_simp
  moreover have "shallow sample_scopes (Act 4)" by (simp add: core_scope_shallow)
  ultimately show ?thesis
    using delegation_within_ceiling [OF ok d] d_eq by blast
qed

theorem assignment_within_ceiling_witness:
  "has_permission (effective_permissions 100 sample_assignments sample_catalog [] default_starts_at) ActRead (Book 3) sample_scopes"
proof -
  have "can_assign_role (effective_permissions 100 sample_assignments sample_catalog [] default_starts_at)
      sample_role (Entity 2) sample_scopes"
    "ActRead \<in> rl_permission_set sample_role" "scope_covers (Entity 2) (Book 3) sample_scopes"
    "shallow sample_scopes (Book 3)"
    by code_simp+
  then show ?thesis
    using assignment_within_ceiling [of _ sample_role "Entity 2" sample_scopes ActRead "Book 3" "[]"] by blast
qed

theorem authority_exact_witness:
  "\<not> has_permission (effective_permissions 100 sample_assignments [] [] default_starts_at) ActRead (Act 4) sample_scopes"
  using authority_exact [of 100 sample_assignments "[]" "[]" default_starts_at ActRead "Act 4" sample_scopes] by simp

end
