(* ===== verification/Authz_Roles.thy ===== *)
theory Authz_Roles
  imports Authz
begin

section \<open>Seeded roles and the verb-split migrations\<close>

text \<open>
  \<open>src/crates/chancela-authz/src/role.rs\<close>: the roles a fresh installation starts with, the
  retired ids, and the migrations that give a verb split off a broader one back to the roles
  that held the broader one. \<open>apply_grandfather_table\<close> is shown to compute what its table says,
  on one role and on a whole catalogue, and the seeded catalogue is shown to need no migration.
\<close>

subsection \<open>Identifiers\<close>

definition RETIRED_GESTOR_ROLE_ID :: u128 where
  "RETIRED_GESTOR_ROLE_ID = 0x676573746f7200000000000000000002"

definition RETIRED_SIGNATARIO_ROLE_ID :: u128 where
  "RETIRED_SIGNATARIO_ROLE_ID = 0x7369676e617400000000000000000003"

definition READER_ROLE_ID :: u128 where
  "READER_ROLE_ID = 0x6c6569746f7200000000000000000004"

definition PLATFORM_ADMIN_ROLE_ID :: u128 where
  "PLATFORM_ADMIN_ROLE_ID = 0x706c617461646d000000000000000005"

definition TENANT_ADMIN_ROLE_ID :: u128 where
  "TENANT_ADMIN_ROLE_ID = 0x74656e61646d00000000000000000006"

definition AUDITOR_ROLE_ID :: u128 where
  "AUDITOR_ROLE_ID = 0x61756469746f72000000000000000007"

definition GUEST_ROLE_ID :: u128 where
  "GUEST_ROLE_ID = 0x67756573740000000000000000000008"

definition API_CLIENT_ROLE_ID :: u128 where
  "API_CLIENT_ROLE_ID = 0x617069636c6e74000000000000000009"

definition COMPANY_OWNER_ROLE_ID :: u128 where
  "COMPANY_OWNER_ROLE_ID = 0x636f6f776e720000000000000000000a"

definition CORPORATE_SECRETARY_ROLE_ID :: u128 where
  "CORPORATE_SECRETARY_ROLE_ID = 0x636f727073656300000000000000000b"

definition LEGAL_COUNSEL_ROLE_ID :: u128 where
  "LEGAL_COUNSEL_ROLE_ID = 0x6c65676c636e7300000000000000000c"

definition RECORDS_MANAGER_ROLE_ID :: u128 where
  "RECORDS_MANAGER_ROLE_ID = 0x7265636d67720000000000000000000d"

definition SIGNATORY_ROLE_ID :: u128 where
  "SIGNATORY_ROLE_ID = 0x7369676e74727900000000000000000e"

definition REVIEWER_ROLE_ID :: u128 where
  "REVIEWER_ROLE_ID = 0x7265766965777200000000000000000f"

definition RETIRED_SEEDED_ROLES :: "(u128 \<times> u128) list" where
  "RETIRED_SEEDED_ROLES =
     [(RETIRED_GESTOR_ROLE_ID, COMPANY_OWNER_ROLE_ID), (RETIRED_SIGNATARIO_ROLE_ID, SIGNATORY_ROLE_ID)]"

definition retired_role_successor :: "u128 \<Rightarrow> u128 option" where
  "retired_role_successor i = map_option snd (find (\<lambda>(retired, _). retired = i) RETIRED_SEEDED_ROLES)"

subsection \<open>The seeded roles\<close>

definition owner_role :: role where
  "owner_role = \<lparr>rl_id = OWNER_ROLE_ID, rl_name = ''Owner'', rl_permission_set = set ALL_PERMISSIONS,
     rl_protected = True\<rparr>"

definition reader :: role where
  "reader = \<lparr>rl_id = READER_ROLE_ID, rl_name = ''Reader'',
     rl_permission_set = set
      [EntityRead, BookRead, ActRead, SearchRead, LedgerRead, CaeRead, LawRead, SettingsRead],
     rl_protected = False\<rparr>"

definition platform_administrator :: role where
  "platform_administrator = \<lparr>rl_id = PLATFORM_ADMIN_ROLE_ID, rl_name = ''Platform Administrator'',
     rl_permission_set = set
      [TenantRead, TenantCreate, TenantAdmin, EntityRead, EntityCreate, EntityUpdate,
       EntityRegistryImport, EntityRegistryLookup, EntityArchive, BookRead, BookOpen, BookClose,
       BookExport, BookImport, BookStartOver, BookReopen, LegalHoldManage, ActRead, ActDraft,
       ActEdit, ActAdvance, ActRevert, ActArchive, SigningPerform, SigningConfigure,
       DocumentGenerate, TemplateManage, SearchRead, SearchManage, LedgerRead, LedgerRecover,
       LedgerReanchor, LedgerRestore, DataBackup, DataExport, PrivacyManage, RetentionManage,
       SettingsRead, SettingsManage, PlatformLogsWrite, CaeRead, CaeRefresh, LawRead, LawManage,
       TrustManage, UserRead, UserManage, UserInvite, RoleManage, RoleAssign, DelegationGrant,
       DelegationRevoke],
     rl_protected = False\<rparr>"

definition tenant_administrator :: role where
  "tenant_administrator = \<lparr>rl_id = TENANT_ADMIN_ROLE_ID, rl_name = ''Tenant Administrator'',
     rl_permission_set = set
      [TenantRead, TenantAdmin, EntityRead, EntityUpdate, BookRead, BookOpen, BookClose,
       BookExport, BookImport, BookStartOver, BookReopen, ActRead, ActDraft, ActEdit, ActAdvance,
       ActRevert, ActArchive, SearchRead, SigningPerform, DocumentGenerate, TemplateManage,
       LedgerRead, SettingsRead, CaeRead, LawRead, UserRead, UserInvite, RoleAssign,
       DelegationGrant, DelegationRevoke],
     rl_protected = False\<rparr>"

definition auditor :: role where
  "auditor = \<lparr>rl_id = AUDITOR_ROLE_ID, rl_name = ''Auditor'',
     rl_permission_set = set
      [EntityRead, BookRead, BookExport, ActRead, SearchRead, LedgerRead, SettingsRead, CaeRead,
       LawRead, UserRead],
     rl_protected = False\<rparr>"

definition guest :: role where
  "guest = \<lparr>rl_id = GUEST_ROLE_ID, rl_name = ''Guest'',
     rl_permission_set = set
      [EntityRead, BookRead, ActRead, SearchRead, CaeRead, LawRead],
     rl_protected = False\<rparr>"

definition api_client :: role where
  "api_client = \<lparr>rl_id = API_CLIENT_ROLE_ID, rl_name = ''API Client'',
     rl_permission_set = set
      [EntityRead, BookRead, BookExport, ActRead, ActDraft, ActEdit, ActAdvance, ActRevert,
       SearchRead, SigningPerform, DocumentGenerate, TemplateManage, LedgerRead, CaeRead, LawRead],
     rl_protected = False\<rparr>"

definition company_owner :: role where
  "company_owner = \<lparr>rl_id = COMPANY_OWNER_ROLE_ID, rl_name = ''Company Owner'',
     rl_permission_set = set
      [EntityRead, EntityCreate, EntityUpdate, EntityRegistryImport, EntityRegistryLookup,
       EntityArchive, BookRead, BookOpen, BookClose, BookExport, BookImport, BookStartOver,
       BookReopen, ActRead, ActDraft, ActEdit, ActAdvance, ActRevert, ActArchive, SearchRead,
       SigningPerform, DocumentGenerate, TemplateManage, CaeRead, CaeRefresh, LawRead, LawManage,
       SettingsRead, LedgerRead, DataBackup, DataExport],
     rl_protected = False\<rparr>"

definition corporate_secretary :: role where
  "corporate_secretary = \<lparr>rl_id = CORPORATE_SECRETARY_ROLE_ID, rl_name = ''Corporate Secretary'',
     rl_permission_set = set
      [EntityRead, BookRead, BookExport, ActRead, ActDraft, ActEdit, ActAdvance, ActRevert,
       SearchRead, SigningPerform, DocumentGenerate, TemplateManage, LedgerRead, CaeRead,
       LawRead, SettingsRead, UserInvite],
     rl_protected = False\<rparr>"

definition legal_counsel :: role where
  "legal_counsel = \<lparr>rl_id = LEGAL_COUNSEL_ROLE_ID, rl_name = ''Legal Counsel'',
     rl_permission_set = set
      [EntityRead, BookRead, LegalHoldManage, ActRead, SearchRead, LedgerRead, CaeRead, LawRead,
       SettingsRead],
     rl_protected = False\<rparr>"

definition records_manager :: role where
  "records_manager = \<lparr>rl_id = RECORDS_MANAGER_ROLE_ID, rl_name = ''Records Manager'',
     rl_permission_set = set
      [EntityRead, EntityArchive, BookRead, BookOpen, BookClose, BookExport, BookImport, ActRead,
       SearchRead, ActArchive, DocumentGenerate, LedgerRead, DataExport, CaeRead, LawRead,
       SettingsRead],
     rl_protected = False\<rparr>"

definition signatory :: role where
  "signatory = \<lparr>rl_id = SIGNATORY_ROLE_ID, rl_name = ''Signatory'',
     rl_permission_set = set
      [EntityRead, BookRead, ActRead, SearchRead, LedgerRead, ActAdvance, ActRevert,
       SigningPerform, DocumentGenerate],
     rl_protected = False\<rparr>"

definition reviewer :: role where
  "reviewer = \<lparr>rl_id = REVIEWER_ROLE_ID, rl_name = ''Reviewer'',
     rl_permission_set = set
      [EntityRead, BookRead, ActRead, SearchRead, LedgerRead, ActAdvance, ActRevert,
       DocumentGenerate],
     rl_protected = False\<rparr>"

definition default_roles :: "role list" where
  "default_roles =
    [owner_role, reader, company_owner, corporate_secretary, legal_counsel, records_manager,
     signatory, reviewer, platform_administrator, tenant_administrator, auditor, guest,
     api_client]"

definition is_seeded_role :: "u128 \<Rightarrow> bool" where
  "is_seeded_role i \<longleftrightarrow> list_ex (\<lambda>r. rl_id r = i) default_roles"

definition seeded_defaults :: role_catalog where
  "seeded_defaults = catalog_from default_roles"

subsection \<open>The migrations\<close>

type_synonym grandfather_table = "(permission \<times> permission list) list"

definition T27_VERB_SPLIT_GRANDFATHER :: grandfather_table where
  "T27_VERB_SPLIT_GRANDFATHER =
     [(PrivacyManage, [UserManage, SettingsManage]), (RetentionManage, [UserManage, SettingsManage]),
      (LedgerReanchor, [LedgerRecover]), (LedgerRestore, [LedgerRecover])]"

definition T30_ACT_REVERT_GRANDFATHER :: grandfather_table where
  "T30_ACT_REVERT_GRANDFATHER = [(ActRevert, [ActAdvance])]"

definition T50_SIGNING_CONFIGURE_GRANDFATHER :: grandfather_table where
  "T50_SIGNING_CONFIGURE_GRANDFATHER = [(SigningConfigure, [SettingsManage])]"

definition SEARCH_READ_GRANDFATHER_PARENT :: permission where
  "SEARCH_READ_GRANDFATHER_PARENT = ActRead"

definition grandfather_entry :: "permission \<times> permission list \<Rightarrow> bool \<times> role \<Rightarrow> bool \<times> role" where
  "grandfather_entry = (\<lambda>(child, parents) (changed, r).
     if child \<in> rl_permission_set r then (changed, r)
     else if list_ex (\<lambda>p. p \<in> rl_permission_set r) parents
     then (True, r\<lparr>rl_permission_set := insert child (rl_permission_set r)\<rparr>)
     else (changed, r))"

definition apply_grandfather_table :: "grandfather_table \<Rightarrow> role \<Rightarrow> bool \<times> role" where
  "apply_grandfather_table table r =
     (if rl_protected r then (False, r) else fold grandfather_entry table (False, r))"

text \<open>
  Over a catalogue: the ids are collected first, then each role is looked up, migrated and put
  back. \<open>migrate\<close> is the change made to one role.
\<close>

definition migrate_id :: "(role \<Rightarrow> bool \<times> role) \<Rightarrow> u128 \<Rightarrow> bool \<times> role_catalog \<Rightarrow> bool \<times> role_catalog" where
  "migrate_id migrate i = (\<lambda>(changed, c).
     case catalog_get c i of
       None \<Rightarrow> (changed, c)
     | Some current \<Rightarrow> (case migrate current of (True, r) \<Rightarrow> (True, catalog_insert r c) | (False, _) \<Rightarrow> (changed, c)))"

definition migrate_catalog :: "(role \<Rightarrow> bool \<times> role) \<Rightarrow> role_catalog \<Rightarrow> bool \<times> role_catalog" where
  "migrate_catalog migrate c = fold (migrate_id migrate) (map (\<lambda>(_, r). rl_id r) c) (False, c)"

definition apply_grandfather_table_catalog :: "grandfather_table \<Rightarrow> role_catalog \<Rightarrow> bool \<times> role_catalog" where
  "apply_grandfather_table_catalog table = migrate_catalog (apply_grandfather_table table)"

definition grandfather_split_verbs :: "role \<Rightarrow> bool \<times> role" where
  "grandfather_split_verbs = apply_grandfather_table T27_VERB_SPLIT_GRANDFATHER"

definition grandfather_split_verbs_catalog :: "role_catalog \<Rightarrow> bool \<times> role_catalog" where
  "grandfather_split_verbs_catalog = apply_grandfather_table_catalog T27_VERB_SPLIT_GRANDFATHER"

definition grandfather_act_revert :: "role \<Rightarrow> bool \<times> role" where
  "grandfather_act_revert = apply_grandfather_table T30_ACT_REVERT_GRANDFATHER"

definition grandfather_act_revert_catalog :: "role_catalog \<Rightarrow> bool \<times> role_catalog" where
  "grandfather_act_revert_catalog = apply_grandfather_table_catalog T30_ACT_REVERT_GRANDFATHER"

definition grandfather_signing_configure :: "role \<Rightarrow> bool \<times> role" where
  "grandfather_signing_configure = apply_grandfather_table T50_SIGNING_CONFIGURE_GRANDFATHER"

definition grandfather_signing_configure_catalog :: "role_catalog \<Rightarrow> bool \<times> role_catalog" where
  "grandfather_signing_configure_catalog = apply_grandfather_table_catalog T50_SIGNING_CONFIGURE_GRANDFATHER"

definition grandfather_seeded_search_read :: "role \<Rightarrow> bool \<times> role" where
  "grandfather_seeded_search_read r =
     (if rl_protected r \<or> \<not> is_seeded_role (rl_id r) \<or> SearchRead \<in> rl_permission_set r
         \<or> SEARCH_READ_GRANDFATHER_PARENT \<notin> rl_permission_set r
      then (False, r)
      else (SearchRead \<notin> rl_permission_set r, r\<lparr>rl_permission_set := insert SearchRead (rl_permission_set r)\<rparr>))"

definition grandfather_seeded_search_read_catalog :: "role_catalog \<Rightarrow> bool \<times> role_catalog" where
  "grandfather_seeded_search_read_catalog = migrate_catalog grandfather_seeded_search_read"

subsection \<open>What a migration computes\<close>

text \<open>
  The reading of a table: every child one of whose parents is held is granted. It agrees with
  the loop when no child is also a parent, so that the order of the entries does not matter.
\<close>

definition flat_table :: "grandfather_table \<Rightarrow> bool" where
  "flat_table table \<longleftrightarrow> (\<forall>child \<in> fst ` set table. \<forall>parents \<in> snd ` set table. child \<notin> set parents)"

definition granted_children :: "grandfather_table \<Rightarrow> permission set \<Rightarrow> permission set" where
  "granted_children table S = {child. \<exists>parents. (child, parents) \<in> set table \<and> set parents \<inter> S \<noteq> {}}"

definition grandfathered :: "grandfather_table \<Rightarrow> role \<Rightarrow> role" where
  "grandfathered table r =
     (if rl_protected r then r
      else r\<lparr>rl_permission_set := rl_permission_set r \<union> granted_children table (rl_permission_set r)\<rparr>)"

lemma tables_flat:
  "flat_table T27_VERB_SPLIT_GRANDFATHER" "flat_table T30_ACT_REVERT_GRANDFATHER"
  "flat_table T50_SIGNING_CONFIGURE_GRANDFATHER"
  by (simp_all add: flat_table_def T27_VERB_SPLIT_GRANDFATHER_def T30_ACT_REVERT_GRANDFATHER_def
      T50_SIGNING_CONFIGURE_GRANDFATHER_def)

lemma fold_grandfather_entry:
  assumes "\<forall>child \<in> fst ` (set seen \<union> set table). \<forall>parents \<in> snd ` set table. child \<notin> set parents"
    and "s = r\<lparr>rl_permission_set := rl_permission_set r \<union> added\<rparr>"
    and "added \<subseteq> fst ` set seen"
  shows "snd (fold grandfather_entry table (ch, s)) = r\<lparr>rl_permission_set := rl_permission_set r \<union> added
      \<union> granted_children table (rl_permission_set r)\<rparr>"
  using assms
proof (induction table arbitrary: seen s added ch)
  case Nil
  then show ?case by (simp add: granted_children_def)
next
  case (Cons e table)
  obtain child parents where e: "e = (child, parents)" by fastforce
  have s: "rl_permission_set s = rl_permission_set r \<union> added" "s\<lparr>rl_permission_set := X\<rparr> = r\<lparr>rl_permission_set := X\<rparr>" for X
    using Cons.prems(2) by simp_all
  have "set parents \<inter> added = {}" using Cons.prems(1, 3) e by fastforce
  then have held: "list_ex (\<lambda>p. p \<in> rl_permission_set r \<or> p \<in> added) parents \<longleftrightarrow> set parents \<inter> rl_permission_set r \<noteq> {}"
    by (auto simp: list_ex_iff)
  define added' where "added' = (if set parents \<inter> rl_permission_set r \<noteq> {} then insert child added else added)"
  have "snd (grandfather_entry e (ch, s)) = s\<lparr>rl_permission_set := rl_permission_set r \<union> added'\<rparr>"
    using held Cons.prems(2) by (auto simp: grandfather_entry_def e s(1) added'_def insert_absorb)
  then obtain ch' where step: "grandfather_entry e (ch, s) = (ch', r\<lparr>rl_permission_set := rl_permission_set r \<union> added'\<rparr>)"
    by (metis prod.collapse s(2))
  have "snd (fold grandfather_entry table (ch', r\<lparr>rl_permission_set := rl_permission_set r \<union> added'\<rparr>))
      = r\<lparr>rl_permission_set := rl_permission_set r \<union> added'
          \<union> granted_children table (rl_permission_set r)\<rparr>"
    by (rule Cons.IH [where seen = "e # seen"]) (use Cons.prems e in \<open>auto simp: added'_def\<close>)
  then show ?case
    using e step by (auto simp: granted_children_def added'_def intro!: arg_cong [where f = "\<lambda>S. r\<lparr>rl_permission_set := S\<rparr>"])
qed

lemma apply_grandfather_table_snd:
  assumes "flat_table table"
  shows "snd (apply_grandfather_table table r) = grandfathered table r"
  using fold_grandfather_entry [of "[]" table r r "{}" False] assms
  by (simp add: apply_grandfather_table_def grandfathered_def flat_table_def)

lemma grandfather_entry_cases:
  obtains "grandfather_entry e (ch, s) = (ch, s)"
  | S where "grandfather_entry e (ch, s) = (True, s\<lparr>rl_permission_set := S\<rparr>)" "rl_permission_set s \<subset> S"
proof (cases "grandfather_entry e (ch, s) = (ch, s)")
  case False
  then show ?thesis
    by (intro that(2) [of "insert (fst e) (rl_permission_set s)"])
      (auto simp: grandfather_entry_def split: prod.splits if_splits)
qed (rule that(1))

lemma fold_grandfather_entry_mono:
  "rl_permission_set s \<subseteq> rl_permission_set (snd (fold grandfather_entry table (ch, s)))"
proof (induction table arbitrary: ch s)
  case (Cons e table)
  show ?case
  proof (cases e ch s rule: grandfather_entry_cases)
    case (2 S)
    then show ?thesis using Cons.IH [where ch = True and s = "s\<lparr>rl_permission_set := S\<rparr>"] by auto
  qed (simp add: Cons.IH)
qed simp

lemma fold_grandfather_entry_changed:
  "fst (fold grandfather_entry table (ch, s)) \<longleftrightarrow> ch \<or> snd (fold grandfather_entry table (ch, s)) \<noteq> s"
proof (induction table arbitrary: ch s)
  case (Cons e table)
  show ?case
  proof (cases e ch s rule: grandfather_entry_cases)
    case (2 S)
    then have "snd (fold grandfather_entry (e # table) (ch, s)) \<noteq> s"
      using fold_grandfather_entry_mono [of "s\<lparr>rl_permission_set := S\<rparr>" table True] by auto
    with 2 show ?thesis by (simp add: Cons.IH)
  qed (simp add: Cons.IH)
qed simp

lemma apply_grandfather_table_eq:
  assumes "flat_table table"
  shows "apply_grandfather_table table r = (grandfathered table r \<noteq> r, grandfathered table r)"
proof (rule prod_eqI)
  show "fst (apply_grandfather_table table r) = fst (grandfathered table r \<noteq> r, grandfathered table r)"
    using apply_grandfather_table_snd [OF assms, of r] fold_grandfather_entry_changed [of table False r]
    by (auto simp: apply_grandfather_table_def split: if_splits)
qed (simp add: apply_grandfather_table_snd [OF assms])

lemma grandfathered_id [simp]: "rl_id (grandfathered table r) = rl_id r"
  by (simp add: grandfathered_def)

lemma granted_children_idem:
  assumes "flat_table table"
  shows "granted_children table (S \<union> granted_children table S) = granted_children table S"
proof -
  have "set parents \<inter> granted_children table S = {}" if "(child, parents) \<in> set table" for child parents
    using assms that by (force simp: flat_table_def granted_children_def)
  then show ?thesis unfolding granted_children_def by (blast dest: equalityD1)
qed

lemma grandfathered_idem:
  "flat_table table \<Longrightarrow> grandfathered table (grandfathered table r) = grandfathered table r"
  by (simp add: grandfathered_def granted_children_idem)

text \<open>A migration that reports exactly its changes and keeps ids, lifted to a catalogue.\<close>

lemma fold_migrate_id:
  assumes "\<And>r. fst (migrate r) \<longleftrightarrow> snd (migrate r) \<noteq> r" and "\<And>r. rl_id (snd (migrate r)) = rl_id r"
    and "\<And>i r. catalog_get c i = Some r \<Longrightarrow> rl_id r = i" and "distinct ids"
  shows "catalog_get (snd (fold (migrate_id migrate) ids (ch, c))) j =
      (if j \<in> set ids then map_option (\<lambda>r. snd (migrate r)) (catalog_get c j) else catalog_get c j)
    \<and> (fst (fold (migrate_id migrate) ids (ch, c)) \<longleftrightarrow>
         ch \<or> (\<exists>i \<in> set ids. \<exists>r. catalog_get c i = Some r \<and> snd (migrate r) \<noteq> r))"
  using assms(3, 4)
proof (induction ids arbitrary: ch c)
  case (Cons i ids)
  obtain ch' c' where step: "migrate_id migrate i (ch, c) = (ch', c')" by fastforce
  have step_get: "catalog_get c' k = (if k = i then map_option (\<lambda>r. snd (migrate r)) (catalog_get c i) else catalog_get c k)"
    and step_ch: "ch' \<longleftrightarrow> ch \<or> (\<exists>r. catalog_get c i = Some r \<and> snd (migrate r) \<noteq> r)" for k
  proof -
    show "catalog_get c' k = (if k = i then map_option (\<lambda>r. snd (migrate r)) (catalog_get c i) else catalog_get c k)"
      "ch' \<longleftrightarrow> ch \<or> (\<exists>r. catalog_get c i = Some r \<and> snd (migrate r) \<noteq> r)"
    proof (atomize (full), cases "catalog_get c i")
      case None
      with step show "(catalog_get c' k = (if k = i then map_option (\<lambda>r. snd (migrate r)) (catalog_get c i) else catalog_get c k))
        \<and> (ch' \<longleftrightarrow> ch \<or> (\<exists>r. catalog_get c i = Some r \<and> snd (migrate r) \<noteq> r))"
        by (auto simp: migrate_id_def)
    next
      case (Some r)
      obtain f r' where m: "migrate r = (f, r')" by fastforce
      then have "f \<longleftrightarrow> r' \<noteq> r" "rl_id r' = i" using assms(1, 2) [of r] Cons.prems(1) [OF Some] by simp_all
      with step Some m show "(catalog_get c' k = (if k = i then map_option (\<lambda>r. snd (migrate r)) (catalog_get c i) else catalog_get c k))
        \<and> (ch' \<longleftrightarrow> ch \<or> (\<exists>r. catalog_get c i = Some r \<and> snd (migrate r) \<noteq> r))"
        by (cases f) (auto simp: migrate_id_def)
    qed
  qed
  have "rl_id r = k" if "catalog_get c' k = Some r" for k r
    using that Cons.prems(1) assms(2) by (auto simp: step_get split: if_splits)
  note IH = Cons.IH [where c = c' and ch = ch', OF this]
  have i: "i \<notin> set ids" and ids: "distinct ids" using Cons.prems(2) by simp_all
  have same: "catalog_get c' k = catalog_get c k" if "k \<in> set ids" for k
    using that i step_get by auto
  have "(\<exists>k \<in> set ids. \<exists>r. catalog_get c' k = Some r \<and> snd (migrate r) \<noteq> r)
      \<longleftrightarrow> (\<exists>k \<in> set ids. \<exists>r. catalog_get c k = Some r \<and> snd (migrate r) \<noteq> r)"
    by (intro bex_cong refl) (simp add: same)
  then have "fst (fold (migrate_id migrate) (i # ids) (ch, c)) \<longleftrightarrow>
      ch \<or> (\<exists>k \<in> set (i # ids). \<exists>r. catalog_get c k = Some r \<and> snd (migrate r) \<noteq> r)"
    using IH ids by (simp add: step step_ch)
  moreover have "catalog_get (snd (fold (migrate_id migrate) (i # ids) (ch, c))) j =
      (if j \<in> set (i # ids) then map_option (\<lambda>r. snd (migrate r)) (catalog_get c j) else catalog_get c j)"
    using IH ids i by (simp add: step step_get)
  ultimately show ?case by blast
qed simp

lemma migrate_catalog_eq:
  assumes "\<And>r. fst (migrate r) \<longleftrightarrow> snd (migrate r) \<noteq> r" and "\<And>r. rl_id (snd (migrate r)) = rl_id r"
    and "catalog_ok c"
  shows "catalog_get (snd (migrate_catalog migrate c)) j = map_option (\<lambda>r. snd (migrate r)) (catalog_get c j)
    \<and> (fst (migrate_catalog migrate c) \<longleftrightarrow> (\<exists>i r. catalog_get c i = Some r \<and> snd (migrate r) \<noteq> r))"
proof -
  have keys: "map (\<lambda>(_, r). rl_id r) c = map fst c" and "distinct (map fst c)"
    and key: "\<And>i r. catalog_get c i = Some r \<Longrightarrow> rl_id r = i"
    using assms(3) by (auto simp: catalog_ok_def catalog_get_def dest!: map_of_SomeD)
  moreover have "i \<in> set (map fst c)" if "catalog_get c i = Some r" for i r
    using that by (force simp: catalog_get_def dest: map_of_SomeD)
  moreover have "catalog_get c j = None" if "j \<notin> set (map fst c)"
    using that by (simp add: catalog_get_def map_of_eq_None_iff)
  ultimately have "(\<exists>i \<in> set (map fst c). \<exists>r. catalog_get c i = Some r \<and> snd (migrate r) \<noteq> r)
      \<longleftrightarrow> (\<exists>i r. catalog_get c i = Some r \<and> snd (migrate r) \<noteq> r)"
    and "(if j \<in> set (map fst c) then map_option (\<lambda>r. snd (migrate r)) (catalog_get c j) else catalog_get c j)
      = map_option (\<lambda>r. snd (migrate r)) (catalog_get c j)"
    by (blast, simp)
  then show ?thesis
    using fold_migrate_id [where c = c and ch = False and migrate = migrate and j = j and ids = "map fst c", OF assms(1, 2) key]
      \<open>distinct (map fst c)\<close>
    unfolding migrate_catalog_def keys by simp
qed

lemma catalog_ok_migrate: "catalog_ok c \<Longrightarrow> catalog_ok (snd (migrate_catalog migrate c))"
proof -
  have "catalog_ok (snd (fold (migrate_id migrate) ids (ch, c)))" if "catalog_ok c" for ids ch c
    using that
  proof (induction ids arbitrary: ch c)
    case (Cons i ids)
    then have "catalog_ok (snd (migrate_id migrate i (ch, c)))"
      by (auto simp: migrate_id_def catalog_ok_insert split: option.split prod.split bool.split)
    then show ?case using Cons.IH by (metis fold_simps(2) prod.collapse)
  qed simp
  then show "catalog_ok c \<Longrightarrow> catalog_ok (snd (migrate_catalog migrate c))" by (simp add: migrate_catalog_def)
qed

text \<open>
  a verb-split migration does what its table says and nothing else. For each of the three
  tables the migrated catalogue has the same roles with, for the unprotected ones, exactly the
  children added of which a parent was held; the reported flag says whether any role changed;
  protected roles are untouched; and a second pass reports no change.
\<close>

theorem grandfather_exact:
  assumes "catalog_ok c"
    and "table \<in> {T27_VERB_SPLIT_GRANDFATHER, T30_ACT_REVERT_GRANDFATHER, T50_SIGNING_CONFIGURE_GRANDFATHER}"
    and "apply_grandfather_table_catalog table c = (changed, c')"
  shows "(\<forall>i. catalog_get c' i = map_option (grandfathered table) (catalog_get c i))
    \<and> (changed \<longleftrightarrow> (\<exists>i. catalog_get c' i \<noteq> catalog_get c i))
    \<and> (\<forall>i r. catalog_get c i = Some r \<longrightarrow> rl_protected r \<longrightarrow> catalog_get c' i = Some r)
    \<and> catalog_ok c' \<and> \<not> fst (apply_grandfather_table_catalog table c')"
proof -
  have flat: "flat_table table" using assms(2) tables_flat by auto
  have table: "apply_grandfather_table table = (\<lambda>r. (grandfathered table r \<noteq> r, grandfathered table r))"
    using apply_grandfather_table_eq [OF flat] by blast
  note eq = migrate_catalog_eq [of "apply_grandfather_table table", unfolded table, simplified]
  have get: "catalog_get c' i = map_option (grandfathered table) (catalog_get c i)" for i
    using eq [OF assms(1)] assms(3) by (auto simp: apply_grandfather_table_catalog_def table)
  have ch: "changed \<longleftrightarrow> (\<exists>i r. catalog_get c i = Some r \<and> grandfathered table r \<noteq> r)"
    using eq [OF assms(1)] assms(3) by (auto simp: apply_grandfather_table_catalog_def table)
  have "catalog_ok c'"
    using catalog_ok_migrate [OF assms(1), of "apply_grandfather_table table"] assms(3)
    by (simp add: apply_grandfather_table_catalog_def)
  then have second: "catalog_ok c' \<and> \<not> fst (apply_grandfather_table_catalog table c')"
    using eq [of c'] grandfathered_idem [OF flat] by (auto simp: apply_grandfather_table_catalog_def table get)
  have flag: "changed \<longleftrightarrow> (\<exists>i. catalog_get c' i \<noteq> catalog_get c i)"
  proof -
    have "catalog_get c' i \<noteq> catalog_get c i \<longleftrightarrow> (\<exists>r. catalog_get c i = Some r \<and> grandfathered table r \<noteq> r)" for i
      by (cases "catalog_get c i") (simp_all add: get)
    then show ?thesis unfolding ch by simp
  qed
  have "\<forall>i r. catalog_get c i = Some r \<longrightarrow> rl_protected r \<longrightarrow> catalog_get c' i = Some r"
    by (simp add: get grandfathered_def)
  with get flag second show ?thesis by blast
qed

subsection \<open>The seeded catalogue\<close>

text \<open>
  A fresh installation needs no migration, only the owner is protected and it holds every verb,
  and the retired ids are not seeded while their successors are.
\<close>

lemma seeded_defaults_ok: "catalog_ok seeded_defaults"
  by (simp add: seeded_defaults_def catalog_ok_from)

lemma seeded_roles_migrated:
  "list_all (\<lambda>r. \<not> fst (grandfather_split_verbs r)) default_roles"
  "list_all (\<lambda>r. \<not> fst (grandfather_act_revert r)) default_roles"
  "list_all (\<lambda>r. \<not> fst (grandfather_signing_configure r)) default_roles"
  "list_all (\<lambda>r. \<not> fst (grandfather_seeded_search_read r)) default_roles"
  by code_simp+

lemma seeded_protected: "list_all (\<lambda>r. rl_protected r \<longleftrightarrow> r = owner_role) default_roles"
  by code_simp

lemma seeded_self_signup: "map rl_name (filter (\<lambda>r. signup_default_refusal_of r = None) default_roles)
  = [''Reader'', ''Corporate Secretary'', ''Records Manager'', ''Signatory'', ''Reviewer'', ''Auditor'', ''Guest'', ''API Client'']"
  by code_simp

lemma retired_not_seeded:
  "retired_role_successor i = Some j \<Longrightarrow> \<not> is_seeded_role i \<and> is_seeded_role j"
proof -
  have "list_all (\<lambda>(i, j). \<not> is_seeded_role i \<and> is_seeded_role j) RETIRED_SEEDED_ROLES" by code_simp
  then show "retired_role_successor i = Some j \<Longrightarrow> \<not> is_seeded_role i \<and> is_seeded_role j"
    by (auto simp: retired_role_successor_def list_all_iff find_Some_iff) (metis nth_mem case_prodD)+
qed

text \<open>A role an operator authored before the split.\<close>

definition old_admin :: role where
  "old_admin = \<lparr>rl_id = 20, rl_name = ''Admin'', rl_permission_set = {SettingsManage, LedgerRecover}, rl_protected = False\<rparr>"

theorem grandfather_exact_witness:
  "map_option rl_permission_set (catalog_get (snd (apply_grandfather_table_catalog T27_VERB_SPLIT_GRANDFATHER (catalog_from [old_admin]))) 20)
     = Some {SettingsManage, LedgerRecover, PrivacyManage, RetentionManage, LedgerReanchor, LedgerRestore}"
proof -
  let ?c = "catalog_from [old_admin]"
  have "catalog_get ?c 20 = Some old_admin" by code_simp
  then have "catalog_get (snd (apply_grandfather_table_catalog T27_VERB_SPLIT_GRANDFATHER ?c)) 20
      = Some (grandfathered T27_VERB_SPLIT_GRANDFATHER old_admin)"
    using grandfather_exact [OF catalog_ok_from [of "[old_admin]"], of T27_VERB_SPLIT_GRANDFATHER]
    by (metis insertI1 option.simps(9) prod.collapse)
  moreover have "rl_permission_set (grandfathered T27_VERB_SPLIT_GRANDFATHER old_admin)
      = {SettingsManage, LedgerRecover, PrivacyManage, RetentionManage, LedgerReanchor, LedgerRestore}"
    by (auto simp: grandfathered_def granted_children_def old_admin_def T27_VERB_SPLIT_GRANDFATHER_def)
  ultimately show ?thesis by simp
qed

end
