(* ===== verification/Api_Key.thy ===== *)
theory Api_Key
  imports Authz "HOL-Library.Product_Lexorder"
begin

unbundle bit_operations_syntax

section \<open>API keys as attenuated principals\<close>

text \<open>
  \<open>src/crates/chancela-apikey/src\<close>: the key record that stores a hash and never the secret
  (\<open>key.rs\<close>), its hexadecimal codec (\<open>hex.rs\<close>), the grant (\<open>grant.rs\<close>) and the resolution of a
  key into a principal that can do no more than its creator (\<open>lib.rs\<close>). SHA-256 is a parameter,
  and so are the random bytes. The token bucket of \<open>ratelimit.rs\<close> computes in floating point
  and is not modelled; a key carries its policy as data.
\<close>

subsection \<open>Hexadecimal\<close>

definition HEX :: "string" where
  "HEX = ''0123456789abcdef''"

definition hex_encode :: "byte list \<Rightarrow> string" where
  "hex_encode bs = concat (map (\<lambda>b. [HEX ! unat (drop_bit 4 b), HEX ! unat (b AND 0x0f)]) bs)"

definition nibble :: "byte \<Rightarrow> byte option" where
  "nibble c =
     (if 48 \<le> c \<and> c \<le> 57 then Some (c - 48)
      else if 97 \<le> c \<and> c \<le> 102 then Some (c - 97 + 10)
      else if 65 \<le> c \<and> c \<le> 70 then Some (c - 65 + 10)
      else None)"

text \<open>The loop over \<open>chunks_exact(2)\<close>; the \<open>?\<close> leaves at the first bad digit.\<close>

fun decode_chunks :: "byte list \<Rightarrow> byte list option" where
  "decode_chunks (a # b # rest) =
     (case nibble a of
        None \<Rightarrow> None
      | Some hi \<Rightarrow> (case nibble b of
          None \<Rightarrow> None
        | Some lo \<Rightarrow> map_option ((#) (push_bit 4 hi OR lo)) (decode_chunks rest)))"
| "decode_chunks _ = Some []"

definition decode_32 :: "string \<Rightarrow> digest option" where
  "decode_32 s = (if length s \<noteq> 64 then None else decode_chunks (as_bytes s))"

lemma low_nibble: "b AND 0x0f = take_bit 4 (b :: byte)"
  by (simp add: take_bit_eq_mask mask_numeral)

lemma nibble_less:
  fixes b :: byte
  shows "unat (drop_bit 4 b) < 16" "unat (b AND 0x0f) < 16"
proof -
  have "unat (drop_bit 4 b) = unat b div 2 ^ 4" by (subst unat_drop_bit_eq) (simp add: drop_bit_eq_div)
  moreover have "unat b < 256" using unsigned_less [where 'a = nat, of b] by simp
  ultimately show "unat (drop_bit 4 b) < 16" by simp
  have "unat (b AND 0x0f) = unat b mod 2 ^ 4" unfolding low_nibble by (subst unsigned_take_bit_eq) (simp add: take_bit_eq_mod)
  then show "unat (b AND 0x0f) < 16" by simp
qed

lemma nibble_parts:
  fixes b :: byte
  shows "nibble (byte_of_char (HEX ! unat (drop_bit 4 b))) = Some (drop_bit 4 b)"
    and "nibble (byte_of_char (HEX ! unat (b AND 0x0f))) = Some (b AND 0x0f)"
proof -
  have digit: "nibble (byte_of_char (HEX ! n)) = Some (of_nat n)" if "n < 16" for n
  proof -
    have "list_all (\<lambda>n. nibble (byte_of_char (HEX ! n)) = Some (of_nat n)) [0..<16]" by code_simp
    then show ?thesis using that by (simp add: list_all_iff)
  qed
  then show "nibble (byte_of_char (HEX ! unat (drop_bit 4 b))) = Some (drop_bit 4 b)"
    "nibble (byte_of_char (HEX ! unat (b AND 0x0f))) = Some (b AND 0x0f)"
    using nibble_less by simp_all
qed

lemma join_nibbles: "push_bit 4 (drop_bit 4 b) OR (b AND 0x0f) = (b :: byte)"
  unfolding low_nibble by (rule bit_word_eqI) (auto simp: bit_simps)

lemma decode_chunks_encode: "decode_chunks (as_bytes (hex_encode bs)) = Some bs"
  by (induction bs) (simp_all add: hex_encode_def as_bytes_def nibble_parts join_nibbles)

lemma length_hex_encode [simp]: "length (hex_encode bs) = 2 * length bs"
  by (induction bs) (simp_all add: hex_encode_def)

lemma hex_encode_no_underscore: "CHR ''_'' \<notin> set (hex_encode bs)"
proof -
  have "HEX ! n \<noteq> CHR ''_''" if "n < 16" for n
  proof -
    have "list_all (\<lambda>n. HEX ! n \<noteq> CHR ''_'') [0..<16]" by code_simp
    then show ?thesis using that by (simp add: list_all_iff)
  qed
  then have "CHR ''_'' \<notin> {HEX ! unat (drop_bit 4 b), HEX ! unat (b AND 0x0f)}" for b :: byte
    using nibble_less [of b] by (metis insertE singletonD)
  then show ?thesis by (simp add: hex_encode_def)
qed

lemma decode_32_encode: "is_digest d \<Longrightarrow> decode_32 (hex_encode d) = Some d"
  by (simp add: decode_32_def is_digest_def decode_chunks_encode)

text \<open>\<open>ct_eq\<close> looks at every byte, and decides equality.\<close>

definition ct_eq :: "digest \<Rightarrow> digest \<Rightarrow> bool" where
  "ct_eq a b \<longleftrightarrow> fold (\<lambda>(x, y) diff. diff OR (x XOR y)) (zip a b) 0 = 0"

lemma ct_eq_iff: "length a = length b \<Longrightarrow> ct_eq a b \<longleftrightarrow> a = b"
proof -
  have "fold (\<lambda>(x, y) diff. diff OR (x XOR y)) (zip a b) d = 0 \<longleftrightarrow> d = 0 \<and> a = b"
    if "length a = length b" for d
    using that
  proof (induction a b arbitrary: d rule: list_induct2)
    case (Cons x xs y ys)
    have "d OR (x XOR y) = 0 \<longleftrightarrow> d = 0 \<and> x = y"
      by (metis or.right_neutral or_eq_0_iff xor_self_eq xor.assoc xor.left_neutral)
    with Cons.IH show ?case by auto
  qed simp
  then show "length a = length b \<Longrightarrow> ct_eq a b \<longleftrightarrow> a = b" by (simp add: ct_eq_def)
qed

subsection \<open>Grants and keys\<close>

datatype api_key_grant =
    RoleGrant u128 scope
  | PermsGrant "permission set" scope

fun grant_scope :: "api_key_grant \<Rightarrow> scope" where
  "grant_scope (RoleGrant _ s) = s"
| "grant_scope (PermsGrant _ s) = s"

fun grant_pairs :: "api_key_grant \<Rightarrow> role_catalog \<Rightarrow> (permission \<times> scope) list" where
  "grant_pairs (RoleGrant role_id s) roles =
     (case catalog_get roles role_id of
        None \<Rightarrow> []
      | Some r \<Rightarrow> map (\<lambda>p. (p, s)) (sorted_list_of_set (rl_permission_set r)))"
| "grant_pairs (PermsGrant ps s) roles = map (\<lambda>p. (p, s)) (sorted_list_of_set ps)"

record rate_limit =
  rl_rpm :: u32
  rl_burst :: u32

record api_key =
  ak_id :: u128
  ak_name :: string
  ak_prefix :: string
  ak_key_hash :: string
  ak_principal_grant :: api_key_grant
  ak_created_by :: u128
  ak_created_at :: offset_date_time
  ak_expires_at :: "offset_date_time option"
  ak_revoked :: bool
  ak_rate_limit :: "rate_limit option"

record new_api_key =
  nk_plaintext :: string
  nk_api_key :: api_key

record key_spec =
  ks_name :: string
  ks_principal_grant :: api_key_grant
  ks_created_by :: u128
  ks_created_at :: offset_date_time
  ks_expires_at :: "offset_date_time option"
  ks_rate_limit :: "rate_limit option"

definition KEY_TAG :: string where "KEY_TAG = ''chk''"

definition PREFIX_BYTES :: nat where "PREFIX_BYTES = 6"

definition SECRET_BYTES :: nat where "SECRET_BYTES = 32"

text \<open>The random draws of \<open>generate\<close>: the prefix, the secret and the id.\<close>

record key_randomness =
  kr_prefix :: "byte list"
  kr_secret :: "byte list"
  kr_id :: u128

definition draw_ok :: "key_randomness \<Rightarrow> bool" where
  "draw_ok rnd \<longleftrightarrow> length (kr_prefix rnd) = PREFIX_BYTES \<and> length (kr_secret rnd) = SECRET_BYTES"

definition generate :: "(byte list \<Rightarrow> digest) \<Rightarrow> key_randomness \<Rightarrow> key_spec \<Rightarrow> new_api_key" where
  "generate sha256 rnd spec =
     (let prefix = KEY_TAG @ ''_'' @ hex_encode (kr_prefix rnd);
          plaintext = prefix @ ''_'' @ hex_encode (kr_secret rnd);
          key_hash = hex_encode (sha256 (as_bytes plaintext))
      in \<lparr>nk_plaintext = plaintext,
          nk_api_key = \<lparr>ak_id = kr_id rnd, ak_name = ks_name spec, ak_prefix = prefix, ak_key_hash = key_hash,
            ak_principal_grant = ks_principal_grant spec, ak_created_by = ks_created_by spec,
            ak_created_at = ks_created_at spec, ak_expires_at = ks_expires_at spec, ak_revoked = False,
            ak_rate_limit = ks_rate_limit spec\<rparr>\<rparr>)"

datatype issue_error = EmptyGrant | GrantContainsMeta | GrantExceedsCreator

definition can_create_key ::
  "scoped_permission_set \<Rightarrow> api_key_grant \<Rightarrow> role_catalog \<Rightarrow> scope_relation \<Rightarrow> bool" where
  "can_create_key creator grant roles books \<longleftrightarrow>
     (let pairs = grant_pairs grant roles in
      pairs \<noteq> [] \<and> list_all (\<lambda>(p, _). \<not> is_meta p) pairs
      \<and> list_all (\<lambda>(p, s). has_permission creator p s books) pairs)"

definition issue ::
  "(byte list \<Rightarrow> digest) \<Rightarrow> key_randomness \<Rightarrow> scoped_permission_set \<Rightarrow> role_catalog \<Rightarrow> scope_relation \<Rightarrow> key_spec
     \<Rightarrow> issue_error + new_api_key" where
  "issue sha256 rnd creator roles books spec =
     (let pairs = grant_pairs (ks_principal_grant spec) roles in
      if pairs = [] then Err EmptyGrant
      else if list_ex (\<lambda>(p, _). is_meta p) pairs then Err GrantContainsMeta
      else if \<not> list_all (\<lambda>(p, s). has_permission creator p s books) pairs then Err GrantExceedsCreator
      else Ok (generate sha256 rnd spec))"

definition key_is_expired :: "api_key \<Rightarrow> offset_date_time \<Rightarrow> bool" where
  "key_is_expired k now \<longleftrightarrow> (case ak_expires_at k of None \<Rightarrow> False | Some e \<Rightarrow> unix_nanos e \<le> unix_nanos now)"

definition key_is_active :: "api_key \<Rightarrow> offset_date_time \<Rightarrow> bool" where
  "key_is_active k now \<longleftrightarrow> \<not> ak_revoked k \<and> \<not> key_is_expired k now"

definition actor_label :: "api_key \<Rightarrow> string" where
  "actor_label k = ''apikey:'' @ ak_name k @ ''#'' @ ak_prefix k"

definition verify_key :: "(byte list \<Rightarrow> digest) \<Rightarrow> api_key \<Rightarrow> string \<Rightarrow> bool" where
  "verify_key sha256 k presented =
     (case decode_32 (ak_key_hash k) of
        None \<Rightarrow> False
      | Some stored \<Rightarrow> ct_eq (sha256 (as_bytes presented)) stored)"

definition extract_prefix :: "string \<Rightarrow> string option" where
  "extract_prefix presented =
     (case rsplit_once (CHR ''_'') presented of
        None \<Rightarrow> None
      | Some (prefix, secret) \<Rightarrow>
          if strip_prefix (KEY_TAG @ ''_'') prefix \<noteq> None \<and> length secret = SECRET_BYTES * 2
          then Some prefix else None)"

subsection \<open>The order of scopes\<close>

text \<open>The derived order: the variant first, then the identifier.\<close>

fun scope_key :: "scope \<Rightarrow> nat \<times> u128" where
  "scope_key Global = (0, 0)"
| "scope_key (Tenant i) = (1, i)"
| "scope_key (Entity i) = (2, i)"
| "scope_key (Book i) = (3, i)"
| "scope_key (Act i) = (4, i)"
| "scope_key (Folder i) = (5, i)"
| "scope_key (TemplateLibrary i) = (6, i)"
| "scope_key (Archive i) = (7, i)"
| "scope_key (Integration i) = (8, i)"
| "scope_key (Repository i) = (9, i)"

lemma scope_key_inject: "scope_key s = scope_key t \<longleftrightarrow> s = t"
  by (cases s; cases t) auto

instantiation scope :: linorder
begin

definition less_eq_scope :: "scope \<Rightarrow> scope \<Rightarrow> bool" where
  "less_eq_scope s t \<longleftrightarrow> scope_key s \<le> scope_key t"

definition less_scope :: "scope \<Rightarrow> scope \<Rightarrow> bool" where
  "less_scope s t \<longleftrightarrow> scope_key s < scope_key t"

instance
  by standard (auto simp: less_eq_scope_def less_scope_def scope_key_inject dest: antisym)

end

subsection \<open>Resolution\<close>

datatype principal_kind = Session u128 | ApiKeyPrincipal u128 u128

record request_principal =
  rp_actor_label :: string
  rp_effective_permissions :: scoped_permission_set
  rp_kind :: principal_kind

definition for_session :: "u128 \<Rightarrow> string \<Rightarrow> scoped_permission_set \<Rightarrow> request_principal" where
  "for_session user label eff = \<lparr>rp_actor_label = label, rp_effective_permissions = eff, rp_kind = Session user\<rparr>"

text \<open>\<open>by_scope\<close>: the \<open>BTreeMap\<close> from scopes to their permissions, in order.\<close>

definition by_scope :: "(permission \<times> scope) set \<Rightarrow> (scope \<times> permission set) list" where
  "by_scope pairs = map (\<lambda>s. (s, fst ` {x \<in> pairs. snd x = s})) (sorted_list_of_set (snd ` pairs))"

definition synthetic_role :: "nat \<times> scope \<times> permission set \<Rightarrow> role" where
  "synthetic_role = (\<lambda>(i, _, ps). \<lparr>rl_id = of_nat i, rl_name = [], rl_permission_set = ps, rl_protected = False\<rparr>)"

definition scoped_set_from_pairs :: "(permission \<times> scope) set \<Rightarrow> scoped_permission_set" where
  "scoped_set_from_pairs pairs =
     (let entries = List.enumerate 0 (by_scope pairs);
          catalog = fold (\<lambda>e c. catalog_insert (synthetic_role e) c) entries [];
          assignments = map (\<lambda>(i, s, _). \<lparr>ra_role_id = of_nat i, ra_scope = s\<rparr>) entries
      in effective_permissions 0 assignments catalog [] default_starts_at)"

definition resolve ::
  "api_key \<Rightarrow> scoped_permission_set \<Rightarrow> role_catalog \<Rightarrow> offset_date_time \<Rightarrow> scope_relation \<Rightarrow> request_principal" where
  "resolve k creator roles now books =
     (let kind = ApiKeyPrincipal (ak_id k) (ak_created_by k) in
      if \<not> key_is_active k now
      then \<lparr>rp_actor_label = actor_label k, rp_effective_permissions = scoped_permission_set_new, rp_kind = kind\<rparr>
      else
        (let allowed = set (filter (\<lambda>(p, s). has_permission creator p s books)
               (filter (\<lambda>(p, _). \<not> is_meta p) (grant_pairs (ak_principal_grant k) roles)))
         in \<lparr>rp_actor_label = actor_label k, rp_effective_permissions = scoped_set_from_pairs allowed, rp_kind = kind\<rparr>))"

subsection \<open>What a resolved key can do\<close>

lemma catalog_get_fold_insert:
  assumes "distinct (map (\<lambda>e. rl_id (f e)) es)" and "e \<in> set es"
  shows "catalog_get (fold (\<lambda>e. catalog_insert (f e)) es c) (rl_id (f e)) = Some (f e)"
  using assms
proof (induction es rule: rev_induct)
  case (snoc x es)
  then show ?case by (cases "e = x") (auto simp: image_iff)
qed simp

lemma distinct_synthetic_ids:
  assumes "length xs \<le> 2 ^ 128"
  shows "distinct (map (\<lambda>e. rl_id (synthetic_role e)) (List.enumerate 0 xs))"
proof -
  have "map (\<lambda>e. rl_id (synthetic_role e)) (List.enumerate 0 xs) = map (of_nat :: nat \<Rightarrow> u128) [0..<length xs]"
    by (rule nth_equalityI) (auto simp: synthetic_role_def nth_enumerate_eq split: prod.split)
  moreover have "inj_on (of_nat :: nat \<Rightarrow> u128) {0..<length xs}"
  proof (rule inj_onI)
    fix i j assume ij: "i \<in> {0..<length xs}" "j \<in> {0..<length xs}" and "(of_nat i :: u128) = of_nat j"
    then have "unat (of_nat i :: u128) = unat (of_nat j :: u128)" by simp
    moreover have "i < 2 ^ LENGTH(128)" "j < 2 ^ LENGTH(128)" using ij assms by auto
    ultimately show "i = j" by (simp only: unat_of_nat mod_less)
  qed
  ultimately show ?thesis by (simp add: distinct_map)
qed

lemma by_scope_entries:
  assumes "finite pairs"
  shows "(\<exists>i ps. (i, s, ps) \<in> set (List.enumerate 0 (by_scope pairs)) \<and> p \<in> ps) \<longleftrightarrow> (p, s) \<in> pairs"
proof -
  let ?es = "List.enumerate 0 (by_scope pairs)"
  have "(\<exists>i ps. (i, s, ps) \<in> set ?es \<and> p \<in> ps) \<longleftrightarrow> (\<exists>ps. (\<exists>i. (i, s, ps) \<in> set ?es) \<and> p \<in> ps)" by blast
  also have "\<dots> \<longleftrightarrow> (\<exists>ps. (s, ps) \<in> set (by_scope pairs) \<and> p \<in> ps)"
  proof -
    have "(\<exists>i. (i, x) \<in> set ?es) \<longleftrightarrow> x \<in> set (by_scope pairs)" for x
      by (simp add: in_set_enumerate_eq) (metis in_set_conv_nth)
    then show ?thesis by simp
  qed
  also have "\<dots> \<longleftrightarrow> (p, s) \<in> pairs" using assms by (auto simp: by_scope_def image_iff intro: bexI [of _ "(p, s)"])
  finally show ?thesis .
qed

lemma synthetic_assignments:
  "(\<exists>a \<in> (\<lambda>(i, s, _). \<lparr>ra_role_id = of_nat i, ra_scope = s\<rparr>) ` E. s = ra_scope a \<and> Q (ra_role_id a))
     \<longleftrightarrow> (\<exists>i ps. (i, s, ps) \<in> E \<and> Q (of_nat i))"
  for E :: "(nat \<times> scope \<times> permission set) set"
  by force

lemma scoped_set_from_pairs_grants:
  assumes "finite pairs" and "card (snd ` pairs) \<le> 2 ^ 128"
  shows "role_grants (scoped_set_from_pairs pairs) = pairs"
    and "delegated_grants (scoped_set_from_pairs pairs) = {}"
proof -
  let ?es = "List.enumerate 0 (by_scope pairs)"
  let ?c = "fold (\<lambda>e. catalog_insert (synthetic_role e)) ?es []"
  have len: "length (by_scope pairs) \<le> 2 ^ 128"
    using assms by (simp add: by_scope_def)
  have "(\<exists>r. catalog_get ?c (of_nat i) = Some r \<and> p \<in> rl_permission_set r) \<longleftrightarrow> p \<in> ps"
    if "(i, s, ps) \<in> set ?es" for i s ps p
    using catalog_get_fold_insert [OF distinct_synthetic_ids [OF len] that, of "[]"]
    by (simp add: synthetic_role_def)
  then have "(\<exists>i ps. (i, s, ps) \<in> set ?es \<and> (\<exists>r. catalog_get ?c (of_nat i) = Some r \<and> p \<in> rl_permission_set r))
      \<longleftrightarrow> (\<exists>i ps. (i, s, ps) \<in> set ?es \<and> p \<in> ps)" for p s
    by metis
  then have "(\<exists>a \<in> set (map (\<lambda>(i, s, _). \<lparr>ra_role_id = of_nat i, ra_scope = s\<rparr>) ?es). s = ra_scope a
        \<and> (\<exists>r. catalog_get ?c (ra_role_id a) = Some r \<and> p \<in> rl_permission_set r)) \<longleftrightarrow> (p, s) \<in> pairs" for p s
    unfolding set_map synthetic_assignments [of _ _ "\<lambda>i. \<exists>r. catalog_get ?c i = Some r \<and> p \<in> rl_permission_set r"]
    using by_scope_entries [OF assms(1), of s p] by (rule trans)
  then show "role_grants (scoped_set_from_pairs pairs) = pairs"
    unfolding scoped_set_from_pairs_def Let_def role_grants_effective by force
  show "delegated_grants (scoped_set_from_pairs pairs) = {}"
    by (simp add: scoped_set_from_pairs_def Let_def delegated_grants_effective)
qed

lemma grant_pairs_scope: "(p, s) \<in> set (grant_pairs g roles) \<Longrightarrow> s = grant_scope g"
  by (cases g) (auto split: option.splits)

lemma resolve_grants:
  "all_grants (rp_effective_permissions (resolve k creator roles now books)) =
     (if key_is_active k now
      then {(p, s) \<in> set (grant_pairs (ak_principal_grant k) roles). \<not> is_meta p \<and> has_permission creator p s books}
      else {})"
proof (cases "key_is_active k now")
  case True
  let ?allowed = "set (filter (\<lambda>(p, s). has_permission creator p s books)
      (filter (\<lambda>(p, _). \<not> is_meta p) (grant_pairs (ak_principal_grant k) roles)))"
  have "snd ` ?allowed \<subseteq> {grant_scope (ak_principal_grant k)}" using grant_pairs_scope by fastforce
  then have "card (snd ` ?allowed) \<le> card {grant_scope (ak_principal_grant k)}" by (intro card_mono) simp_all
  then have "card (snd ` ?allowed) \<le> 2 ^ 128" by simp
  then show ?thesis
    using True scoped_set_from_pairs_grants [of ?allowed] by (auto simp: resolve_def Let_def all_grants_def)
qed (simp add: resolve_def Let_def all_grants_def scoped_permission_set_new_def)

text \<open>
  C34: a key can never do more than its creator. Whatever a resolved key may do at a target the
  scope tree resolves is not a meta-permission, is conveyed by its grant, and is something the
  creator may do there with the authority they have at that moment; an expired or revoked key,
  or one whose creator has no authority left, can do nothing.
\<close>

theorem key_within_creator:
  assumes "has_permission (rp_effective_permissions (resolve k creator roles now books)) p t books"
    and "shallow books t"
  shows "\<not> is_meta p \<and> p \<in> fst ` set (grant_pairs (ak_principal_grant k) roles)
    \<and> has_permission creator p t books \<and> \<not> ak_revoked k
    \<and> (\<forall>e. ak_expires_at k = Some e \<longrightarrow> unix_nanos now < unix_nanos e) \<and> \<not> scoped_is_empty creator"
proof -
  obtain s where act: "key_is_active k now" and s: "(p, s) \<in> set (grant_pairs (ak_principal_grant k) roles)"
    "\<not> is_meta p" "has_permission creator p s books" "scope_covers s t books"
    using assms(1) by (auto simp: has_permission_def resolve_grants split: if_splits)
  then have "has_permission creator p t books" using has_permission_narrows assms(2) by blast
  moreover from this have "\<not> scoped_is_empty creator"
    by (auto simp: has_permission_def all_grants_def scoped_is_empty_def)
  moreover have "\<not> ak_revoked k \<and> (\<forall>e. ak_expires_at k = Some e \<longrightarrow> unix_nanos now < unix_nanos e)"
    using act by (auto simp: key_is_active_def key_is_expired_def)
  ultimately show ?thesis using s by force
qed

text \<open>
  C35: issuing a key. \<open>issue\<close> succeeds exactly when the attenuation predicate holds; the key it
  returns is active until it expires, is found again from the plaintext by its prefix, accepts
  the plaintext, and accepts another presented secret only if that has the same SHA-256 digest.
\<close>

theorem issued_key_round_trip:
  assumes "draw_ok rnd" and "\<And>m. is_digest (sha256 m)"
  shows "(is_ok (issue sha256 rnd creator roles books spec) \<longleftrightarrow> can_create_key creator (ks_principal_grant spec) roles books)
    \<and> (\<forall>nk presented now. issue sha256 rnd creator roles books spec = Ok nk \<longrightarrow>
        extract_prefix (nk_plaintext nk) = Some (ak_prefix (nk_api_key nk))
        \<and> (verify_key sha256 (nk_api_key nk) presented \<longleftrightarrow> sha256 (as_bytes presented) = sha256 (as_bytes (nk_plaintext nk)))
        \<and> (key_is_active (nk_api_key nk) now \<longleftrightarrow> \<not> key_is_expired (nk_api_key nk) now))"
proof (intro conjI allI impI)
  show "is_ok (issue sha256 rnd creator roles books spec) \<longleftrightarrow> can_create_key creator (ks_principal_grant spec) roles books"
    by (auto simp: issue_def can_create_key_def Let_def list_ex_iff list_all_iff)
next
  fix nk presented now
  assume "issue sha256 rnd creator roles books spec = Ok nk"
  then have nk: "nk = generate sha256 rnd spec" by (simp add: issue_def Let_def split: if_splits)
  have plain: "nk_plaintext nk = ak_prefix (nk_api_key nk) @ CHR ''_'' # hex_encode (kr_secret rnd)"
    and prefix: "ak_prefix (nk_api_key nk) = (KEY_TAG @ ''_'') @ hex_encode (kr_prefix rnd)"
    and hash: "ak_key_hash (nk_api_key nk) = hex_encode (sha256 (as_bytes (nk_plaintext nk)))"
    and fresh: "\<not> ak_revoked (nk_api_key nk)"
    by (simp_all add: nk generate_def Let_def del: as_bytes_append)
  show "extract_prefix (nk_plaintext nk) = Some (ak_prefix (nk_api_key nk))"
    using assms(1) strip_prefix_append [of "KEY_TAG @ ''_''" "hex_encode (kr_prefix rnd)"]
    by (simp only: extract_prefix_def plain rsplit_once_last [OF hex_encode_no_underscore])
      (simp add: prefix draw_ok_def)
  show "verify_key sha256 (nk_api_key nk) presented \<longleftrightarrow> sha256 (as_bytes presented) = sha256 (as_bytes (nk_plaintext nk))"
    using assms(2) ct_eq_iff [of "sha256 (as_bytes presented)" "sha256 (as_bytes (nk_plaintext nk))"]
    by (simp add: verify_key_def hash decode_32_encode is_digest_def)
  show "key_is_active (nk_api_key nk) now \<longleftrightarrow> \<not> key_is_expired (nk_api_key nk) now"
    using fresh by (simp add: key_is_active_def)
qed

subsection \<open>Evaluated instances\<close>

definition sample_draw :: key_randomness where
  "sample_draw = \<lparr>kr_prefix = replicate 6 0xab, kr_secret = replicate 32 0x5c, kr_id = 9\<rparr>"

definition sample_spec :: key_spec where
  "sample_spec = \<lparr>ks_name = ''ERP'', ks_principal_grant = PermsGrant {ActDraft, RoleManage} (Entity 2), ks_created_by = 100,
     ks_created_at = default_starts_at, ks_expires_at = None, ks_rate_limit = None\<rparr>"

definition sample_key :: api_key where
  "sample_key = nk_api_key (generate (\<lambda>_. zero_digest) sample_draw sample_spec)"

definition sample_creator :: scoped_permission_set where
  "sample_creator = effective_permissions 100 sample_assignments sample_catalog [] default_starts_at"

theorem key_within_creator_witness:
  "has_permission (rp_effective_permissions (resolve sample_key sample_creator sample_catalog default_starts_at sample_scopes))
     ActDraft (Act 4) sample_scopes
   \<and> has_permission sample_creator ActDraft (Act 4) sample_scopes"
proof -
  have p: "has_permission (rp_effective_permissions (resolve sample_key sample_creator sample_catalog default_starts_at sample_scopes))
     ActDraft (Act 4) sample_scopes"
    by code_simp
  with key_within_creator [OF p] show ?thesis by (simp add: core_scope_shallow)
qed

theorem issued_key_round_trip_witness:
  "issue (\<lambda>_. zero_digest) sample_draw sample_creator sample_catalog sample_scopes sample_spec = Err GrantContainsMeta
   \<and> verify_key (\<lambda>_. zero_digest) sample_key (nk_plaintext (generate (\<lambda>_. zero_digest) sample_draw sample_spec))"
proof -
  let ?spec = "sample_spec\<lparr>ks_principal_grant := PermsGrant {ActDraft} (Entity 2)\<rparr>"
  have "issue (\<lambda>_. zero_digest) sample_draw sample_creator sample_catalog sample_scopes ?spec
      = Ok (generate (\<lambda>_. zero_digest) sample_draw ?spec)"
    by code_simp
  moreover have "draw_ok sample_draw" by code_simp
  ultimately have "verify_key (\<lambda>_. zero_digest) (nk_api_key (generate (\<lambda>_. zero_digest) sample_draw ?spec))
      (nk_plaintext (generate (\<lambda>_. zero_digest) sample_draw sample_spec))"
    using issued_key_round_trip [of sample_draw "\<lambda>_. zero_digest"] by simp
  moreover have "ak_key_hash sample_key = ak_key_hash (nk_api_key (generate (\<lambda>_. zero_digest) sample_draw ?spec))"
    by (simp add: sample_key_def generate_def Let_def)
  moreover have "issue (\<lambda>_. zero_digest) sample_draw sample_creator sample_catalog sample_scopes sample_spec = Err GrantContainsMeta"
    by code_simp
  ultimately show ?thesis by (simp add: verify_key_def)
qed

end
