(* ===== verification/Directory.thy ===== *)
theory Directory
  imports Authz_Roles Api_Key "HOL-Library.List_Lexorder" "HOL-Library.Product_Lexorder"
begin

section \<open>The user directory and the resolution of a principal\<close>

text \<open>
  The part of \<open>src/crates/chancela-api/src/\<close> that keeps users, roles and delegations and decides
  who a request acts as: \<open>users.rs\<close> (the record and its checks), \<open>email.rs\<close>, \<open>delegations.rs\<close>
  (the stored record), \<open>roles.rs\<close> (what happens to a loaded catalogue and directory at start-up,
  the effective permissions of a principal), \<open>authz.rs\<close> (the scope relations of the stores and the
  request authoriser) and \<open>actor.rs\<close> (the credential of a request). A \<open>HashMap\<close> is an
  association list with distinct keys, in any order.

  A user's credentials (password verifier, attestation keys, recovery verifier, second factor,
  passkeys and how the secret was set) are left out of the record: nothing modelled here reads
  them. A language preference is its wire tag.
\<close>

subsection \<open>Users\<close>

datatype api_error = NotFound | Unauthorized | Forbidden | Conflict | Unprocessable | Internal

record user =
  us_id :: u128
  us_username :: string
  us_display_name :: string
  us_email :: "string option"
  us_created_at :: string
  us_active :: bool
  us_role_assignments :: "role_assignment list"
  us_language :: string
  us_two_factor_required :: bool
  us_force_password_change :: bool

type_synonym user_map = "(u128 \<times> user) list"

definition MAX_EMAIL_LEN :: nat where "MAX_EMAIL_LEN = 254"

definition looks_like_email :: "string \<Rightarrow> bool" where
  "looks_like_email value \<longleftrightarrow>
     \<not> (remove_whitespace value \<noteq> value \<or> length (filter (\<lambda>c. c = CHR ''@'') value) \<noteq> 1)
     \<and> (case split_on (CHR ''@'') value of
          local # domain # _ \<Rightarrow>
            \<not> (is_blank local \<or> is_blank domain \<or> (trim domain \<noteq> [] \<and> last (trim domain) = CHR ''.''))
            \<and> CHR ''.'' \<in> set domain
        | _ \<Rightarrow> False)"

definition normalize_optional_email :: "string option \<Rightarrow> api_error + string option" where
  "normalize_optional_email raw =
     (case raw of
        None \<Rightarrow> Ok None
      | Some value \<Rightarrow>
          let email = trim value in
          if email = [] then Ok None
          else if length email > MAX_EMAIL_LEN then Err Unprocessable
          else if \<not> looks_like_email email then Err Unprocessable
          else Ok (Some (to_ascii_lowercase email)))"

definition is_slug_char :: "char \<Rightarrow> bool" where
  "is_slug_char c \<longleftrightarrow> c \<in> set ''abcdefghijklmnopqrstuvwxyz0123456789._-''"

definition validate_username :: "string \<Rightarrow> api_error + string" where
  "validate_username raw =
     (let name = trim raw in
      if name = [] then Err Unprocessable
      else if length name > 64 then Err Unprocessable
      else if \<not> list_all is_slug_char name then Err Unprocessable
      else Ok name)"

text \<open>The administrative owners among the active users.\<close>

definition owner_pairs :: "user_map \<Rightarrow> (u128 \<times> role_assignment) list" where
  "owner_pairs users =
     concat (map (\<lambda>(_, u). map (\<lambda>a. (us_id u, a)) (us_role_assignments u)) (filter (\<lambda>(_, u). us_active u) users))"

definition count_owner_admins :: "user_map \<Rightarrow> nat" where
  "count_owner_admins users = count_owner_admin_holders (owner_pairs users)"

datatype deactivation_block = LastActiveUser | LastActiveOwner

definition deactivation_block_of :: "user_map \<Rightarrow> user \<Rightarrow> deactivation_block option" where
  "deactivation_block_of users target =
     (if \<not> us_active target then None
      else if length (filter (\<lambda>(_, u). us_active u) users) \<le> 1 then Some LastActiveUser
      else if list_ex is_owner_admin (us_role_assignments target) \<and> \<not> last_owner_guard (count_owner_admins users)
      then Some LastActiveOwner
      else None)"

text \<open>The stored delegation: the record of the engine with its audit fields.\<close>

record stored_delegation =
  sd_id :: u128
  sd_granted_at :: string
  sd_revoked_at :: "string option"
  sd_revoked_by :: "u128 option"
  sd_inner :: delegation

definition stored_delegation_new :: "u128 \<Rightarrow> string \<Rightarrow> delegation \<Rightarrow> stored_delegation" where
  "stored_delegation_new i granted_at inner =
     \<lparr>sd_id = i, sd_granted_at = granted_at, sd_revoked_at = None, sd_revoked_by = None, sd_inner = inner\<rparr>"

type_synonym delegation_table = "(u128 \<times> stored_delegation) list"

subsection \<open>Start-up: seeding and migrating what was loaded\<close>

definition seed_missing :: "role \<Rightarrow> bool \<times> role_catalog \<Rightarrow> bool \<times> role_catalog" where
  "seed_missing r = (\<lambda>(changed, c).
     if catalog_get c (rl_id r) = None then (True, catalog_insert r c) else (changed, c))"

definition ensure_seeded_defaults :: "role_catalog \<Rightarrow> bool \<times> role_catalog" where
  "ensure_seeded_defaults c =
     fold seed_missing (filter (\<lambda>r. rl_id r \<noteq> OWNER_ROLE_ID) default_roles)
       (if catalog_get c OWNER_ROLE_ID \<noteq> Some owner_role then (True, catalog_insert owner_role c) else (False, c))"

definition retire_merged_roles :: "role_catalog \<Rightarrow> bool \<times> role_catalog" where
  "retire_merged_roles c =
     (let retired = filter (\<lambda>i. catalog_get c i \<noteq> None) (map fst RETIRED_SEEDED_ROLES)
      in (retired \<noteq> [], fold (\<lambda>i c. snd (catalog_remove i c)) retired c))"

text \<open>\<open>retain(|a| seen.insert(a))\<close> keeps the first of equal elements.\<close>

definition retain_first :: "'a list \<Rightarrow> 'a list" where
  "retain_first xs = rev (remdups (rev xs))"

definition move_assignment :: "role_assignment \<Rightarrow> role_assignment" where
  "move_assignment a =
     (case retired_role_successor (ra_role_id a) of
        Some successor \<Rightarrow> a\<lparr>ra_role_id := successor\<rparr>
      | None \<Rightarrow> a)"

definition holds_retired :: "user \<Rightarrow> bool" where
  "holds_retired u \<longleftrightarrow> list_ex (\<lambda>a. retired_role_successor (ra_role_id a) \<noteq> None) (us_role_assignments u)"

definition move_holder :: "user \<Rightarrow> user" where
  "move_holder u =
     (if holds_retired u
      then u\<lparr>us_role_assignments := retain_first (map move_assignment (us_role_assignments u))\<rparr> else u)"

definition migrate_retired_roles :: "user_map \<Rightarrow> bool \<times> user_map" where
  "migrate_retired_roles users =
     (list_ex (\<lambda>(_, u). holds_retired u) users, map (\<lambda>(i, u). (i, move_holder u)) users)"

definition bootstrap_assignment :: "bool \<Rightarrow> role_assignment" where
  "bootstrap_assignment bootstrap =
     \<lparr>ra_role_id = (if bootstrap then OWNER_ROLE_ID else COMPANY_OWNER_ROLE_ID), ra_scope = Global\<rparr>"

definition migration_order :: "user_map \<Rightarrow> u128 \<Rightarrow> nat list \<times> u128" where
  "migration_order users i =
     (map unat (as_bytes (case map_of users i of Some u \<Rightarrow> us_created_at u | None \<Rightarrow> [])), i)"

definition assign_default :: "bool \<Rightarrow> nat \<times> u128 \<Rightarrow> user_map \<Rightarrow> user_map" where
  "assign_default owner_exists = (\<lambda>(n, i) users.
     case map_of users i of
       Some u \<Rightarrow> AList.update i (u\<lparr>us_role_assignments := [bootstrap_assignment (\<not> owner_exists \<and> n = 0)]\<rparr>) users
     | None \<Rightarrow> users)"

definition migrate_roles :: "user_map \<Rightarrow> bool \<times> user_map" where
  "migrate_roles users =
     (let unassigned = map (\<lambda>(_, u). us_id u) (filter (\<lambda>(_, u). us_role_assignments u = []) users) in
      if unassigned = [] then (False, users)
      else
        let ordered = sort_key (migration_order users) unassigned;
            owner_exists = list_ex (\<lambda>(_, u). list_ex is_owner_admin (us_role_assignments u)) users
        in (True, fold (assign_default owner_exists) (List.enumerate 0 ordered) users))"

text \<open>The one-time grants behind a persisted marker.\<close>

record role_migration_state =
  applied :: "string set"

definition has_run :: "role_migration_state \<Rightarrow> string \<Rightarrow> bool" where
  "has_run s migration \<longleftrightarrow> migration \<in> applied s"

definition mark :: "string \<Rightarrow> role_migration_state \<Rightarrow> role_migration_state" where
  "mark migration s = s\<lparr>applied := insert migration (applied s)\<rparr>"

record role_migration_outcome =
  catalog_changed :: bool
  marker_changed :: bool

definition T27_SPLIT_VERB_GRANDFATHER_MIGRATION :: string where
  "T27_SPLIT_VERB_GRANDFATHER_MIGRATION = ''t27_split_verb_grandfather''"

definition T30_ACT_REVERT_GRANDFATHER_MIGRATION :: string where
  "T30_ACT_REVERT_GRANDFATHER_MIGRATION = ''t30_act_revert_grandfather''"

definition T50_SIGNING_CONFIGURE_GRANDFATHER_MIGRATION :: string where
  "T50_SIGNING_CONFIGURE_GRANDFATHER_MIGRATION = ''t50_signing_configure_grandfather''"

definition SEARCH_READ_SEEDED_GRANDFATHER_MIGRATION :: string where
  "SEARCH_READ_SEEDED_GRANDFATHER_MIGRATION = ''search_read_seeded_grandfather''"

text \<open>The shape the four reconciliations share.\<close>

definition reconcile_once ::
  "string \<Rightarrow> (role_catalog \<Rightarrow> bool \<times> role_catalog) \<Rightarrow> role_catalog \<times> role_migration_state
     \<Rightarrow> role_migration_outcome \<times> role_catalog \<times> role_migration_state" where
  "reconcile_once migration grant = (\<lambda>(c, s).
     if has_run s migration then (\<lparr>catalog_changed = False, marker_changed = False\<rparr>, c, s)
     else case grant c of (changed, c') \<Rightarrow>
       (\<lparr>catalog_changed = changed, marker_changed = True\<rparr>, c', mark migration s))"

definition reconcile_split_verb_grandfather ::
  "role_catalog \<times> role_migration_state \<Rightarrow> role_migration_outcome \<times> role_catalog \<times> role_migration_state" where
  "reconcile_split_verb_grandfather =
     reconcile_once T27_SPLIT_VERB_GRANDFATHER_MIGRATION grandfather_split_verbs_catalog"

definition reconcile_act_revert_grandfather ::
  "role_catalog \<times> role_migration_state \<Rightarrow> role_migration_outcome \<times> role_catalog \<times> role_migration_state" where
  "reconcile_act_revert_grandfather =
     reconcile_once T30_ACT_REVERT_GRANDFATHER_MIGRATION grandfather_act_revert_catalog"

definition reconcile_signing_configure_grandfather ::
  "role_catalog \<times> role_migration_state \<Rightarrow> role_migration_outcome \<times> role_catalog \<times> role_migration_state" where
  "reconcile_signing_configure_grandfather =
     reconcile_once T50_SIGNING_CONFIGURE_GRANDFATHER_MIGRATION grandfather_signing_configure_catalog"

definition reconcile_seeded_search_read_grandfather ::
  "role_catalog \<times> role_migration_state \<Rightarrow> role_migration_outcome \<times> role_catalog \<times> role_migration_state" where
  "reconcile_seeded_search_read_grandfather =
     reconcile_once SEARCH_READ_SEEDED_GRANDFATHER_MIGRATION grandfather_seeded_search_read_catalog"

text \<open>
  What \<open>AppState::with_data_dir\<close> does with the loaded catalogue, marker and directory.
  \<open>bi_catalog_write\<close> and \<open>bi_marker_write\<close> say whether the two file writes succeed; the marker is
  written only after the catalogue was.
\<close>

record boot_io =
  bi_catalog_write :: bool
  bi_marker_write :: bool
  bi_users_write :: bool

record role_files =
  rf_roles :: role_catalog
  rf_marker :: role_migration_state
  rf_users :: user_map

record boot_state =
  bs_roles :: role_catalog
  bs_users :: user_map
  bs_files :: role_files

definition boot :: "boot_io \<Rightarrow> role_files \<Rightarrow> boot_state" where
  "boot io files =
     (let (retired_any, c0) = retire_merged_roles (rf_roles files);
          (seeded, c1) = ensure_seeded_defaults c0;
          (m1, c2, s2) = reconcile_split_verb_grandfather (c1, rf_marker files);
          (m2, c3, s3) = reconcile_act_revert_grandfather (c2, s2);
          (m3, c4, s4) = reconcile_signing_configure_grandfather (c3, s3);
          (m4, c5, s5) = reconcile_seeded_search_read_grandfather (c4, s4);
          changed = (catalog_changed m1 \<or> catalog_changed m2 \<or> catalog_changed m3 \<or> catalog_changed m4);
          marked = (marker_changed m1 \<or> marker_changed m2 \<or> marker_changed m3 \<or> marker_changed m4);
          must_write = (seeded \<or> retired_any \<or> changed);
          catalog_persisted = (must_write \<longrightarrow> bi_catalog_write io);
          (moved, u1) = migrate_retired_roles (rf_users files);
          (assigned, u2) = migrate_roles u1
      in \<lparr>bs_roles = c5, bs_users = u2,
          bs_files =
            \<lparr>rf_roles = (if must_write \<and> bi_catalog_write io then c5 else rf_roles files),
             rf_marker = (if marked \<and> catalog_persisted \<and> bi_marker_write io then s5 else rf_marker files),
             rf_users = (if (assigned \<or> moved) \<and> bi_users_write io then u2 else rf_users files)\<rparr>\<rparr>)"

subsection \<open>The scope relations of the stores\<close>

record scope_relations =
  sr_books :: "u128 \<Rightarrow> u128 option"
  sr_tenants :: "u128 \<Rightarrow> u128 option"
  sr_acts :: "u128 \<Rightarrow> u128 option"
  sr_template_libraries :: "u128 \<Rightarrow> u128 option"
  sr_integrations :: "u128 \<Rightarrow> u128 option"
  sr_repositories :: "u128 \<Rightarrow> u128 option"
  sr_archives :: "u128 \<Rightarrow> u128 option"

text \<open>\<open>impl BookScope for ScopeRelations\<close>; folders keep the trait's default, no parent.\<close>

definition live_relation :: "scope_relations \<Rightarrow> scope_relation" where
  "live_relation r =
     \<lparr>entity_of = sr_books r, tenant_of = sr_tenants r, book_of_act = sr_acts r,
      parent_of_folder = (\<lambda>_. None),
      parent_of_template_library = (\<lambda>l. map_option Tenant (sr_template_libraries r l)),
      parent_of_archive = (\<lambda>a. map_option Repository (sr_archives r a)),
      parent_of_integration = (\<lambda>i. map_option Tenant (sr_integrations r i)),
      parent_of_repository = (\<lambda>p. map_option Tenant (sr_repositories r p))\<rparr>"

subsection \<open>Resolving a principal\<close>

text \<open>The stores a request reads to find out what its principal may do.\<close>

record directory =
  dr_users :: user_map
  dr_roles :: role_catalog
  dr_delegations :: delegation_table
  dr_relations :: scope_relations

definition grantor_authority :: "directory \<Rightarrow> offset_date_time \<Rightarrow> u128 \<Rightarrow> scoped_permission_set option" where
  "grantor_authority d now grantor =
     (case map_of (dr_users d) grantor of
        Some u \<Rightarrow> if us_active u then Some (effective_permissions grantor (us_role_assignments u) (dr_roles d) [] now) else None
      | None \<Rightarrow> None)"

text \<open>
  Continuous revalidation: a delegation is reduced to the verbs its grantor still holds through
  a role, and dropped when none is left.
\<close>

definition revalidate :: "directory \<Rightarrow> offset_date_time \<Rightarrow> scope_relation \<Rightarrow> delegation \<Rightarrow> delegation option" where
  "revalidate d now relations dl =
     (case grantor_authority d now (dl_from dl) of
        None \<Rightarrow> None
      | Some eff \<Rightarrow>
          (case filter (\<lambda>p. has_via_role eff p (dl_scope dl) relations) (granted_permissions dl (dr_roles d)) of
             [] \<Rightarrow> None
           | p # extra \<Rightarrow> Some (dl\<lparr>dl_permission := Some p, dl_extra_permissions := extra, dl_roles := []\<rparr>)))"

definition effective_permissions_for :: "directory \<Rightarrow> u128 \<Rightarrow> offset_date_time \<Rightarrow> scoped_permission_set" where
  "effective_permissions_for d u now =
     (let relations = live_relation (dr_relations d);
          stored = filter (\<lambda>dl. dl_to dl = u) (map (\<lambda>(_, sd). sd_inner sd) (dr_delegations d)) in
      case map_of (dr_users d) u of
        Some x \<Rightarrow>
          if us_active x
          then effective_permissions u (us_role_assignments x) (dr_roles d)
                 (List.map_filter (revalidate d now relations) stored) now
          else scoped_permission_set_new
      | None \<Rightarrow> scoped_permission_set_new)"

text \<open>The credential of a request (\<open>actor.rs\<close>).\<close>

datatype actor_credential = SessionCredential string "u128 option" | ApiKeyCredential request_principal

type_synonym current_actor = "actor_credential option"

definition actor_resolve :: "current_actor \<Rightarrow> string \<Rightarrow> string" where
  "actor_resolve actor request_actor =
     (case actor of
        Some (SessionCredential username _) \<Rightarrow> username
      | Some (ApiKeyCredential p) \<Rightarrow> rp_actor_label p
      | None \<Rightarrow> request_actor)"

definition resolve_principal_id :: "directory \<Rightarrow> current_actor \<Rightarrow> api_error + u128" where
  "resolve_principal_id d actor =
     (case actor of
        Some (ApiKeyCredential _) \<Rightarrow> Err Forbidden
      | None \<Rightarrow> Err Unauthorized
      | Some (SessionCredential username (Some i)) \<Rightarrow>
          (case map_of (dr_users d) i of
             Some u \<Rightarrow> if us_active u \<and> us_username u = username then Ok (us_id u) else Err Forbidden
           | None \<Rightarrow> Err Forbidden)
      | Some (SessionCredential username None) \<Rightarrow>
          (case find (\<lambda>(_, u). us_active u \<and> us_username u = username) (dr_users d) of
             Some (_, u) \<Rightarrow> Ok (us_id u)
           | None \<Rightarrow> Err Forbidden))"

record authorizer =
  az_principal :: "u128 option"
  az_eff :: scoped_permission_set
  az_relations :: scope_relation

definition authorizer_of :: "directory \<Rightarrow> offset_date_time \<Rightarrow> current_actor \<Rightarrow> api_error + authorizer" where
  "authorizer_of d now actor =
     (case actor of
        Some (ApiKeyCredential p) \<Rightarrow>
          Ok \<lparr>az_principal = None, az_eff = rp_effective_permissions p, az_relations = live_relation (dr_relations d)\<rparr>
      | _ \<Rightarrow>
          (case resolve_principal_id d actor of
             Inl e \<Rightarrow> Err e
           | Inr u \<Rightarrow> Ok \<lparr>az_principal = Some u, az_eff = effective_permissions_for d u now,
               az_relations = live_relation (dr_relations d)\<rparr>))"

definition az_principal_id :: "authorizer \<Rightarrow> api_error + u128" where
  "az_principal_id az = (case az_principal az of Some u \<Rightarrow> Ok u | None \<Rightarrow> Err Forbidden)"

definition permits :: "authorizer \<Rightarrow> permission \<Rightarrow> scope \<Rightarrow> bool" where
  "permits az p s = has_permission (az_eff az) p s (az_relations az)"

definition require :: "authorizer \<Rightarrow> permission \<Rightarrow> scope \<Rightarrow> api_error + unit" where
  "require az p s = (if permits az p s then Ok () else Err Forbidden)"

definition az_can_define_role :: "authorizer \<Rightarrow> permission list \<Rightarrow> bool" where
  "az_can_define_role az ps = can_define_role (az_eff az) ps (az_relations az)"

definition az_can_assign_role :: "authorizer \<Rightarrow> role \<Rightarrow> scope \<Rightarrow> bool" where
  "az_can_assign_role az r s = can_assign_role (az_eff az) r s (az_relations az)"

definition az_can_delegate_roles :: "authorizer \<Rightarrow> u128 list \<Rightarrow> role_catalog \<Rightarrow> scope \<Rightarrow> delegation_refusal + unit" where
  "az_can_delegate_roles az roles catalog s = can_delegate_roles (az_eff az) roles catalog s (az_relations az)"

subsection \<open>What a principal may do\<close>

text \<open>Every scope of the live relations is at most four hops below the top.\<close>

lemma live_shallow: "shallow (live_relation r) t"
  by (cases t) (auto simp: shallow_def eval_nat_numeral bind_eq_None_conv live_relation_def split: option.splits)

definition role_conveys :: "role_catalog \<Rightarrow> scope_relation \<Rightarrow> role_assignment list \<Rightarrow> permission \<Rightarrow> scope \<Rightarrow> bool" where
  "role_conveys roles relations assignments p t \<longleftrightarrow>
     (\<exists>a \<in> set assignments. \<exists>r. catalog_get roles (ra_role_id a) = Some r \<and> p \<in> rl_permission_set r
        \<and> scope_covers (ra_scope a) t relations)"

abbreviation holds_via_role :: "directory \<Rightarrow> user \<Rightarrow> permission \<Rightarrow> scope \<Rightarrow> bool" where
  "holds_via_role d u \<equiv> role_conveys (dr_roles d) (live_relation (dr_relations d)) (us_role_assignments u)"

lemma has_via_role_conveys:
  "has_via_role (effective_permissions u as roles ds now) p t relations = role_conveys roles relations as p t"
  by (simp add: has_via_role_effective role_conveys_def)

lemma role_conveys_narrows:
  assumes "role_conveys roles (live_relation r) as p s" and "scope_covers s t (live_relation r)"
  shows "role_conveys roles (live_relation r) as p t"
  using assms scope_covers_trans [OF live_shallow] unfolding role_conveys_def by blast

lemma grantor_authority_Some:
  "grantor_authority d now g = Some eff \<longleftrightarrow>
     (\<exists>u. map_of (dr_users d) g = Some u \<and> us_active u
        \<and> eff = effective_permissions g (us_role_assignments u) (dr_roles d) [] now)"
  by (auto simp: grantor_authority_def split: option.splits)

lemma revalidate_None:
  "revalidate d now relations dl = None \<longleftrightarrow>
     (\<forall>u. map_of (dr_users d) (dl_from dl) = Some u \<longrightarrow> us_active u \<longrightarrow>
       (\<forall>p \<in> set (granted_permissions dl (dr_roles d)).
          \<not> role_conveys (dr_roles d) relations (us_role_assignments u) p (dl_scope dl)))"
proof (cases "grantor_authority d now (dl_from dl)")
  case None
  then show ?thesis by (auto simp: revalidate_def grantor_authority_def split: option.splits if_splits)
next
  case (Some eff)
  then obtain u where u: "map_of (dr_users d) (dl_from dl) = Some u" "us_active u"
    and eff: "eff = effective_permissions (dl_from dl) (us_role_assignments u) (dr_roles d) [] now"
    by (auto simp: grantor_authority_Some)
  have "revalidate d now relations dl = None \<longleftrightarrow>
      filter (\<lambda>p. has_via_role eff p (dl_scope dl) relations) (granted_permissions dl (dr_roles d)) = []"
    by (simp add: revalidate_def Some split: list.split)
  then show ?thesis using u by (simp add: eff has_via_role_conveys filter_empty_conv)
qed

lemma revalidate_Some:
  assumes "revalidate d now relations dl = Some dl'"
  shows "dl_to dl' = dl_to dl" "dl_scope dl' = dl_scope dl" "is_active dl' now' = is_active dl now'"
    "set (granted_permissions dl' roles') = {p \<in> set (granted_permissions dl (dr_roles d)).
       \<exists>u. map_of (dr_users d) (dl_from dl) = Some u \<and> us_active u
         \<and> role_conveys (dr_roles d) relations (us_role_assignments u) p (dl_scope dl)}"
proof -
  obtain eff where eff: "grantor_authority d now (dl_from dl) = Some eff"
    using assms by (auto simp: revalidate_def split: option.splits)
  then obtain u where u: "map_of (dr_users d) (dl_from dl) = Some u" "us_active u"
    and eff_u: "eff = effective_permissions (dl_from dl) (us_role_assignments u) (dr_roles d) [] now"
    by (auto simp: grantor_authority_Some)
  let ?kept = "filter (\<lambda>p. has_via_role eff p (dl_scope dl) relations) (granted_permissions dl (dr_roles d))"
  obtain p extra where kept: "?kept = p # extra"
    and dl': "dl' = dl\<lparr>dl_permission := Some p, dl_extra_permissions := extra, dl_roles := []\<rparr>"
    using assms by (simp add: revalidate_def eff split: list.splits)
  show "dl_to dl' = dl_to dl" "dl_scope dl' = dl_scope dl" "is_active dl' now' = is_active dl now'"
    by (simp_all add: dl' is_active_def has_started_def is_expired_def)
  have "set (granted_permissions dl' roles') = set ?kept"
    unfolding kept by (simp add: dl' set_granted_permissions)
  also have "\<dots> = {p \<in> set (granted_permissions dl (dr_roles d)). has_via_role eff p (dl_scope dl) relations}"
    by auto
  finally show "set (granted_permissions dl' roles') = {p \<in> set (granted_permissions dl (dr_roles d)).
       \<exists>u. map_of (dr_users d) (dl_from dl) = Some u \<and> us_active u
         \<and> role_conveys (dr_roles d) relations (us_role_assignments u) p (dl_scope dl)}"
    by (simp add: u eff_u has_via_role_conveys)
qed

text \<open>What one delegation gives its receiver at a moment: what its grantor still holds.\<close>

definition delegation_conveys :: "directory \<Rightarrow> offset_date_time \<Rightarrow> delegation \<Rightarrow> permission \<Rightarrow> scope \<Rightarrow> bool" where
  "delegation_conveys d now dl p t \<longleftrightarrow>
     is_active dl now \<and> p \<in> set (granted_permissions dl (dr_roles d))
     \<and> scope_covers (dl_scope dl) t (live_relation (dr_relations d))
     \<and> (\<exists>g. map_of (dr_users d) (dl_from dl) = Some g \<and> us_active g \<and> holds_via_role d g p (dl_scope dl))"

lemma revalidated_conveys:
  fixes d now
  defines "rel \<equiv> live_relation (dr_relations d)"
  shows "(\<exists>dl' \<in> set (List.map_filter (revalidate d now rel) dls). dl_to dl' = u \<and> is_active dl' now
        \<and> p \<in> set (granted_permissions dl' (dr_roles d)) \<and> scope_covers (dl_scope dl') t rel)
     \<longleftrightarrow> (\<exists>dl \<in> set dls. dl_to dl = u \<and> delegation_conveys d now dl p t)"
proof -
  have "(\<exists>dl'. revalidate d now rel dl = Some dl' \<and> dl_to dl' = u \<and> is_active dl' now
        \<and> p \<in> set (granted_permissions dl' (dr_roles d)) \<and> scope_covers (dl_scope dl') t rel)
      \<longleftrightarrow> dl_to dl = u \<and> delegation_conveys d now dl p t" for dl
  proof (cases "revalidate d now rel dl")
    case None
    then have "\<not> delegation_conveys d now dl p t"
      unfolding revalidate_None by (auto simp: delegation_conveys_def rel_def)
    with None show ?thesis by simp
  next
    case (Some dl')
    then show ?thesis using revalidate_Some [OF Some] by (auto simp: delegation_conveys_def rel_def)
  qed
  moreover have "set (List.map_filter (revalidate d now rel) dls) = {dl'. \<exists>dl \<in> set dls. revalidate d now rel dl = Some dl'}"
    by (force simp: map_filter_def)
  ultimately show ?thesis by blast
qed

text \<open>
  C31: the authority of a principal is what the stores say now. A known, active user may do
  something at a target exactly when one of their own role assignments conveys it there, or a
  delegation addressed to them does that is in force, whose roles contain the verb today and
  whose grantor is an active user who today holds the verb through a role at the delegation's
  scope; an unknown or inactive user may do nothing.
\<close>

theorem resolution_exact:
  "has_permission (effective_permissions_for d u now) p t (live_relation (dr_relations d)) \<longleftrightarrow>
     (\<exists>x. map_of (dr_users d) u = Some x \<and> us_active x \<and>
        (holds_via_role d x p t
         \<or> (\<exists>(i, sd) \<in> set (dr_delegations d). dl_to (sd_inner sd) = u \<and> delegation_conveys d now (sd_inner sd) p t)))"
proof (cases "\<exists>x. map_of (dr_users d) u = Some x \<and> us_active x")
  case False
  then show ?thesis
    by (auto simp: effective_permissions_for_def Let_def has_permission_def all_grants_def
        scoped_permission_set_new_def split: option.splits)
next
  case True
  then obtain x where x: "map_of (dr_users d) u = Some x" "us_active x" by blast
  let ?rel = "live_relation (dr_relations d)"
  let ?stored = "filter (\<lambda>dl. dl_to dl = u) (map (\<lambda>(_, sd). sd_inner sd) (dr_delegations d))"
  have "effective_permissions_for d u now = effective_permissions u (us_role_assignments x) (dr_roles d)
      (List.map_filter (revalidate d now ?rel) ?stored) now"
    using x by (simp add: effective_permissions_for_def Let_def)
  then have "has_permission (effective_permissions_for d u now) p t ?rel \<longleftrightarrow> holds_via_role d x p t
      \<or> (\<exists>dl \<in> set ?stored. dl_to dl = u \<and> delegation_conveys d now dl p t)"
    by (simp only: has_permission_effective has_via_role_conveys revalidated_conveys)
  also have "(\<exists>dl \<in> set ?stored. dl_to dl = u \<and> delegation_conveys d now dl p t)
      \<longleftrightarrow> (\<exists>(i, sd) \<in> set (dr_delegations d). dl_to (sd_inner sd) = u \<and> delegation_conveys d now (sd_inner sd) p t)"
    by fastforce
  finally show ?thesis using x by auto
qed

subsection \<open>What start-up guarantees\<close>

text \<open>
  The interface of the one-time grants: they keep the catalogue well formed and its ids, leave
  protected roles alone and report every change.
\<close>

locale catalog_grant =
  fixes grant :: "role_catalog \<Rightarrow> bool \<times> role_catalog"
  assumes grant_ok: "catalog_ok c \<Longrightarrow> catalog_ok (snd (grant c))"
    and grant_dom: "catalog_ok c \<Longrightarrow> catalog_get (snd (grant c)) i = None \<longleftrightarrow> catalog_get c i = None"
    and grant_protected: "catalog_ok c \<Longrightarrow> catalog_get c i = Some r \<Longrightarrow> rl_protected r
      \<Longrightarrow> catalog_get (snd (grant c)) i = Some r"
    and grant_reported: "\<not> fst (grant c) \<Longrightarrow> snd (grant c) = c"
begin

lemma reconciled:
  assumes "reconcile_once m grant (c, s) = (out, c', s')" and "catalog_ok c"
  shows "catalog_ok c'" and "catalog_get c' i = None \<longleftrightarrow> catalog_get c i = None"
    and "catalog_get c i = Some r \<Longrightarrow> rl_protected r \<Longrightarrow> catalog_get c' i = Some r"
    and "\<not> catalog_changed out \<Longrightarrow> c' = c" and "applied s' = insert m (applied s)"
    and "m \<in> applied s \<Longrightarrow> c' = c \<and> s' = s \<and> \<not> catalog_changed out \<and> \<not> marker_changed out"
    and "\<not> marker_changed out \<Longrightarrow> s' = s"
  using assms grant_ok [OF assms(2)] grant_dom [OF assms(2)] grant_protected [OF assms(2)] grant_reported [of c]
  by (auto simp: reconcile_once_def has_run_def mark_def split: prod.splits if_splits)

end

lemma migrate_catalog_reported: "\<not> fst (migrate_catalog m c) \<Longrightarrow> snd (migrate_catalog m c) = c"
proof -
  have "\<not> fst (fold (migrate_id m) ids (ch, c)) \<Longrightarrow> \<not> ch \<and> snd (fold (migrate_id m) ids (ch, c)) = c" for ids ch
  proof (induction ids arbitrary: ch c)
    case (Cons i ids)
    obtain ch' c' where step: "migrate_id m i (ch, c) = (ch', c')" by fastforce
    with Cons have "\<not> ch'" "snd (fold (migrate_id m) (i # ids) (ch, c)) = c'" by auto
    moreover have "\<not> ch' \<Longrightarrow> \<not> ch \<and> c' = c"
      using step by (auto simp: migrate_id_def split: option.splits prod.splits bool.splits)
    ultimately show ?case by simp
  qed simp
  then show "\<not> fst (migrate_catalog m c) \<Longrightarrow> snd (migrate_catalog m c) = c"
    unfolding migrate_catalog_def by blast
qed

lemma catalog_grant_migration:
  assumes "\<And>r. fst (m r) \<longleftrightarrow> snd (m r) \<noteq> r" and "\<And>r. rl_id (snd (m r)) = rl_id r"
    and "\<And>r. rl_protected r \<Longrightarrow> snd (m r) = r"
  shows "catalog_grant (migrate_catalog m)"
proof
  fix c i r
  assume "catalog_ok c"
  note eq = migrate_catalog_eq [OF assms(1, 2) this, THEN conjunct1]
  show "catalog_get (snd (migrate_catalog m c)) i = None \<longleftrightarrow> catalog_get c i = None" by (simp add: eq)
  show "catalog_get (snd (migrate_catalog m c)) i = Some r" if "catalog_get c i = Some r" "rl_protected r"
    using that by (simp add: eq assms(3))
qed (simp_all add: catalog_ok_migrate migrate_catalog_reported)

lemma catalog_grant_table:
  assumes "flat_table table"
  shows "catalog_grant (apply_grandfather_table_catalog table)"
  unfolding apply_grandfather_table_catalog_def
proof (rule catalog_grant_migration)
  fix r
  note eq = apply_grandfather_table_eq [OF assms, of r]
  show "fst (apply_grandfather_table table r) \<longleftrightarrow> snd (apply_grandfather_table table r) \<noteq> r" by (simp add: eq)
  show "rl_id (snd (apply_grandfather_table table r)) = rl_id r" by (simp add: eq)
  show "rl_protected r \<Longrightarrow> snd (apply_grandfather_table table r) = r" by (simp add: apply_grandfather_table_def)
qed

interpretation split_grant: catalog_grant grandfather_split_verbs_catalog
  unfolding grandfather_split_verbs_catalog_def by (rule catalog_grant_table) (simp add: tables_flat)

interpretation revert_grant: catalog_grant grandfather_act_revert_catalog
  unfolding grandfather_act_revert_catalog_def by (rule catalog_grant_table) (simp add: tables_flat)

interpretation signing_grant: catalog_grant grandfather_signing_configure_catalog
  unfolding grandfather_signing_configure_catalog_def by (rule catalog_grant_table) (simp add: tables_flat)

interpretation search_grant: catalog_grant grandfather_seeded_search_read_catalog
  unfolding grandfather_seeded_search_read_catalog_def
proof (rule catalog_grant_migration)
  fix r :: role
  have "SearchRead \<notin> rl_permission_set r \<Longrightarrow> r\<lparr>rl_permission_set := insert SearchRead (rl_permission_set r)\<rparr> \<noteq> r"
    by (metis insertI1 role.select_convs(3) role.surjective role.update_convs(3))
  then show "fst (grandfather_seeded_search_read r) \<longleftrightarrow> snd (grandfather_seeded_search_read r) \<noteq> r"
    by (auto simp: grandfather_seeded_search_read_def)
qed (auto simp: grandfather_seeded_search_read_def)

lemma seed_missing_pair:
  "seed_missing r (ch, c) = (if catalog_get c (rl_id r) = None then (True, catalog_insert r c) else (ch, c))"
  by (simp add: seed_missing_def)

lemma find_eq_Some_ex: "(\<exists>x. find P xs = Some x) \<longleftrightarrow> (\<exists>x \<in> set xs. P x)"
  by (induction xs) auto

lemma seed_missing_fold:
  "catalog_get (snd (fold seed_missing rs (ch, c))) i =
     (case catalog_get c i of Some r \<Rightarrow> Some r | None \<Rightarrow> find (\<lambda>r. rl_id r = i) rs)"
  "(\<forall>r \<in> set rs. catalog_get c (rl_id r) \<noteq> None) \<Longrightarrow> fold seed_missing rs (ch, c) = (ch, c)"
  "\<not> fst (fold seed_missing rs (ch, c)) \<Longrightarrow> \<not> ch \<and> snd (fold seed_missing rs (ch, c)) = c"
  "catalog_ok c \<Longrightarrow> catalog_ok (snd (fold seed_missing rs (ch, c)))"
proof (induction rs arbitrary: ch c)
  case (Cons r rs)
  { case 1 show ?case by (auto simp: seed_missing_pair Cons split: option.splits)
  next
    case 2 then show ?case by (auto simp: seed_missing_pair Cons)
  next
    case 3 then show ?case by (auto simp: seed_missing_pair Cons split: if_splits dest: Cons(3))
  next
    case 4 then show ?case by (auto simp: seed_missing_pair Cons catalog_ok_insert)
  }
qed (auto split: option.split)

lemma default_owner:
  "find (\<lambda>r. rl_id r = OWNER_ROLE_ID) (filter (\<lambda>r. rl_id r \<noteq> OWNER_ROLE_ID) default_roles) = None"
  "owner_role \<in> set default_roles" "rl_id owner_role = OWNER_ROLE_ID" "rl_protected owner_role"
  by (auto simp: find_None_iff owner_role_def default_roles_def)

lemma ensure_seeded_defaults_spec:
  "catalog_get (snd (ensure_seeded_defaults c)) OWNER_ROLE_ID = Some owner_role"
  "r \<in> set default_roles \<Longrightarrow> catalog_get (snd (ensure_seeded_defaults c)) (rl_id r) \<noteq> None"
  "i \<notin> rl_id ` set default_roles \<Longrightarrow> catalog_get (snd (ensure_seeded_defaults c)) i = catalog_get c i"
  "catalog_ok c \<Longrightarrow> catalog_ok (snd (ensure_seeded_defaults c))"
  "\<not> fst (ensure_seeded_defaults c) \<Longrightarrow> snd (ensure_seeded_defaults c) = c"
proof -
  let ?c1 = "if catalog_get c OWNER_ROLE_ID \<noteq> Some owner_role then (True, catalog_insert owner_role c) else (False, c)"
  let ?rs = "filter (\<lambda>r. rl_id r \<noteq> OWNER_ROLE_ID) default_roles"
  have eq: "ensure_seeded_defaults c = fold seed_missing ?rs (fst ?c1, snd ?c1)"
    by (simp add: ensure_seeded_defaults_def)
  show "catalog_get (snd (ensure_seeded_defaults c)) OWNER_ROLE_ID = Some owner_role"
    unfolding eq seed_missing_fold(1) by (auto simp: default_owner split: option.splits)
  show "r \<in> set default_roles \<Longrightarrow> catalog_get (snd (ensure_seeded_defaults c)) (rl_id r) \<noteq> None"
    unfolding eq seed_missing_fold(1)
    by (auto simp: default_owner find_eq_Some_ex split: option.splits)
  show "catalog_get (snd (ensure_seeded_defaults c)) i = catalog_get c i" if "i \<notin> rl_id ` set default_roles"
  proof -
    have "find (\<lambda>r. rl_id r = i) ?rs = None" using that by (auto simp: find_None_iff)
    moreover have "i \<noteq> OWNER_ROLE_ID" using that default_owner(2, 3) by force
    ultimately show ?thesis
      unfolding eq seed_missing_fold(1) using default_owner(3) by (auto split: option.splits)
  qed
  show "catalog_ok c \<Longrightarrow> catalog_ok (snd (ensure_seeded_defaults c))"
    unfolding eq by (rule seed_missing_fold(4)) (simp add: catalog_ok_insert)
  show "\<not> fst (ensure_seeded_defaults c) \<Longrightarrow> snd (ensure_seeded_defaults c) = c"
    unfolding eq using seed_missing_fold(3) [of ?rs "fst ?c1" "snd ?c1"] by (auto split: if_splits)
qed

definition ensure_owner :: "role_catalog \<Rightarrow> bool \<times> role_catalog" where
  "ensure_owner c =
     (if catalog_get c OWNER_ROLE_ID \<noteq> Some owner_role then (True, catalog_insert owner_role c) else (False, c))"

lemma find_filter_neq:
  "i \<noteq> j \<Longrightarrow> find (\<lambda>r. rl_id r = i) (filter (\<lambda>r. rl_id r \<noteq> j) rs) = find (\<lambda>r. rl_id r = i) rs"
  by (induction rs) auto

lemma ensure_seeded_defaults_get:
  "catalog_get (snd (ensure_seeded_defaults c)) i =
     (if i = OWNER_ROLE_ID then Some owner_role
      else case catalog_get c i of Some r \<Rightarrow> Some r | None \<Rightarrow> find (\<lambda>r. rl_id r = i) default_roles)"
proof (cases "i = OWNER_ROLE_ID")
  case True
  then show ?thesis using ensure_seeded_defaults_spec(1) by simp
next
  case False
  have eq: "ensure_seeded_defaults c = fold seed_missing (filter (\<lambda>r. rl_id r \<noteq> OWNER_ROLE_ID) default_roles)
      (fst (ensure_owner c), snd (ensure_owner c))" for c
    by (simp add: ensure_seeded_defaults_def ensure_owner_def)
  show ?thesis
    unfolding eq seed_missing_fold(1) find_filter_neq [OF False]
    using False default_owner(3) by (simp add: ensure_owner_def split: option.split)
qed

lemma ensure_seeded_defaults_noop:
  assumes "catalog_get c OWNER_ROLE_ID = Some owner_role"
    and "\<And>r. r \<in> set default_roles \<Longrightarrow> catalog_get c (rl_id r) \<noteq> None"
  shows "ensure_seeded_defaults c = (False, c)"
  unfolding ensure_seeded_defaults_def using assms by (simp add: seed_missing_fold(2))

lemma retire_merged_roles_spec:
  "catalog_get (snd (retire_merged_roles c)) i = (if i \<in> fst ` set RETIRED_SEEDED_ROLES then None else catalog_get c i)"
  "catalog_ok c \<Longrightarrow> catalog_ok (snd (retire_merged_roles c))"
  "\<not> fst (retire_merged_roles c) \<Longrightarrow> snd (retire_merged_roles c) = c"
  "(\<And>i. i \<in> fst ` set RETIRED_SEEDED_ROLES \<Longrightarrow> catalog_get c i = None) \<Longrightarrow> retire_merged_roles c = (False, c)"
proof -
  have get: "catalog_get (fold (\<lambda>i c. snd (catalog_remove i c)) ids c) i = (if i \<in> set ids then None else catalog_get c i)"
    for ids c
    by (induction ids arbitrary: c) auto
  have ok: "catalog_ok c \<Longrightarrow> catalog_ok (fold (\<lambda>i c. snd (catalog_remove i c)) ids c)" for ids c
    by (induction ids arbitrary: c) (auto simp: catalog_ok_remove)
  show "catalog_get (snd (retire_merged_roles c)) i = (if i \<in> fst ` set RETIRED_SEEDED_ROLES then None else catalog_get c i)"
    by (auto simp: retire_merged_roles_def Let_def get)
  show "catalog_ok c \<Longrightarrow> catalog_ok (snd (retire_merged_roles c))"
    by (simp add: retire_merged_roles_def Let_def ok)
  show "\<not> fst (retire_merged_roles c) \<Longrightarrow> snd (retire_merged_roles c) = c"
    by (simp add: retire_merged_roles_def Let_def)
  show "(\<And>i. i \<in> fst ` set RETIRED_SEEDED_ROLES \<Longrightarrow> catalog_get c i = None) \<Longrightarrow> retire_merged_roles c = (False, c)"
    by (simp add: retire_merged_roles_def Let_def filter_empty_conv)
qed

text \<open>The directory's own invariant: one entry per key, and the key is the id of the user.\<close>

definition users_ok :: "user_map \<Rightarrow> bool" where
  "users_ok users \<longleftrightarrow> distinct (map fst users) \<and> (\<forall>(i, u) \<in> set users. us_id u = i)"

lemma users_ok_entry: "users_ok users \<Longrightarrow> (i, u) \<in> set users \<longleftrightarrow> map_of users i = Some u"
  by (auto simp: users_ok_def dest: map_of_SomeD)

lemma users_ok_id: "users_ok users \<Longrightarrow> map_of users i = Some u \<Longrightarrow> us_id u = i"
  by (auto simp: users_ok_def dest: map_of_SomeD)

lemma users_ok_update: "users_ok users \<Longrightarrow> us_id u = i \<Longrightarrow> users_ok (AList.update i u users)"
  using set_alist_update [of i u users] by (auto simp: users_ok_def distinct_update)

lemma retired_successor_iff: "retired_role_successor i = None \<longleftrightarrow> i \<notin> fst ` set RETIRED_SEEDED_ROLES"
  by (auto simp: retired_role_successor_def find_None_iff case_prod_beta image_iff)

lemma not_retired:
  assumes "retired_role_successor i \<noteq> None"
  shows "i \<notin> rl_id ` set default_roles"
proof -
  obtain j where "retired_role_successor i = Some j" using assms by blast
  then have "\<not> is_seeded_role i" using retired_not_seeded by blast
  then show "i \<notin> rl_id ` set default_roles" by (auto simp: is_seeded_role_def list_ex_iff)
qed

lemma moved_not_retired: "retired_role_successor (ra_role_id (move_assignment a)) = None"
proof (cases "retired_role_successor (ra_role_id a)")
  case (Some j)
  then have "is_seeded_role j" using retired_not_seeded by blast
  then have "retired_role_successor j = None" using not_retired by (force simp: is_seeded_role_def list_ex_iff)
  then show ?thesis by (simp add: move_assignment_def Some)
qed (simp add: move_assignment_def)

lemma move_holder_spec:
  "\<not> holds_retired (move_holder u)" "us_id (move_holder u) = us_id u"
  "us_role_assignments (move_holder u) = [] \<longleftrightarrow> us_role_assignments u = []"
  "\<not> holds_retired u \<Longrightarrow> move_holder u = u"
  using moved_not_retired by (auto simp: move_holder_def holds_retired_def list_ex_iff retain_first_def)

lemma map_of_migrate_retired: "map_of (snd (migrate_retired_roles users)) i = map_option move_holder (map_of users i)"
  by (simp add: migrate_retired_roles_def map_of_map)

lemma users_ok_migrate_retired: "users_ok users \<Longrightarrow> users_ok (snd (migrate_retired_roles users))"
  by (force simp: users_ok_def migrate_retired_roles_def move_holder_spec comp_def case_prod_beta)

lemma migrate_retired_noop: "(\<And>i u. (i, u) \<in> set users \<Longrightarrow> \<not> holds_retired u) \<Longrightarrow> migrate_retired_roles users = (False, users)"
  by (auto simp: migrate_retired_roles_def list_ex_iff move_holder_spec intro!: map_idI)

lemma assign_default_fold:
  assumes "users_ok users" and "distinct ids"
  shows "map_of (fold (assign_default owner_exists) (List.enumerate n ids) users) j =
      (if j \<in> set ids
       then map_option (\<lambda>u. u\<lparr>us_role_assignments := [bootstrap_assignment (\<not> owner_exists \<and> n = 0 \<and> j = hd ids)]\<rparr>) (map_of users j)
       else map_of users j)
    \<and> users_ok (fold (assign_default owner_exists) (List.enumerate n ids) users)"
  using assms
proof (induction ids arbitrary: n users)
  case (Cons i ids)
  let ?users = "assign_default owner_exists (n, i) users"
  have ok: "users_ok ?users"
    using Cons.prems(1) users_ok_id [OF Cons.prems(1)]
    by (auto simp: assign_default_def users_ok_update split: option.split)
  have get: "map_of ?users k = (if k = i then map_option (\<lambda>u. u\<lparr>us_role_assignments := [bootstrap_assignment (\<not> owner_exists \<and> n = 0)]\<rparr>) (map_of users i)
      else map_of users k)" for k
    by (auto simp: assign_default_def update_conv' split: option.split)
  show ?case
    using Cons.IH [OF ok, of "Suc n"] Cons.prems(2) by (auto simp: get)
qed simp

lemma unassigned_distinct:
  assumes "users_ok users"
  shows "distinct (map (\<lambda>(_, u). us_id u) (filter (\<lambda>(_, u). P u) users))"
proof -
  have "map (\<lambda>(_, u). us_id u) (filter (\<lambda>(_, u). P u) users) = map fst (filter (\<lambda>(_, u). P u) users)"
    using assms by (intro map_cong refl) (auto simp: users_ok_def)
  moreover have "distinct (map fst (filter (\<lambda>(_, u). P u) users))"
    using assms by (simp add: users_ok_def distinct_map_filter)
  ultimately show ?thesis by (simp only:)
qed

lemma migrate_roles_spec:
  assumes "users_ok users"
  defines "res \<equiv> migrate_roles users"
  shows "users_ok (snd res)" and "\<not> fst res \<Longrightarrow> snd res = users"
    and "fst res \<longleftrightarrow> (\<exists>(i, u) \<in> set users. us_role_assignments u = [])"
    and "(i, v) \<in> set (snd res) \<Longrightarrow> us_role_assignments v \<noteq> []"
    and "(i, v) \<in> set (snd res) \<Longrightarrow> \<exists>u. (i, u) \<in> set users \<and>
      (v = u \<or> us_role_assignments u = [] \<and> us_role_assignments v \<in> {[bootstrap_assignment b] |b. True})"
    and "fst res \<Longrightarrow> \<exists>(i, v) \<in> set (snd res). list_ex is_owner_admin (us_role_assignments v)"
    and "dom (map_of (snd res)) = dom (map_of users)"
proof -
  define un where "un = map (\<lambda>(_, u). us_id u) (filter (\<lambda>(_, u). us_role_assignments u = []) users)"
  define ordered where "ordered = sort_key (migration_order users) un"
  define owner_exists where "owner_exists \<longleftrightarrow> list_ex (\<lambda>(_, u). list_ex is_owner_admin (us_role_assignments u)) users"
  have un: "j \<in> set un \<longleftrightarrow> (\<exists>u. map_of users j = Some u \<and> us_role_assignments u = [])" for j
    using users_ok_id [OF assms(1)] by (force simp: un_def users_ok_entry [OF assms(1)])
  have "length ordered = length un" by (simp add: ordered_def)
  then have ordered: "set ordered = set un" "distinct ordered" "ordered = [] \<longleftrightarrow> un = []"
    using unassigned_distinct [OF assms(1), of "\<lambda>u. us_role_assignments u = []"]
    by (simp add: ordered_def, simp add: ordered_def un_def, fastforce)
  have res: "res = (un \<noteq> [], fold (assign_default owner_exists) (List.enumerate 0 ordered) users)"
    using ordered(3)
    by (auto simp: res_def migrate_roles_def Let_def ordered_def owner_exists_def un_def)
  note spec = assign_default_fold [OF assms(1) ordered(2), of owner_exists 0]
  have get: "map_of (snd res) j = (if j \<in> set un
       then map_option (\<lambda>u. u\<lparr>us_role_assignments := [bootstrap_assignment (\<not> owner_exists \<and> j = hd ordered)]\<rparr>) (map_of users j)
       else map_of users j)" for j
    using spec ordered(1) by (simp add: res)
  show "dom (map_of (snd res)) = dom (map_of users)" by (auto simp: dom_def get)
  show ok: "users_ok (snd res)" using spec by (simp add: res)
  show "\<not> fst res \<Longrightarrow> snd res = users" using ordered(3) by (simp add: res)
  show "fst res \<longleftrightarrow> (\<exists>(i, u) \<in> set users. us_role_assignments u = [])"
    by (auto simp: res un_def filter_empty_conv)
  show "(i, v) \<in> set (snd res) \<Longrightarrow> us_role_assignments v \<noteq> []"
    unfolding users_ok_entry [OF ok] using un by (auto simp: get split: if_splits)
  show "(i, v) \<in> set (snd res) \<Longrightarrow> \<exists>u. (i, u) \<in> set users \<and>
      (v = u \<or> us_role_assignments u = [] \<and> us_role_assignments v \<in> {[bootstrap_assignment b] |b. True})"
    unfolding users_ok_entry [OF ok] users_ok_entry [OF assms(1)] using un by (auto simp: get split: if_splits)
  show "\<exists>(i, v) \<in> set (snd res). list_ex is_owner_admin (us_role_assignments v)" if "fst res"
  proof (cases owner_exists)
    case True
    then obtain i u where iu: "map_of users i = Some u" "list_ex is_owner_admin (us_role_assignments u)"
      unfolding owner_exists_def list_ex_iff [of _ users] using users_ok_entry [OF assms(1)] by blast
    then have "i \<notin> set un" by (auto simp: un)
    then show ?thesis using iu users_ok_entry [OF ok, of i u] get [of i] by auto
  next
    case False
    have "hd ordered \<in> set un" using that ordered by (metis hd_in_set res fst_conv)
    moreover from this obtain u where "map_of users (hd ordered) = Some u" by (auto simp: un)
    ultimately have "(hd ordered, u\<lparr>us_role_assignments := [bootstrap_assignment True]\<rparr>) \<in> set (snd res)"
      using False by (simp add: users_ok_entry [OF ok] get)
    then show ?thesis by (force simp: bootstrap_assignment_def is_owner_admin_def is_global_scope_def)
  qed
qed

lemma migrate_roles_noop: "(\<And>i u. (i, u) \<in> set users \<Longrightarrow> us_role_assignments u \<noteq> []) \<Longrightarrow> migrate_roles users = (False, users)"
  by (auto simp: migrate_roles_def Let_def filter_empty_conv)

text \<open>
  A catalogue the next start-up leaves as it is: the owner is canonical, every seeded role is
  there in whatever form, and no retired one.
\<close>

definition settled_catalog :: "role_catalog \<Rightarrow> bool" where
  "settled_catalog c \<longleftrightarrow> catalog_get c OWNER_ROLE_ID = Some owner_role
     \<and> (\<forall>r \<in> set default_roles. catalog_get c (rl_id r) \<noteq> None)
     \<and> (\<forall>i \<in> fst ` set RETIRED_SEEDED_ROLES. catalog_get c i = None)"

definition all_migrations :: "string set" where
  "all_migrations = {T27_SPLIT_VERB_GRANDFATHER_MIGRATION, T30_ACT_REVERT_GRANDFATHER_MIGRATION,
     T50_SIGNING_CONFIGURE_GRANDFATHER_MIGRATION, SEARCH_READ_SEEDED_GRANDFATHER_MIGRATION}"

lemma boot_catalog:
  assumes "catalog_ok (rf_roles files)"
  shows "catalog_ok (bs_roles (boot io files))" and "settled_catalog (bs_roles (boot io files))"
    and "rf_roles (bs_files (boot io files)) = bs_roles (boot io files) \<or> \<not> bi_catalog_write io"
    and "rf_marker (bs_files (boot io files)) = rf_marker files
      \<or> rf_roles (bs_files (boot io files)) = bs_roles (boot io files)
        \<and> applied (rf_marker (bs_files (boot io files))) = applied (rf_marker files) \<union> all_migrations"
    and "bi_catalog_write io \<Longrightarrow> bi_marker_write io \<Longrightarrow> all_migrations \<subseteq> applied (rf_marker (bs_files (boot io files)))"
proof -
  define c0 where "c0 = snd (retire_merged_roles (rf_roles files))"
  define c1 where "c1 = snd (ensure_seeded_defaults c0)"
  obtain m1 c2 s2 where s2: "reconcile_split_verb_grandfather (c1, rf_marker files) = (m1, c2, s2)" by (metis prod_cases3)
  obtain m2 c3 s3 where s3: "reconcile_act_revert_grandfather (c2, s2) = (m2, c3, s3)" by (metis prod_cases3)
  obtain m3 c4 s4 where s4: "reconcile_signing_configure_grandfather (c3, s3) = (m3, c4, s4)" by (metis prod_cases3)
  obtain m4 c5 s5 where s5: "reconcile_seeded_search_read_grandfather (c4, s4) = (m4, c5, s5)" by (metis prod_cases3)
  let ?must = "fst (ensure_seeded_defaults c0) \<or> fst (retire_merged_roles (rf_roles files))
    \<or> catalog_changed m1 \<or> catalog_changed m2 \<or> catalog_changed m3 \<or> catalog_changed m4"
  let ?marked = "marker_changed m1 \<or> marker_changed m2 \<or> marker_changed m3 \<or> marker_changed m4"
  have b: "bs_roles (boot io files) = c5"
    "rf_roles (bs_files (boot io files)) = (if ?must \<and> bi_catalog_write io then c5 else rf_roles files)"
    "rf_marker (bs_files (boot io files))
      = (if ?marked \<and> (?must \<longrightarrow> bi_catalog_write io) \<and> bi_marker_write io then s5 else rf_marker files)"
    by (simp_all add: boot_def Let_def case_prod_beta c0_def [symmetric] c1_def [symmetric] s2 s3 s4 s5)
  have c1: "catalog_ok c1" "settled_catalog c1"
  proof -
    show "catalog_ok c1" using assms by (simp add: c1_def c0_def ensure_seeded_defaults_spec retire_merged_roles_spec)
    have "catalog_get c1 i = None" if "i \<in> fst ` set RETIRED_SEEDED_ROLES" for i
      using that not_retired [of i]
      by (simp add: retired_successor_iff c1_def ensure_seeded_defaults_spec c0_def retire_merged_roles_spec)
    then show "settled_catalog c1"
      using ensure_seeded_defaults_spec(1, 2) [where c = c0] by (simp add: settled_catalog_def c1_def)
  qed
  note r1 = split_grant.reconciled [OF s2 [unfolded reconcile_split_verb_grandfather_def] c1(1)]
  note r2 = revert_grant.reconciled [OF s3 [unfolded reconcile_act_revert_grandfather_def] r1(1)]
  note r3 = signing_grant.reconciled [OF s4 [unfolded reconcile_signing_configure_grandfather_def] r2(1)]
  note r4 = search_grant.reconciled [OF s5 [unfolded reconcile_seeded_search_read_grandfather_def] r3(1)]
  show "catalog_ok (bs_roles (boot io files))" using r4(1) b(1) by simp
  have "settled_catalog c2" using c1(2) r1(2) r1(3) [OF _ default_owner(4)] by (simp add: settled_catalog_def)
  then have "settled_catalog c3" using r2(2) r2(3) [OF _ default_owner(4)] by (simp add: settled_catalog_def)
  then have "settled_catalog c4" using r3(2) r3(3) [OF _ default_owner(4)] by (simp add: settled_catalog_def)
  then have "settled_catalog c5" using r4(2) r4(3) [OF _ default_owner(4)] by (simp add: settled_catalog_def)
  then show "settled_catalog (bs_roles (boot io files))" using b(1) by simp
  have unchanged: "c5 = rf_roles files" if "\<not> ?must"
    using that r1(4) r2(4) r3(4) r4(4) ensure_seeded_defaults_spec(5) [of c0] retire_merged_roles_spec(3) [of "rf_roles files"]
    by (simp add: c1_def c0_def)
  then show "rf_roles (bs_files (boot io files)) = bs_roles (boot io files) \<or> \<not> bi_catalog_write io"
    unfolding b by auto
  have s5_applied: "applied s5 = applied (rf_marker files) \<union> all_migrations"
    using r1(5) r2(5) r3(5) r4(5) by (auto simp: all_migrations_def)
  then show "rf_marker (bs_files (boot io files)) = rf_marker files
      \<or> rf_roles (bs_files (boot io files)) = bs_roles (boot io files)
        \<and> applied (rf_marker (bs_files (boot io files))) = applied (rf_marker files) \<union> all_migrations"
    using unchanged unfolding b by auto
  show "all_migrations \<subseteq> applied (rf_marker (bs_files (boot io files)))" if "bi_catalog_write io" "bi_marker_write io"
  proof (cases ?marked)
    case False
    then have "s5 = rf_marker files" using r1(7) r2(7) r3(7) r4(7) by simp
    then show ?thesis using s5_applied False by (auto simp: b)
  qed (use that s5_applied in \<open>auto simp: b\<close>)
qed

lemma boot_marked:
  assumes "all_migrations \<subseteq> applied (rf_marker files)"
  shows "bs_roles (boot io files) = snd (ensure_seeded_defaults (snd (retire_merged_roles (rf_roles files))))"
proof -
  have "reconcile_once m grant (c, rf_marker files) = (\<lparr>catalog_changed = False, marker_changed = False\<rparr>, c, rf_marker files)"
    if "m \<in> all_migrations" for m grant c
    using that assms by (auto simp: reconcile_once_def has_run_def)
  then show ?thesis
    by (simp add: boot_def Let_def case_prod_beta reconcile_split_verb_grandfather_def reconcile_act_revert_grandfather_def
        reconcile_signing_configure_grandfather_def reconcile_seeded_search_read_grandfather_def all_migrations_def)
qed

text \<open>What a start-up makes of a role of an edited catalogue, once every migration has run.\<close>

definition booted_role :: "role_catalog \<Rightarrow> u128 \<Rightarrow> role option" where
  "booted_role c i =
     (if i \<in> fst ` set RETIRED_SEEDED_ROLES then None
      else if i = OWNER_ROLE_ID then Some owner_role
      else case catalog_get c i of Some r \<Rightarrow> Some r | None \<Rightarrow> find (\<lambda>r. rl_id r = i) default_roles)"

lemma boot_marked_get:
  assumes "all_migrations \<subseteq> applied (rf_marker files)"
  shows "catalog_get (bs_roles (boot io files)) i = booted_role (rf_roles files) i"
proof -
  have "i \<noteq> OWNER_ROLE_ID \<and> find (\<lambda>r. rl_id r = i) default_roles = None"
    if "i \<in> fst ` set RETIRED_SEEDED_ROLES"
  proof -
    have "i \<notin> rl_id ` set default_roles"
      by (rule not_retired) (use that in \<open>simp add: retired_successor_iff\<close>)
    then show ?thesis using default_owner(2, 3) by (force simp: find_None_iff)
  qed
  then show ?thesis
    unfolding boot_marked [OF assms] ensure_seeded_defaults_get retire_merged_roles_spec(1) booted_role_def
    by simp
qed

lemma boot_settled:
  assumes "settled_catalog (rf_roles files)" and "all_migrations \<subseteq> applied (rf_marker files)"
  shows "bs_roles (boot io files) = rf_roles files \<and> rf_roles (bs_files (boot io files)) = rf_roles files
    \<and> rf_marker (bs_files (boot io files)) = rf_marker files"
proof -
  have "retire_merged_roles (rf_roles files) = (False, rf_roles files)"
  proof (rule retire_merged_roles_spec(4))
    show "catalog_get (rf_roles files) i = None" if "i \<in> fst ` set RETIRED_SEEDED_ROLES" for i
      using assms(1) [unfolded settled_catalog_def, THEN conjunct2, THEN conjunct2] that by (rule bspec)
  qed
  moreover have "ensure_seeded_defaults (rf_roles files) = (False, rf_roles files)"
    using assms(1) by (intro ensure_seeded_defaults_noop) (simp_all add: settled_catalog_def)
  moreover have "reconcile_once m grant (c, rf_marker files) = (\<lparr>catalog_changed = False, marker_changed = False\<rparr>, c, rf_marker files)"
    if "m \<in> all_migrations" for m grant c
    using that assms(2) by (auto simp: reconcile_once_def has_run_def)
  ultimately show ?thesis
    by (simp add: boot_def Let_def case_prod_beta reconcile_split_verb_grandfather_def reconcile_act_revert_grandfather_def
        reconcile_signing_configure_grandfather_def reconcile_seeded_search_read_grandfather_def all_migrations_def)
qed

lemma boot_users:
  assumes "users_ok (rf_users files)"
  shows "users_ok (bs_users (boot io files))"
    and "(i, v) \<in> set (bs_users (boot io files)) \<Longrightarrow> us_role_assignments v \<noteq> [] \<and> \<not> holds_retired v"
    and "\<exists>(i, u) \<in> set (rf_users files). us_role_assignments u = []
      \<Longrightarrow> \<exists>(i, v) \<in> set (bs_users (boot io files)). list_ex is_owner_admin (us_role_assignments v)"
    and "rf_users (bs_files (boot io files)) = bs_users (boot io files) \<or> \<not> bi_users_write io"
    and "fst ` set (bs_users (boot io files)) = fst ` set (rf_users files)"
    and "(i, v) \<in> set (bs_users (boot io files)) \<Longrightarrow> \<exists>u. (i, u) \<in> set (rf_users files)
      \<and> (us_role_assignments u \<noteq> [] \<and> \<not> holds_retired u \<longrightarrow> v = u)
      \<and> (us_role_assignments u = [] \<longrightarrow> us_role_assignments v \<in> {[bootstrap_assignment b] |b. True})"
proof -
  define u1 where "u1 = snd (migrate_retired_roles (rf_users files))"
  have ok: "users_ok u1" unfolding u1_def using assms by (rule users_ok_migrate_retired)
  note spec = migrate_roles_spec [OF ok]
  have b: "bs_users (boot io files) = snd (migrate_roles u1)"
    "rf_users (bs_files (boot io files)) =
      (if (fst (migrate_roles u1) \<or> fst (migrate_retired_roles (rf_users files))) \<and> bi_users_write io
       then snd (migrate_roles u1) else rf_users files)"
    by (simp_all add: boot_def Let_def case_prod_beta u1_def)
  show "users_ok (bs_users (boot io files))" using spec(1) b by simp
  show "fst ` set (bs_users (boot io files)) = fst ` set (rf_users files)"
    using spec(7) unfolding b dom_map_of_conv_image_fst by (force simp: u1_def migrate_retired_roles_def)
  show "\<exists>u. (i, u) \<in> set (rf_users files) \<and> (us_role_assignments u \<noteq> [] \<and> \<not> holds_retired u \<longrightarrow> v = u)
      \<and> (us_role_assignments u = [] \<longrightarrow> us_role_assignments v \<in> {[bootstrap_assignment b] |b. True})"
    if "(i, v) \<in> set (bs_users (boot io files))"
  proof -
    from that obtain w where w: "(i, w) \<in> set u1"
      "v = w \<or> us_role_assignments w = [] \<and> us_role_assignments v \<in> {[bootstrap_assignment b] |b. True}"
      "us_role_assignments v \<noteq> []"
      using spec(4, 5) [of i v] unfolding b by blast
    then obtain u where "(i, u) \<in> set (rf_users files)" "w = move_holder u"
      by (auto simp: u1_def migrate_retired_roles_def)
    with w(2, 3) move_holder_spec(3, 4) show ?thesis by metis
  qed
  have moved: "\<not> holds_retired u" if "(i, u) \<in> set u1" for i u
    using that by (auto simp: u1_def migrate_retired_roles_def move_holder_spec)
  have "retired_role_successor OWNER_ROLE_ID = None" "retired_role_successor COMPANY_OWNER_ROLE_ID = None"
    by code_simp+
  then have fresh: "\<not> holds_retired v" if "us_role_assignments v = [bootstrap_assignment b]" for v b
    using that by (simp add: holds_retired_def bootstrap_assignment_def)
  show "us_role_assignments v \<noteq> [] \<and> \<not> holds_retired v" if "(i, v) \<in> set (bs_users (boot io files))"
    using that spec(4, 5) [of i v] moved fresh by (fastforce simp: b)
  have "fst (migrate_roles u1) \<longleftrightarrow> (\<exists>(i, u) \<in> set (rf_users files). us_role_assignments u = [])"
    unfolding spec(3) by (force simp: u1_def migrate_retired_roles_def move_holder_spec)
  then show "\<exists>(i, u) \<in> set (rf_users files). us_role_assignments u = []
      \<Longrightarrow> \<exists>(i, v) \<in> set (bs_users (boot io files)). list_ex is_owner_admin (us_role_assignments v)"
    using spec(6) b by simp
  have "u1 = rf_users files" if "\<not> fst (migrate_retired_roles (rf_users files))"
    using that unfolding u1_def
    by (subst migrate_retired_noop) (auto simp: migrate_retired_roles_def list_ex_iff)
  then show "rf_users (bs_files (boot io files)) = bs_users (boot io files) \<or> \<not> bi_users_write io"
    using spec(2) b by auto
qed

lemma boot_users_noop:
  assumes "\<And>i u. (i, u) \<in> set (rf_users files) \<Longrightarrow> us_role_assignments u \<noteq> [] \<and> \<not> holds_retired u"
  shows "bs_users (boot io files) = rf_users files"
proof -
  have "migrate_retired_roles (rf_users files) = (False, rf_users files)" "migrate_roles (rf_users files) = (False, rf_users files)"
    using assms by (intro migrate_retired_noop migrate_roles_noop; blast)+
  then show ?thesis by (simp add: boot_def Let_def case_prod_beta)
qed

text \<open>
  C32: start-up settles the authorisation stores. Whatever catalogue and directory were loaded,
  after start-up the owner role is the canonical protected one, every seeded role exists and no
  retired one does, every user has a role and none a retired one; and if some user had none, an
  administrative owner exists. A marker is recorded only when the catalogue it attests was
  written. Take any catalogue and directory an operator has edited since the writes succeeded: the next
  start-up gives for each role id the retired ones removed, the owner restored, every other role exactly as edited, and
  a deleted seeded role put back; it leaves the catalogue as a whole alone exactly when it is settled in that sense. No user
  is added or lost; a user with a role and no retired one is untouched; a user left without a role is given
  Owner or Company Owner at the global scope; and the directory is left alone exactly when there is neither.
\<close>

theorem boot_settles:
  assumes "catalog_ok (rf_roles files)" and "users_ok (rf_users files)" and "b = boot io files"
    and "catalog_ok c" and "users_ok us" and "b' = boot io' ((bs_files b)\<lparr>rf_roles := c, rf_users := us\<rparr>)"
  shows "catalog_get (bs_roles b) OWNER_ROLE_ID = Some owner_role
    \<and> (\<forall>r \<in> set default_roles. catalog_get (bs_roles b) (rl_id r) \<noteq> None)
    \<and> (\<forall>i \<in> fst ` set RETIRED_SEEDED_ROLES. catalog_get (bs_roles b) i = None)
    \<and> (\<forall>(i, u) \<in> set (bs_users b). us_role_assignments u \<noteq> [] \<and> \<not> holds_retired u)
    \<and> ((\<exists>(i, u) \<in> set (rf_users files). us_role_assignments u = []) \<longrightarrow>
         (\<exists>(i, u) \<in> set (bs_users b). list_ex is_owner_admin (us_role_assignments u)))
    \<and> (rf_marker (bs_files b) \<noteq> rf_marker files \<longrightarrow> rf_roles (bs_files b) = bs_roles b)
    \<and> (bi_catalog_write io \<and> bi_marker_write io \<longrightarrow>
         (bs_roles b' = c \<longleftrightarrow> settled_catalog c) \<and> (\<forall>i. catalog_get (bs_roles b') i = booted_role c i))
    \<and> (bs_users b' = us \<longleftrightarrow> (\<forall>(i, u) \<in> set us. us_role_assignments u \<noteq> [] \<and> \<not> holds_retired u))
    \<and> fst ` set (bs_users b') = fst ` set us
    \<and> (\<forall>(i, v) \<in> set (bs_users b'). \<exists>u. (i, u) \<in> set us
         \<and> (us_role_assignments u \<noteq> [] \<and> \<not> holds_retired u \<longrightarrow> v = u)
         \<and> (us_role_assignments u = [] \<longrightarrow> us_role_assignments v \<in> {[bootstrap_assignment g] |g. True}))"
proof -
  let ?files = "(bs_files b)\<lparr>rf_roles := c, rf_users := us\<rparr>"
  note catalog = boot_catalog [OF assms(1), of io, folded assms(3)]
  note users = boot_users [OF assms(2), where io = io, folded assms(3)]
  have "catalog_ok (rf_roles ?files)" "users_ok (rf_users ?files)" using assms(4, 5) by simp_all
  note catalog' = boot_catalog [OF this(1), of io', folded assms(6)]
    and users' = boot_users [OF this(2), where io = io', folded assms(6)]
  have roles: "(bs_roles b' = c \<longleftrightarrow> settled_catalog c) \<and> (\<forall>i. catalog_get (bs_roles b') i = booted_role c i)"
    if "bi_catalog_write io \<and> bi_marker_write io"
  proof -
    have marked: "all_migrations \<subseteq> applied (rf_marker ?files)" using catalog(5) that by simp
    have "settled_catalog c \<Longrightarrow> bs_roles b' = c"
      using boot_settled [OF _ marked, of io'] assms(6) by simp
    moreover have "bs_roles b' = c \<Longrightarrow> settled_catalog c" using catalog'(2) by simp
    moreover have "catalog_get (bs_roles b') i = booted_role c i" for i
      using boot_marked_get [OF marked, of io' i] assms(6) by simp
    ultimately show ?thesis by blast
  qed
  have "bs_users b' = us \<longleftrightarrow> (\<forall>(i, u) \<in> set us. us_role_assignments u \<noteq> [] \<and> \<not> holds_retired u)"
  proof
    show "bs_users b' = us" if "\<forall>(i, u) \<in> set us. us_role_assignments u \<noteq> [] \<and> \<not> holds_retired u"
      using boot_users_noop [of ?files io'] that assms(6) by auto
  qed (use users'(2) in blast)
  moreover have "\<forall>(i, u) \<in> set (bs_users b). us_role_assignments u \<noteq> [] \<and> \<not> holds_retired u"
    using users(2) by blast
  moreover have "rf_marker (bs_files b) \<noteq> rf_marker files \<longrightarrow> rf_roles (bs_files b) = bs_roles b"
    using catalog(4) by blast
  moreover have "fst ` set (bs_users b') = fst ` set us" using users'(5) by simp
  moreover have "\<forall>(i, v) \<in> set (bs_users b'). \<exists>u. (i, u) \<in> set us
         \<and> (us_role_assignments u \<noteq> [] \<and> \<not> holds_retired u \<longrightarrow> v = u)
         \<and> (us_role_assignments u = [] \<longrightarrow> us_role_assignments v \<in> {[bootstrap_assignment g] |g. True})"
  proof -
    have "rf_users ?files = us" by simp
    then show ?thesis using users'(6) by auto
  qed
  moreover have "(\<exists>(i, u) \<in> set (rf_users files). us_role_assignments u = []) \<longrightarrow>
      (\<exists>(i, u) \<in> set (bs_users b). list_ex is_owner_admin (us_role_assignments u))"
    using users(3) by (rule impI)
  moreover note catalog(2) [unfolded settled_catalog_def] impI [OF roles]
  ultimately show ?thesis by (elim conjE) (intro conjI)
qed

text \<open>A first start with one user and no roles file.\<close>

definition sample_user :: user where
  "sample_user = \<lparr>us_id = 7, us_username = ''ana'', us_display_name = ''Ana'', us_email = None,
     us_created_at = ''2026-01-01T00:00:00Z'', us_active = True, us_role_assignments = [], us_language = ''auto'',
     us_two_factor_required = False, us_force_password_change = False\<rparr>"

definition sample_files :: role_files where
  "sample_files = \<lparr>rf_roles = [], rf_marker = \<lparr>applied = {}\<rparr>, rf_users = [(7, sample_user)]\<rparr>"

definition sample_io :: boot_io where
  "sample_io = \<lparr>bi_catalog_write = True, bi_marker_write = True, bi_users_write = True\<rparr>"

text \<open>The operator then empties the catalogue and takes the user's roles away.\<close>

definition edited_files :: role_files where
  "edited_files = (bs_files (boot sample_io sample_files))\<lparr>rf_roles := [], rf_users := [(7, sample_user)]\<rparr>"

theorem boot_settles_witness:
  "catalog_get (bs_roles (boot sample_io sample_files)) OWNER_ROLE_ID = Some owner_role
   \<and> (\<exists>(i, u) \<in> set (bs_users (boot sample_io sample_files)). list_ex is_owner_admin (us_role_assignments u))
   \<and> \<not> bs_roles (boot sample_io edited_files) = []
   \<and> bs_users (boot sample_io edited_files) \<noteq> [(7, sample_user)]
   \<and> fst ` set (bs_users (boot sample_io edited_files)) = {7}"
proof -
  have ok: "catalog_ok (rf_roles sample_files)" "users_ok (rf_users sample_files)"
    "catalog_ok []" "users_ok [(7, sample_user)]"
    by (simp_all add: sample_files_def sample_user_def catalog_ok_def users_ok_def)
  note facts = boot_settles [OF ok(1, 2) refl ok(3, 4) refl, of sample_io sample_io, folded edited_files_def]
  have "\<exists>(i, u) \<in> set (rf_users sample_files). us_role_assignments u = []" "us_role_assignments sample_user = []"
    by (simp_all add: sample_files_def sample_user_def)
  moreover have "\<not> settled_catalog []" by (simp add: settled_catalog_def catalog_get_def)
  moreover have "bi_catalog_write sample_io \<and> bi_marker_write sample_io" by (simp add: sample_io_def)
  ultimately show ?thesis using facts by (elim conjE) (intro conjI, simp_all)
qed

end
