(* ===== verification/Write_Through.thy ===== *)
theory Write_Through
  imports Directory Ledger
begin

section \<open>Handlers that write through the store\<close>

text \<open>
  What the request handlers of \<open>src/crates/chancela-api/src/\<close> share. A handler is a call on the state
  of the server; the \<open>?\<close> operator on a check that does not touch the state is \<open>attempt\<close>. Appended
  events are written through to the durable store (\<open>AppState::persist_write_through\<close> of \<open>lib.rs\<close>),
  and a refusal of the store takes them out of the ledger in memory again. Whether the store, or the
  leadership check of a cluster, refuses is the environment's: an error, or none.
\<close>

definition attempt :: "'e + 'a \<Rightarrow> 's \<Rightarrow> ('a \<Rightarrow> ('e, 'r, 's) call) \<Rightarrow> ('e, 'r, 's) call" where
  "attempt r st k = (case r of Inl e \<Rightarrow> (Err e, st) | Inr a \<Rightarrow> k a)"

lemma attempt_simps [simp]: "attempt (Inl e) st k = (Err e, st)" "attempt (Inr a) st k = k a"
  by (simp_all add: attempt_def)

lemma attempt_Ok_iff: "attempt r st k = (Ok x, st') \<longleftrightarrow> (\<exists>a. r = Ok a \<and> k a = (Ok x, st'))"
  by (cases r) simp_all

lemma failure_keeps_attempt:
  "(\<And>a. r = Ok a \<Longrightarrow> failure_keeps (k a) st) \<Longrightarrow> failure_keeps (attempt r st k) st"
  by (cases r) (simp_all add: failure_keeps_def)

definition refused :: "api_error option \<Rightarrow> api_error + unit" where
  "refused outcome = (case outcome of Some e \<Rightarrow> Err e | None \<Rightarrow> Ok ())"

definition ok_or :: "api_error \<Rightarrow> 'a option \<Rightarrow> api_error + 'a" where
  "ok_or e x = (case x of Some a \<Rightarrow> Ok a | None \<Rightarrow> Err e)"

lemma refused_Ok_iff: "refused outcome = Ok u \<longleftrightarrow> outcome = None"
  by (simp add: refused_def split: option.split)

lemma ok_or_Ok_iff: "ok_or e x = Ok a \<longleftrightarrow> x = Some a"
  by (simp add: ok_or_def split: option.split)

text \<open>\<open>require_permission\<close> of \<open>authz.rs\<close>: resolve the actor, then require one permission at a scope.\<close>

definition require_permission ::
  "directory \<Rightarrow> offset_date_time \<Rightarrow> current_actor \<Rightarrow> permission \<Rightarrow> scope \<Rightarrow> api_error + unit" where
  "require_permission d now actor p s =
     (case authorizer_of d now actor of Inl e \<Rightarrow> Err e | Inr az \<Rightarrow> require az p s)"

definition rollback_ledger_events :: "ledger_env \<Rightarrow> nat \<Rightarrow> ledger \<Rightarrow> ledger" where
  "rollback_ledger_events env count l =
     fst (try_from_events env (take (length (events l) - count) (events l)))"

definition persist_write_through ::
  "ledger_env \<Rightarrow> api_error option \<Rightarrow> nat \<Rightarrow> ledger \<Rightarrow> (api_error, unit, ledger) call" where
  "persist_write_through env outcome event_count l =
     (case outcome of
        None \<Rightarrow> (Ok (), l)
      | Some e \<Rightarrow> (Err e, fst (try_from_events env (take (length (events l) - event_count) (events l)))))"

lemma rollback_appended [simp]:
  "rollback_ledger_events env (length es) \<lparr>events = evs @ es\<rparr> = \<lparr>events = evs\<rparr>"
  by (simp add: rollback_ledger_events_def try_from_events_def Let_def)

lemma write_through_appended:
  "persist_write_through env outcome (length es) \<lparr>events = evs @ es\<rparr> =
     (case outcome of None \<Rightarrow> (Ok (), \<lparr>events = evs @ es\<rparr>) | Some e \<Rightarrow> (Err e, \<lparr>events = evs\<rparr>))"
  by (simp add: persist_write_through_def try_from_events_def Let_def split: option.split)

lemmas write_through_one = write_through_appended [where es = "[e]" for e, simplified]

lemma write_through_two:
  "persist_write_through env outcome 2 \<lparr>events = evs @ [e, e']\<rparr> =
     (case outcome of None \<Rightarrow> (Ok (), \<lparr>events = evs @ [e, e']\<rparr>) | Some err \<Rightarrow> (Err err, \<lparr>events = evs\<rparr>))"
  using write_through_appended [of env outcome "[e, e']" evs] by (simp add: numeral_2_eq_2)

lemmas rollback_one = rollback_appended [where es = "[e]" for e, simplified]

lemma write_through_none: "persist_write_through env outcome 0 l = (refused outcome, l)"
  by (simp add: persist_write_through_def try_from_events_def refused_def Let_def split: option.split)

end
