(* ===== verification/Role_Admin.thy ===== *)
theory Role_Admin
  imports Write_Through
begin

section \<open>Administering roles, assignments, delegations and users\<close>

text \<open>
  Handlers of \<open>src/crates/chancela-api/src/\<close> that change the authorisation stores:
  \<open>roles.rs\<close> (create, edit, delete and reconcile roles; assign and unassign them),
  \<open>delegations.rs\<close> (grant, revoke, suspend, resume), \<open>users.rs\<close> (create and edit users) and
  \<open>account.rs\<close> (edit one's own profile, suspend oneself), with the audit event each records in the ledger.
  Sign-up and invitations (\<open>signup.rs\<close>), privacy erasure, the handlers of passwords, keys and second
  factors, and resets change users too and are not modelled.

  A handler is one step on the state of the server: the interleaving of two handlers between
  their awaits is not modelled, nor are the attestation of the event, the cache notices to other
  nodes, the welcome e-mail and the ending of sessions. The texts of the errors are left out.
  What a handler reads from outside is its \<open>io\<close>: the clock readings, fresh identifiers, and the
  outcome of each write (an error, or none).
\<close>

subsection \<open>State, environment and outcomes\<close>

record admin_state =
  ad_dir :: directory
  ad_signup_default :: u128
  ad_totp_enabled :: bool
  ad_uninitialised :: bool
  ad_ledger :: ledger

record admin_io =
  io_now :: offset_date_time
  io_granted_at :: offset_date_time
  io_event_time :: offset_date_time
  io_event_id :: u128
  io_new_id :: u128
  io_persist :: "api_error option"
  io_write_through :: "api_error option"
  io_credentials :: "api_error option"

text \<open>What is written to the wire and to the ledger.\<close>

record seeded_role_drift_view =
  dr_missing_default_permissions :: "string list"
  dr_requires_manual_review :: bool

record role_view =
  rv_id :: string
  rv_name :: string
  rv_permissions :: "string list"
  rv_protected :: bool
  rv_seeded_role_drift :: "seeded_role_drift_view option"

record reconciliation_event =
  re_role_id :: string
  re_role_name :: string
  re_before_permissions :: "string list"
  re_added_permissions :: "string list"
  re_after_permissions :: "string list"

record assignment_event =
  as_user_id :: string
  as_role_id :: string
  as_scope :: scope

record delegated_role_view =
  drv_id :: string
  drv_name :: string
  drv_permissions :: "string list"
  drv_known :: bool

record delegation_view =
  dv_id :: string
  dv_from :: string
  dv_to :: string
  dv_roles :: "delegated_role_view list"
  dv_permission :: "string option"
  dv_permissions :: "string list"
  dv_scope :: scope
  dv_granted_at :: string
  dv_starts_at :: string
  dv_expires_at :: "string option"
  dv_legal_basis :: "string option"
  dv_revoked :: bool
  dv_suspended :: bool
  dv_revoked_at :: "string option"
  dv_revoked_by :: "string option"

text \<open>
  The libraries the handlers call: the ledger's, the text of a UUID, the RFC 3339 parser and
  serde. A scope is serialised through its wire form, which has the same constructors.
\<close>

record admin_env =
  ae_ledger :: ledger_env
  ae_uuid_text :: "u128 \<Rightarrow> string"
  ae_parse_rfc3339 :: "string \<Rightarrow> offset_date_time option"
  ae_role_json :: "role_view \<Rightarrow> byte list option"
  ae_reconciliation_json :: "reconciliation_event \<Rightarrow> byte list option"
  ae_assignment_json :: "assignment_event \<Rightarrow> byte list option"
  ae_delegation_json :: "delegation_view \<Rightarrow> byte list option"
  ae_user_json :: "user \<Rightarrow> byte list option"

definition permission_strings :: "permission set \<Rightarrow> string list" where
  "permission_strings ps = map permission_str (sorted_list_of_set ps)"

definition seeded_missing_defaults :: "role \<Rightarrow> api_error + permission set" where
  "seeded_missing_defaults r =
     (case find (\<lambda>s. rl_id s = rl_id r) default_roles of
        None \<Rightarrow> Err Conflict
      | Some seeded \<Rightarrow>
          if rl_protected seeded \<or> rl_protected r \<or> rl_id r = OWNER_ROLE_ID then Err Conflict
          else Ok (rl_permission_set seeded - rl_permission_set r))"

definition seeded_role_drift :: "role \<Rightarrow> seeded_role_drift_view option" where
  "seeded_role_drift r =
     (case seeded_missing_defaults r of
        Inl _ \<Rightarrow> None
      | Inr missing \<Rightarrow> Some \<lparr>dr_missing_default_permissions = permission_strings missing,
          dr_requires_manual_review = (permission_strings missing \<noteq> [])\<rparr>)"

definition role_view_of :: "admin_env \<Rightarrow> role \<Rightarrow> role_view" where
  "role_view_of env r =
     \<lparr>rv_id = ae_uuid_text env (rl_id r), rv_name = rl_name r, rv_permissions = permission_strings (rl_permission_set r),
      rv_protected = rl_protected r, rv_seeded_role_drift = seeded_role_drift r\<rparr>"

definition seeded_reconciliation_proposal :: "role \<Rightarrow> api_error + permission set \<times> permission set" where
  "seeded_reconciliation_proposal r =
     (case seeded_missing_defaults r of
        Inl e \<Rightarrow> Err e
      | Inr missing \<Rightarrow> Ok (missing, rl_permission_set r \<union> missing))"

definition delegated_role_view_of :: "admin_env \<Rightarrow> role_catalog \<Rightarrow> u128 \<Rightarrow> delegated_role_view" where
  "delegated_role_view_of env c i =
     (case catalog_get c i of
        Some r \<Rightarrow> \<lparr>drv_id = ae_uuid_text env i, drv_name = rl_name r,
          drv_permissions = permission_strings (rl_permission_set r), drv_known = True\<rparr>
      | None \<Rightarrow> \<lparr>drv_id = ae_uuid_text env i, drv_name = ae_uuid_text env i, drv_permissions = [], drv_known = False\<rparr>)"

definition delegation_view_of :: "admin_env \<Rightarrow> role_catalog \<Rightarrow> stored_delegation \<Rightarrow> delegation_view" where
  "delegation_view_of env c sd =
     (let d = sd_inner sd; format = format_rfc3339 (ae_ledger env) in
      \<lparr>dv_id = ae_uuid_text env (sd_id sd), dv_from = ae_uuid_text env (dl_from d), dv_to = ae_uuid_text env (dl_to d),
       dv_roles = map (delegated_role_view_of env c) (dl_roles d),
       dv_permission = map_option permission_str (dl_permission d),
       dv_permissions = map permission_str (granted_permissions d c), dv_scope = dl_scope d,
       dv_granted_at = sd_granted_at sd,
       dv_starts_at = (case format (dl_starts_at d) of Some s \<Rightarrow> s | None \<Rightarrow> []),
       dv_expires_at = Option.bind (dl_expires_at d) format, dv_legal_basis = dl_legal_basis d,
       dv_revoked = dl_revoked d, dv_suspended = dl_suspended d, dv_revoked_at = sd_revoked_at sd,
       dv_revoked_by = map_option (ae_uuid_text env) (sd_revoked_by sd)\<rparr>)"

subsection \<open>Recording an event\<close>

text \<open>
  \<open>record_role_event\<close>, \<open>record_delegation_event\<close> and the tail of \<open>record_user_event\<close>: serialise the
  payload, append, write through.
\<close>

definition record_event ::
  "admin_env \<Rightarrow> admin_io \<Rightarrow> string \<Rightarrow> string \<Rightarrow> string \<Rightarrow> string \<Rightarrow> byte list option \<Rightarrow> admin_state
     \<Rightarrow> (api_error, unit, admin_state) call" where
  "record_event env io actor scope_id kind justification payload st =
     (case payload of
        None \<Rightarrow> (Err Internal, st)
      | Some bytes \<Rightarrow>
          let l = snd (append_event (ae_ledger env) (ad_ledger st) (io_event_id io) (io_event_time io) actor scope_id kind
                (Some justification) bytes) in
          case persist_write_through (ae_ledger env) (io_write_through io) 1 l of (res, l') \<Rightarrow> (res, st\<lparr>ad_ledger := l'\<rparr>))"

text \<open>
  The tail every handler shares: the changed aggregate is already in memory when its side-car
  store is written; an error of that write ends the handler before the event.
\<close>

definition persist_and_record ::
  "admin_env \<Rightarrow> admin_io \<Rightarrow> string \<Rightarrow> string \<Rightarrow> string \<Rightarrow> string \<Rightarrow> byte list option \<Rightarrow> admin_state
     \<Rightarrow> (api_error, unit, admin_state) call" where
  "persist_and_record env io actor scope_id kind justification payload st =
     (case io_persist io of
        Some e \<Rightarrow> (Err e, st)
      | None \<Rightarrow> record_event env io actor scope_id kind justification payload st)"

definition set_roles :: "role_catalog \<Rightarrow> admin_state \<Rightarrow> admin_state" where
  "set_roles c st = st\<lparr>ad_dir := (ad_dir st)\<lparr>dr_roles := c\<rparr>\<rparr>"

definition set_users :: "user_map \<Rightarrow> admin_state \<Rightarrow> admin_state" where
  "set_users us st = st\<lparr>ad_dir := (ad_dir st)\<lparr>dr_users := us\<rparr>\<rparr>"

definition set_delegations :: "delegation_table \<Rightarrow> admin_state \<Rightarrow> admin_state" where
  "set_delegations ds st = st\<lparr>ad_dir := (ad_dir st)\<lparr>dr_delegations := ds\<rparr>\<rparr>"

abbreviation st_roles :: "admin_state \<Rightarrow> role_catalog" where "st_roles st \<equiv> dr_roles (ad_dir st)"

abbreviation st_users :: "admin_state \<Rightarrow> user_map" where "st_users st \<equiv> dr_users (ad_dir st)"

abbreviation st_delegations :: "admin_state \<Rightarrow> delegation_table" where "st_delegations st \<equiv> dr_delegations (ad_dir st)"

abbreviation authorize :: "admin_io \<Rightarrow> current_actor \<Rightarrow> admin_state \<Rightarrow> api_error + authorizer" where
  "authorize io actor st \<equiv> authorizer_of (ad_dir st) (io_now io) actor"

subsection \<open>Roles\<close>

definition validate_role_name :: "string \<Rightarrow> api_error + string" where
  "validate_role_name raw =
     (let name = trim raw in
      if name = [] then Err Unprocessable
      else if char_count name > 64 then Err Unprocessable
      else Ok name)"

definition refuse_signup_default_role_edit :: "u128 \<Rightarrow> role \<Rightarrow> api_error + unit" where
  "refuse_signup_default_role_edit configured resulting =
     (if rl_id resulting \<noteq> configured then Ok ()
      else case signup_default_refusal_of resulting of Some _ \<Rightarrow> Err Unprocessable | None \<Rightarrow> Ok ())"

definition create_role ::
  "admin_env \<Rightarrow> admin_io \<Rightarrow> current_actor \<Rightarrow> string \<Rightarrow> permission list \<Rightarrow> admin_state \<Rightarrow> (api_error, unit, admin_state) call" where
  "create_role env io actor raw_name permissions st =
     (case validate_role_name raw_name of
        Inl e \<Rightarrow> (Err e, st)
      | Inr name \<Rightarrow>
     (case authorize io actor st of
        Inl e \<Rightarrow> (Err e, st)
      | Inr az \<Rightarrow>
      if \<not> permits az RoleManage scope.Global then (Err Forbidden, st)
      else if \<not> az_can_define_role az (sorted_list_of_set (set permissions)) then (Err Forbidden, st)
      else
        let r = \<lparr>rl_id = io_new_id io, rl_name = name, rl_permission_set = set permissions, rl_protected = False\<rparr>
        in persist_and_record env io (actor_resolve actor ''api'') (''role:'' @ ae_uuid_text env (rl_id r))
             ''role.created'' ''custom role created'' (ae_role_json env (role_view_of env r))
             (set_roles (catalog_insert r (st_roles st)) st)))"

definition patch_role ::
  "admin_env \<Rightarrow> admin_io \<Rightarrow> current_actor \<Rightarrow> u128 \<Rightarrow> string option \<Rightarrow> permission list option \<Rightarrow> admin_state
     \<Rightarrow> (api_error, unit, admin_state) call" where
  "patch_role env io actor i name_req permissions_req st =
     (case authorize io actor st of
        Inl e \<Rightarrow> (Err e, st)
      | Inr az \<Rightarrow>
      if \<not> permits az RoleManage scope.Global then (Err Forbidden, st)
      else case catalog_get (st_roles st) i of
        None \<Rightarrow> (Err NotFound, st)
      | Some existing \<Rightarrow>
      if rl_protected existing then (Err Forbidden, st)
      else case (case name_req of Some n \<Rightarrow> validate_role_name n | None \<Rightarrow> Ok (rl_name existing)) of
        Inl e \<Rightarrow> (Err e, st)
      | Inr new_name \<Rightarrow>
      let new_perms = (case permissions_req of Some ps \<Rightarrow> set ps | None \<Rightarrow> rl_permission_set existing) in
      if \<not> az_can_define_role az (sorted_list_of_set new_perms) then (Err Forbidden, st)
      else
        let updated = \<lparr>rl_id = i, rl_name = new_name, rl_permission_set = new_perms, rl_protected = False\<rparr> in
        case refuse_signup_default_role_edit (ad_signup_default st) updated of
          Inl e \<Rightarrow> (Err e, st)
        | Inr _ \<Rightarrow>
          persist_and_record env io (actor_resolve actor ''api'') (''role:'' @ ae_uuid_text env i)
            ''role.updated'' ''custom role updated'' (ae_role_json env (role_view_of env updated))
            (set_roles (catalog_insert updated (st_roles st)) st))"

definition delete_role ::
  "admin_env \<Rightarrow> admin_io \<Rightarrow> current_actor \<Rightarrow> u128 \<Rightarrow> admin_state \<Rightarrow> (api_error, unit, admin_state) call" where
  "delete_role env io actor i st =
     (case authorize io actor st of
        Inl e \<Rightarrow> (Err e, st)
      | Inr az \<Rightarrow>
      if \<not> permits az RoleManage scope.Global then (Err Forbidden, st)
      else case catalog_get (st_roles st) i of
        None \<Rightarrow> (Err NotFound, st)
      | Some target \<Rightarrow>
      if \<not> can_be_deleted target then (Err Forbidden, st)
      else
        persist_and_record env io (actor_resolve actor ''api'') (''role:'' @ ae_uuid_text env (rl_id target))
          ''role.deleted'' ''custom role deleted'' (ae_role_json env (role_view_of env target))
          (set_roles (catalog_from (filter (\<lambda>r. rl_id r \<noteq> i) (map snd (st_roles st)))) st))"

definition apply_seeded_role_reconciliation ::
  "admin_env \<Rightarrow> admin_io \<Rightarrow> current_actor \<Rightarrow> u128 \<Rightarrow> admin_state \<Rightarrow> (api_error, unit, admin_state) call" where
  "apply_seeded_role_reconciliation env io actor i st =
     (case authorize io actor st of
        Inl e \<Rightarrow> (Err e, st)
      | Inr az \<Rightarrow>
      if \<not> permits az RoleManage scope.Global then (Err Forbidden, st)
      else case catalog_get (st_roles st) i of
        None \<Rightarrow> (Err NotFound, st)
      | Some before \<Rightarrow>
      (case seeded_reconciliation_proposal before of
        Inl e \<Rightarrow> (Err e, st)
      | Inr (missing, proposed) \<Rightarrow>
      if \<not> az_can_define_role az (sorted_list_of_set proposed) then (Err Forbidden, st)
      else if missing = {} then (Ok (), st)
      else
        let updated = before\<lparr>rl_permission_set := proposed\<rparr> in
        case refuse_signup_default_role_edit (ad_signup_default st) updated of
          Inl e \<Rightarrow> (Err e, st)
        | Inr _ \<Rightarrow>
          let payload = \<lparr>re_role_id = ae_uuid_text env (rl_id updated), re_role_name = rl_name updated,
                re_before_permissions = permission_strings (rl_permission_set before),
                re_added_permissions = permission_strings missing,
                re_after_permissions = permission_strings (rl_permission_set updated)\<rparr>
          in persist_and_record env io (actor_resolve actor ''api'') (''role:'' @ ae_uuid_text env (rl_id updated))
               ''role.seeded_drift_reconciled'' ''admin explicitly applied seeded role drift reconciliation''
               (ae_reconciliation_json env payload)
               (set_roles (catalog_insert updated (st_roles st)) st)))"

subsection \<open>Assignments\<close>

definition record_assignment ::
  "admin_env \<Rightarrow> admin_io \<Rightarrow> current_actor \<Rightarrow> u128 \<Rightarrow> role_assignment \<Rightarrow> string \<Rightarrow> string \<Rightarrow> admin_state
     \<Rightarrow> (api_error, unit, admin_state) call" where
  "record_assignment env io actor target a kind justification st =
     persist_and_record env io (actor_resolve actor ''api'') (''user:'' @ ae_uuid_text env target) kind justification
       (ae_assignment_json env \<lparr>as_user_id = ae_uuid_text env target, as_role_id = ae_uuid_text env (ra_role_id a),
          as_scope = ra_scope a\<rparr>) st"

definition assign_role ::
  "admin_env \<Rightarrow> admin_io \<Rightarrow> current_actor \<Rightarrow> u128 \<Rightarrow> role_assignment \<Rightarrow> admin_state \<Rightarrow> (api_error, unit, admin_state) call" where
  "assign_role env io actor target a st =
     (case authorize io actor st of
        Inl e \<Rightarrow> (Err e, st)
      | Inr az \<Rightarrow>
      if \<not> permits az RoleAssign (ra_scope a) then (Err Forbidden, st)
      else case catalog_get (st_roles st) (ra_role_id a) of
        None \<Rightarrow> (Err NotFound, st)
      | Some r \<Rightarrow>
      if \<not> az_can_assign_role az r (ra_scope a) then (Err Forbidden, st)
      else case map_of (st_users st) target of
        None \<Rightarrow> (Err NotFound, st)
      | Some u \<Rightarrow>
        record_assignment env io actor target a ''role.assigned'' ''role assigned to user''
          (set_users (AList.update target (u\<lparr>us_role_assignments := push_new a (us_role_assignments u)\<rparr>) (st_users st)) st))"

definition unassign_role ::
  "admin_env \<Rightarrow> admin_io \<Rightarrow> current_actor \<Rightarrow> u128 \<Rightarrow> role_assignment \<Rightarrow> admin_state \<Rightarrow> (api_error, unit, admin_state) call" where
  "unassign_role env io actor target a st =
     (case authorize io actor st of
        Inl e \<Rightarrow> (Err e, st)
      | Inr az \<Rightarrow>
      if \<not> permits az RoleAssign (ra_scope a) then (Err Forbidden, st)
      else case map_of (st_users st) target of
        None \<Rightarrow> (Err NotFound, st)
      | Some u \<Rightarrow>
      if a \<in> set (us_role_assignments u) \<and> is_owner_admin a \<and> \<not> last_owner_guard (count_owner_admins (st_users st))
      then (Err Conflict, st)
      else
        record_assignment env io actor target a ''role.unassigned'' ''role removed from user''
          (set_users (AList.update target (u\<lparr>us_role_assignments := filter (\<lambda>b. b \<noteq> a) (us_role_assignments u)\<rparr>) (st_users st)) st))"

subsection \<open>Delegations\<close>

definition MAX_DELEGATION_LEGAL_BASIS_CHARS :: nat where "MAX_DELEGATION_LEGAL_BASIS_CHARS = 1024"

record grant_request =
  gr_to :: u128
  gr_roles :: "u128 list"
  gr_permission :: "permission option"
  gr_permissions :: "permission list"
  gr_scope :: scope
  gr_starts_at :: "string option"
  gr_expires_at :: "string option"
  gr_legal_basis :: "string option"

definition requested_roles :: "u128 list \<Rightarrow> api_error + u128 list" where
  "requested_roles roles =
     (let out = fold push_new roles [] in if out = [] then Err Unprocessable else Ok out)"

definition parse_optional_rfc3339 :: "admin_env \<Rightarrow> string option \<Rightarrow> api_error + offset_date_time option" where
  "parse_optional_rfc3339 env value =
     (case value of
        None \<Rightarrow> Ok None
      | Some s \<Rightarrow> (case ae_parse_rfc3339 env s of None \<Rightarrow> Err Unprocessable | Some t \<Rightarrow> Ok (Some t)))"

definition normalize_grant_legal_basis :: "string option \<Rightarrow> api_error + string" where
  "normalize_grant_legal_basis value =
     (case value of
        None \<Rightarrow> Err Unprocessable
      | Some raw \<Rightarrow>
          let trimmed = trim raw in
          if trimmed = [] then Err Unprocessable
          else if char_count trimmed > MAX_DELEGATION_LEGAL_BASIS_CHARS then Err Unprocessable
          else Ok trimmed)"

definition format_time :: "admin_env \<Rightarrow> offset_date_time \<Rightarrow> string" where
  "format_time env t = (case format_rfc3339 (ae_ledger env) t of Some s \<Rightarrow> s | None \<Rightarrow> [])"

definition record_delegation ::
  "admin_env \<Rightarrow> admin_io \<Rightarrow> current_actor \<Rightarrow> stored_delegation \<Rightarrow> string \<Rightarrow> string \<Rightarrow> admin_state
     \<Rightarrow> (api_error, unit, admin_state) call" where
  "record_delegation env io actor sd kind justification st =
     (let view = delegation_view_of env (st_roles st) sd in
      persist_and_record env io (actor_resolve actor ''api'') (''delegation:'' @ dv_id view) kind justification
        (ae_delegation_json env view) st)"

text \<open>The justification begins with a Portuguese word of eight bytes in UTF-8.\<close>

definition FUNCAO_DELEGATED :: string where
  "FUNCAO_DELEGATED = ''fun'' @ map char_of [0xC3, 0xA7, 0xC3, 0xA3 :: nat] @ ''o delegated''"

text \<open>The delegation a request describes, once everything is checked.\<close>

definition requested_delegation ::
  "admin_env \<Rightarrow> admin_io \<Rightarrow> u128 \<Rightarrow> grant_request \<Rightarrow> u128 list \<Rightarrow> api_error + stored_delegation" where
  "requested_delegation env io grantor req roles =
     (case normalize_grant_legal_basis (gr_legal_basis req) of
        Inl e \<Rightarrow> Err e
      | Inr legal_basis \<Rightarrow>
     (case parse_optional_rfc3339 env (gr_starts_at req) of
        Inl e \<Rightarrow> Err e
      | Inr starts \<Rightarrow>
     (case parse_optional_rfc3339 env (gr_expires_at req) of
        Inl e \<Rightarrow> Err e
      | Inr expires \<Rightarrow>
     (case with_roles grantor (gr_to req) roles (gr_scope req) of
        None \<Rightarrow> Err Unprocessable
      | Some d \<Rightarrow>
          let starts_at = (case starts of Some t \<Rightarrow> t | None \<Rightarrow> io_granted_at io);
              inner = with_legal_basis (Some legal_basis) (starting_at starts_at d);
              inner' = (case expires of Some e \<Rightarrow> expiring_at e inner | None \<Rightarrow> inner)
          in Ok (stored_delegation_new (io_new_id io) (format_time env (io_granted_at io)) inner')))))"

definition grant_delegation ::
  "admin_env \<Rightarrow> admin_io \<Rightarrow> current_actor \<Rightarrow> grant_request \<Rightarrow> admin_state \<Rightarrow> (api_error, unit, admin_state) call" where
  "grant_delegation env io actor req st =
     (if gr_permission req \<noteq> None \<or> gr_permissions req \<noteq> [] then (Err Unprocessable, st)
      else case requested_roles (gr_roles req) of
        Inl e \<Rightarrow> (Err e, st)
      | Inr requested \<Rightarrow>
     (case authorize io actor st of
        Inl e \<Rightarrow> (Err e, st)
      | Inr az \<Rightarrow>
      if \<not> permits az DelegationGrant (gr_scope req) then (Err Forbidden, st)
      else case az_can_delegate_roles az requested (st_roles st) (gr_scope req) of
        Inl _ \<Rightarrow> (Err Forbidden, st)
      | Inr _ \<Rightarrow>
     (case az_principal_id az of
        Inl e \<Rightarrow> (Err e, st)
      | Inr grantor \<Rightarrow>
      if map_of (st_users st) (gr_to req) = None then (Err NotFound, st)
      else case requested_delegation env io grantor req requested of
        Inl e \<Rightarrow> (Err e, st)
      | Inr stored \<Rightarrow>
          record_delegation env io actor stored ''delegation.granted'' FUNCAO_DELEGATED
            (set_delegations (AList.update (sd_id stored) stored (st_delegations st)) st))))"

text \<open>The checks that revoking, suspending and resuming share.\<close>

definition delegation_to_change ::
  "admin_io \<Rightarrow> current_actor \<Rightarrow> u128 \<Rightarrow> admin_state \<Rightarrow> api_error + u128 \<times> stored_delegation" where
  "delegation_to_change io actor i st =
     (case authorize io actor st of
        Inl e \<Rightarrow> Err e
      | Inr az \<Rightarrow>
     (case az_principal_id az of
        Inl e \<Rightarrow> Err e
      | Inr p \<Rightarrow>
     (case map_of (st_delegations st) i of
        None \<Rightarrow> Err NotFound
      | Some sd \<Rightarrow>
          if dl_from (sd_inner sd) \<noteq> p \<and> \<not> permits az DelegationRevoke (dl_scope (sd_inner sd)) then Err Forbidden
          else Ok (p, sd))))"

definition revoke_delegation ::
  "admin_env \<Rightarrow> admin_io \<Rightarrow> current_actor \<Rightarrow> u128 \<Rightarrow> admin_state \<Rightarrow> (api_error, unit, admin_state) call" where
  "revoke_delegation env io actor i st =
     (case delegation_to_change io actor i st of
        Inl e \<Rightarrow> (Err e, st)
      | Inr (p, sd) \<Rightarrow>
      if dl_revoked (sd_inner sd) then (Ok (), st)
      else
        let updated = sd\<lparr>sd_revoked_at := Some (format_time env (io_granted_at io)), sd_revoked_by := Some p,
              sd_inner := (sd_inner sd)\<lparr>dl_revoked := True\<rparr>\<rparr>
        in record_delegation env io actor updated ''delegation.revoked'' ''delegation revoked''
             (set_delegations (AList.update i updated (st_delegations st)) st))"

definition set_suspended ::
  "admin_env \<Rightarrow> admin_io \<Rightarrow> current_actor \<Rightarrow> u128 \<Rightarrow> bool \<Rightarrow> admin_state \<Rightarrow> (api_error, unit, admin_state) call" where
  "set_suspended env io actor i suspended st =
     (case delegation_to_change io actor i st of
        Inl e \<Rightarrow> (Err e, st)
      | Inr (p, sd) \<Rightarrow>
      if dl_revoked (sd_inner sd) then (Err Unprocessable, st)
      else if dl_suspended (sd_inner sd) = suspended then (Ok (), st)
      else
        let updated = sd\<lparr>sd_inner := (sd_inner sd)\<lparr>dl_suspended := suspended\<rparr>\<rparr>
        in record_delegation env io actor updated
             (if suspended then ''delegation.suspended'' else ''delegation.resumed'')
             (if suspended then ''delegation suspended'' else ''delegation resumed'')
             (set_delegations (AList.update i updated (st_delegations st)) st))"

definition suspend_delegation ::
  "admin_env \<Rightarrow> admin_io \<Rightarrow> current_actor \<Rightarrow> u128 \<Rightarrow> admin_state \<Rightarrow> (api_error, unit, admin_state) call" where
  "suspend_delegation env io actor i st = set_suspended env io actor i True st"

definition resume_delegation ::
  "admin_env \<Rightarrow> admin_io \<Rightarrow> current_actor \<Rightarrow> u128 \<Rightarrow> admin_state \<Rightarrow> (api_error, unit, admin_state) call" where
  "resume_delegation env io actor i st = set_suspended env io actor i False st"

subsection \<open>Users\<close>

record create_user_request =
  cu_username :: string
  cu_display_name :: "string option"
  cu_email :: "string option"
  cu_role :: "role_assignment option"
  cu_send_welcome_email :: bool
  cu_language :: string

record patch_user_request =
  pu_display_name :: "string option"
  pu_email :: "string option option"
  pu_active :: "bool option"
  pu_language :: "string option"
  pu_two_factor_required :: "bool option"

record patch_my_profile =
  mp_display_name :: "string option"
  mp_email :: "string option option"
  mp_language :: "string option"

definition authorize_user_creation ::
  "admin_io \<Rightarrow> string option \<Rightarrow> bool \<Rightarrow> role_assignment option \<Rightarrow> admin_state \<Rightarrow> api_error + role_assignment option" where
  "authorize_user_creation io session_username is_bootstrap requested_role st =
     (if is_bootstrap then (if requested_role \<noteq> None then Err Unprocessable else Ok None)
      else case authorize io (map_option (\<lambda>n. SessionCredential n None) session_username) st of
        Inl e \<Rightarrow> Err e
      | Inr az \<Rightarrow>
      if \<not> permits az UserManage scope.Global then Err Forbidden
      else case requested_role of
        None \<Rightarrow> Ok None
      | Some a \<Rightarrow>
      if \<not> permits az RoleAssign (ra_scope a) then Err Forbidden
      else case catalog_get (st_roles st) (ra_role_id a) of
        None \<Rightarrow> Err NotFound
      | Some r \<Rightarrow> if \<not> az_can_assign_role az r (ra_scope a) then Err Forbidden else Ok (Some a))"

definition bootstrap_state_for_insert :: "user_map \<Rightarrow> bool \<Rightarrow> bool \<Rightarrow> api_error + bool" where
  "bootstrap_state_for_insert users initial_bootstrap has_authenticated_actor =
     (if users = [] then Ok True
      else if initial_bootstrap \<and> \<not> has_authenticated_actor then Err Unauthorized
      else Ok False)"

definition display_name_or :: "string \<Rightarrow> string option \<Rightarrow> string" where
  "display_name_or username req = (case map_option trim req of Some d \<Rightarrow> if d \<noteq> [] then d else username | None \<Rightarrow> username)"

text \<open>
  \<open>session\<close> is the username the session token resolves to. The two costly steps between the two
  authorisation checks, the password policy and the preparation of the credentials, are
  \<open>io_credentials\<close>.
\<close>

definition create_user ::
  "admin_env \<Rightarrow> admin_io \<Rightarrow> string option \<Rightarrow> create_user_request \<Rightarrow> admin_state \<Rightarrow> (api_error, unit, admin_state) call" where
  "create_user env io session req st =
     (let is_bootstrap = (st_users st = [] \<and> ad_uninitialised st);
          session_username = (if is_bootstrap then None else session) in
      case authorize_user_creation io session_username is_bootstrap (cu_role req) st of
        Inl e \<Rightarrow> (Err e, st)
      | Inr requested_assignment \<Rightarrow>
     (case validate_username (cu_username req) of
        Inl e \<Rightarrow> (Err e, st)
      | Inr username \<Rightarrow>
     (case normalize_optional_email (cu_email req) of
        Inl e \<Rightarrow> (Err e, st)
      | Inr email \<Rightarrow>
     (case io_credentials io of
        Some e \<Rightarrow> (Err e, st)
      | None \<Rightarrow>
      if list_ex (\<lambda>(_, u). to_ascii_lowercase (us_username u) = to_ascii_lowercase username) (st_users st)
      then (Err Conflict, st)
      else case bootstrap_state_for_insert (st_users st) is_bootstrap (session_username \<noteq> None) of
        Inl e \<Rightarrow> (Err e, st)
      | Inr bootstrap \<Rightarrow>
          let u = \<lparr>us_id = io_new_id io, us_username = username,
                us_display_name = display_name_or username (cu_display_name req), us_email = email,
                us_created_at = format_time env (io_granted_at io), us_active = True,
                us_role_assignments = [case requested_assignment of Some a \<Rightarrow> a | None \<Rightarrow> bootstrap_assignment bootstrap],
                us_language = cu_language req, us_two_factor_required = False,
                us_force_password_change = (cu_send_welcome_email req \<and> \<not> is_bootstrap)\<rparr>
          in persist_and_record env io (case session_username of Some n \<Rightarrow> n | None \<Rightarrow> ''api'') ''user''
               ''user.created'' ''user created'' (ae_user_json env u)
               (set_users (AList.update (us_id u) u (st_users st)) st)))))"

text \<open>
  The edit writes the fields of the stored user one after the other; when the e-mail address is
  refused the display name is already changed.
\<close>

definition patch_fields :: "patch_user_request \<Rightarrow> user \<Rightarrow> (api_error, unit, user) call" where
  "patch_fields req u =
     (let u1 = (case pu_display_name req of
            Some d \<Rightarrow> if trim d \<noteq> [] then u\<lparr>us_display_name := trim d\<rparr> else u
          | None \<Rightarrow> u) in
      case (case pu_email req of Some e \<Rightarrow> map_sum id Some (normalize_optional_email e) | None \<Rightarrow> Ok None) of
        Inl e \<Rightarrow> (Err e, u1)
      | Inr email \<Rightarrow>
          let u2 = (case email of Some e \<Rightarrow> u1\<lparr>us_email := e\<rparr> | None \<Rightarrow> u1);
              u3 = (case pu_active req of Some b \<Rightarrow> u2\<lparr>us_active := b\<rparr> | None \<Rightarrow> u2);
              u4 = (case pu_language req of Some l \<Rightarrow> u3\<lparr>us_language := l\<rparr> | None \<Rightarrow> u3);
              u5 = (case pu_two_factor_required req of Some b \<Rightarrow> u4\<lparr>us_two_factor_required := b\<rparr> | None \<Rightarrow> u4)
          in (Ok (), u5))"

definition record_user_event ::
  "admin_env \<Rightarrow> admin_io \<Rightarrow> current_actor \<Rightarrow> user \<Rightarrow> string \<Rightarrow> string \<Rightarrow> admin_state \<Rightarrow> (api_error, unit, admin_state) call" where
  "record_user_event env io actor u kind justification st =
     persist_and_record env io (actor_resolve actor ''api'') ''user'' kind justification (ae_user_json env u) st"

definition patch_user ::
  "admin_env \<Rightarrow> admin_io \<Rightarrow> current_actor \<Rightarrow> u128 \<Rightarrow> patch_user_request \<Rightarrow> admin_state \<Rightarrow> (api_error, unit, admin_state) call" where
  "patch_user env io actor i req st =
     (case authorize io actor st of
        Inl e \<Rightarrow> (Err e, st)
      | Inr az \<Rightarrow>
      if \<not> permits az UserManage scope.Global then (Err Forbidden, st)
      else if pu_two_factor_required req = Some True \<and> \<not> ad_totp_enabled st then (Err Unprocessable, st)
      else case map_of (st_users st) i of
        None \<Rightarrow> (Err NotFound, st)
      | Some target \<Rightarrow>
      if pu_active req = Some False \<and> deactivation_block_of (st_users st) target \<noteq> None then (Err Conflict, st)
      else case patch_fields req target of
        (Inl e, u) \<Rightarrow> (Err e, set_users (AList.update i u (st_users st)) st)
      | (Inr _, u) \<Rightarrow>
          record_user_event env io actor u ''user.updated'' ''user updated''
            (set_users (AList.update i u (st_users st)) st))"

definition SELF_SUSPENDED_KIND :: string where "SELF_SUSPENDED_KIND = ''user.self_suspended''"

text \<open>\<open>io_credentials\<close> is the outcome of the step-up check that comes first.\<close>

definition resolve_me :: "current_actor \<Rightarrow> admin_state \<Rightarrow> api_error + user" where
  "resolve_me actor st =
     (case actor of
        Some (SessionCredential username _) \<Rightarrow>
          (case find (\<lambda>(_, u). us_username u = username) (st_users st) of
             Some (_, u) \<Rightarrow> Ok u
           | None \<Rightarrow> Err Unauthorized)
      | _ \<Rightarrow> Err Forbidden)"

text \<open>The holder's own edit; as in \<open>patch_user\<close>, a refused address leaves the display name changed.\<close>

definition patch_my_fields :: "patch_my_profile \<Rightarrow> user \<Rightarrow> (api_error, unit, user) call" where
  "patch_my_fields req u =
     (let u1 = (case mp_display_name req of
            Some d \<Rightarrow> if trim d \<noteq> [] then u\<lparr>us_display_name := trim d\<rparr> else u
          | None \<Rightarrow> u) in
      case (case mp_email req of Some e \<Rightarrow> map_sum id Some (normalize_optional_email e) | None \<Rightarrow> Ok None) of
        Inl e \<Rightarrow> (Err e, u1)
      | Inr email \<Rightarrow>
          let u2 = (case email of Some e \<Rightarrow> u1\<lparr>us_email := e\<rparr> | None \<Rightarrow> u1);
              u3 = (case mp_language req of Some l \<Rightarrow> u2\<lparr>us_language := l\<rparr> | None \<Rightarrow> u2)
          in (Ok (), u3))"

definition patch_me_profile ::
  "admin_env \<Rightarrow> admin_io \<Rightarrow> current_actor \<Rightarrow> patch_my_profile \<Rightarrow> admin_state \<Rightarrow> (api_error, unit, admin_state) call" where
  "patch_me_profile env io actor req st =
     (case resolve_me actor st of
        Inl e \<Rightarrow> (Err e, st)
      | Inr me \<Rightarrow>
     (case map_of (st_users st) (us_id me) of
        None \<Rightarrow> (Err NotFound, st)
      | Some target \<Rightarrow>
     (case patch_my_fields req target of
        (Inl e, u) \<Rightarrow> (Err e, set_users (AList.update (us_id me) u (st_users st)) st)
      | (Inr _, u) \<Rightarrow>
          record_user_event env io actor u ''user.updated'' ''profile updated by its holder''
            (set_users (AList.update (us_id me) u (st_users st)) st))))"

definition suspend_me ::
  "admin_env \<Rightarrow> admin_io \<Rightarrow> current_actor \<Rightarrow> admin_state \<Rightarrow> (api_error, unit, admin_state) call" where
  "suspend_me env io actor st =
     (case io_credentials io of
        Some e \<Rightarrow> (Err e, st)
      | None \<Rightarrow>
     (case resolve_me actor st of
        Inl e \<Rightarrow> (Err e, st)
      | Inr me \<Rightarrow>
     (case map_of (st_users st) (us_id me) of
        None \<Rightarrow> (Err NotFound, st)
      | Some target \<Rightarrow>
      if \<not> us_active target then (Err Conflict, st)
      else if deactivation_block_of (st_users st) target \<noteq> None then (Err Conflict, st)
      else
        let u = target\<lparr>us_active := False\<rparr> in
        record_user_event env io actor u SELF_SUSPENDED_KIND ''account suspended by its holder''
          (set_users (AList.update (us_id me) u (st_users st)) st))))"

subsection \<open>The administration machine\<close>

datatype admin_op =
    CreateRole current_actor string "permission list"
  | PatchRole current_actor u128 "string option" "permission list option"
  | DeleteRole current_actor u128
  | ReconcileRole current_actor u128
  | AssignRole current_actor u128 role_assignment
  | UnassignRole current_actor u128 role_assignment
  | GrantDelegation current_actor grant_request
  | RevokeDelegation current_actor u128
  | SuspendDelegation current_actor u128
  | ResumeDelegation current_actor u128
  | CreateUser "string option" create_user_request
  | PatchUser current_actor u128 patch_user_request
  | PatchMeProfile current_actor patch_my_profile
  | SuspendMe current_actor

fun admin_exec :: "admin_env \<Rightarrow> admin_io \<times> admin_op \<Rightarrow> admin_state \<Rightarrow> (api_error, unit, admin_state) call" where
  "admin_exec env (io, CreateRole actor name ps) st = create_role env io actor name ps st"
| "admin_exec env (io, PatchRole actor i name ps) st = patch_role env io actor i name ps st"
| "admin_exec env (io, DeleteRole actor i) st = delete_role env io actor i st"
| "admin_exec env (io, ReconcileRole actor i) st = apply_seeded_role_reconciliation env io actor i st"
| "admin_exec env (io, AssignRole actor u a) st = assign_role env io actor u a st"
| "admin_exec env (io, UnassignRole actor u a) st = unassign_role env io actor u a st"
| "admin_exec env (io, GrantDelegation actor req) st = grant_delegation env io actor req st"
| "admin_exec env (io, RevokeDelegation actor i) st = revoke_delegation env io actor i st"
| "admin_exec env (io, SuspendDelegation actor i) st = suspend_delegation env io actor i st"
| "admin_exec env (io, ResumeDelegation actor i) st = resume_delegation env io actor i st"
| "admin_exec env (io, CreateUser session req) st = create_user env io session req st"
| "admin_exec env (io, PatchUser actor i req) st = patch_user env io actor i req st"
| "admin_exec env (io, PatchMeProfile actor req) st = patch_me_profile env io actor req st"
| "admin_exec env (io, SuspendMe actor) st = suspend_me env io actor st"

subsection \<open>The contract of the handlers\<close>

text \<open>Something is held when a role assignment of some account, active or not, conveys it.\<close>

definition account_holds :: "directory \<Rightarrow> permission \<Rightarrow> scope \<Rightarrow> bool" where
  "account_holds d p t \<longleftrightarrow> (\<exists>(i, u) \<in> set (dr_users d). holds_via_role d u p t)"

text \<open>
  What the handlers promise of the directory, whatever the request. A role is authored only out
  of permissions held globally and never over a protected one; only unprotected roles are
  removed; an assignment and a new account convey only what is held at the scope; the last owner
  is neither unassigned nor deactivated; delegations are recorded freely, since what they convey
  is decided when they are read.
\<close>

inductive authority_step :: "directory \<Rightarrow> directory \<Rightarrow> bool" where
  same: "authority_step d d"
| author: "\<forall>p \<in> rl_permission_set r. account_holds d p scope.Global \<Longrightarrow>
    (\<forall>q. catalog_get (dr_roles d) (rl_id r) = Some q \<longrightarrow> \<not> rl_protected q) \<Longrightarrow>
    authority_step d (d\<lparr>dr_roles := catalog_insert r (dr_roles d)\<rparr>)"
| remove: "catalog_get (dr_roles d) i = Some r \<Longrightarrow> \<not> rl_protected r \<Longrightarrow>
    (\<forall>j. catalog_get c j = (if j = i then None else catalog_get (dr_roles d) j)) \<Longrightarrow> catalog_ok c \<Longrightarrow>
    authority_step d (d\<lparr>dr_roles := c\<rparr>)"
| assign: "map_of (dr_users d) i = Some u \<Longrightarrow> catalog_get (dr_roles d) (ra_role_id a) = Some r \<Longrightarrow>
    (\<forall>p \<in> rl_permission_set r. account_holds d p (ra_scope a)) \<Longrightarrow>
    authority_step d (d\<lparr>dr_users := AList.update i (u\<lparr>us_role_assignments := push_new a (us_role_assignments u)\<rparr>) (dr_users d)\<rparr>)"
| unassign: "map_of (dr_users d) i = Some u \<Longrightarrow>
    (a \<in> set (us_role_assignments u) \<longrightarrow> is_owner_admin a \<longrightarrow> last_owner_guard (count_owner_admins (dr_users d))) \<Longrightarrow>
    authority_step d (d\<lparr>dr_users := AList.update i (u\<lparr>us_role_assignments := filter (\<lambda>b. b \<noteq> a) (us_role_assignments u)\<rparr>) (dr_users d)\<rparr>)"
| delegate: "authority_step d (d\<lparr>dr_delegations := ds\<rparr>)"
| edit_user: "map_of (dr_users d) i = Some u \<Longrightarrow> us_id v = us_id u \<Longrightarrow> us_role_assignments v = us_role_assignments u \<Longrightarrow>
    (\<not> us_active v \<longrightarrow> us_active u \<longrightarrow> deactivation_block_of (dr_users d) u = None) \<Longrightarrow>
    authority_step d (d\<lparr>dr_users := AList.update i v (dr_users d)\<rparr>)"
| admit: "map_of (dr_users d) (us_id u) = None \<Longrightarrow> us_role_assignments u = [a] \<Longrightarrow>
    catalog_get (dr_roles d) (ra_role_id a) = Some r \<Longrightarrow>
    (\<forall>p \<in> rl_permission_set r. account_holds d p (ra_scope a)) \<Longrightarrow>
    authority_step d (d\<lparr>dr_users := AList.update (us_id u) u (dr_users d)\<rparr>)"

text \<open>
  What the server supplies with a request: an API-key credential is one the key registry resolved, and
  a new identifier is fresh, as \<open>Uuid::new_v4\<close> makes it. Nothing is asked of what the client sends.
\<close>

fun actor_ok :: "current_actor \<Rightarrow> bool" where
  "actor_ok (Some (ApiKeyCredential p)) = (\<exists>k creator roles now books. p = resolve k creator roles now books)"
| "actor_ok _ = True"

fun op_ok :: "admin_io \<times> admin_op \<Rightarrow> admin_state \<Rightarrow> bool" where
  "op_ok (io, CreateRole actor _ _) st = (actor_ok actor \<and> catalog_get (st_roles st) (io_new_id io) = None)"
| "op_ok (io, PatchRole actor _ _ _) st = actor_ok actor"
| "op_ok (io, ReconcileRole actor _) st = actor_ok actor"
| "op_ok (io, AssignRole actor _ _) st = actor_ok actor"
| "op_ok (io, CreateUser _ _) st = (map_of (st_users st) (io_new_id io) = None)"
| "op_ok _ st = True"

lemma account_holds_resolved:
  "has_permission (effective_permissions_for d u now) p t (live_relation (dr_relations d)) \<Longrightarrow> account_holds d p t"
  unfolding resolution_exact account_holds_def delegation_conveys_def
  by (auto dest!: map_of_SomeD) (meson map_of_SomeD role_conveys_narrows case_prodI)+

lemma no_meta_key:
  assumes "actor_ok (Some (ApiKeyCredential kp))"
  shows "\<not> has_permission (rp_effective_permissions kp) RoleManage s books"
    "\<not> has_permission (rp_effective_permissions kp) RoleAssign s books"
  using assms by (auto simp: has_permission_def resolve_grants is_meta_def split: if_splits)

text \<open>Whoever passes a gate that only a session can pass acts with authority some account holds.\<close>

lemma authorized_holds:
  assumes "authorizer_of d now actor = Inr az" and "actor_ok actor"
    and "permits az RoleManage s \<or> permits az RoleAssign s"
  shows "az_relations az = live_relation (dr_relations d)" "permits az p t \<Longrightarrow> account_holds d p t"
proof -
  show rel: "az_relations az = live_relation (dr_relations d)"
    using assms(1) by (auto simp: authorizer_of_def split: option.splits actor_credential.splits sum.splits)
  show "account_holds d p t" if "permits az p t"
  proof (cases "\<exists>kp. actor = Some (ApiKeyCredential kp)")
    case True
    then obtain kp where kp: "actor = Some (ApiKeyCredential kp)" by blast
    then have "az_eff az = rp_effective_permissions kp" using assms(1) by (auto simp: authorizer_of_def)
    then show ?thesis using assms(2, 3) no_meta_key [of kp] kp by (auto simp: permits_def)
  next
    case False
    then obtain u where "az_eff az = effective_permissions_for d u now"
      using assms(1) by (auto simp: authorizer_of_def split: option.splits actor_credential.splits sum.splits)
    then show ?thesis using that rel account_holds_resolved by (simp add: permits_def)
  qed
qed

lemma define_role_holds:
  assumes "authorizer_of d now actor = Inr az" and "actor_ok actor" and "permits az RoleManage scope.Global"
    and "az_can_define_role az (sorted_list_of_set ps)"
  shows "\<forall>p \<in> ps. account_holds d p scope.Global"
  using authorized_holds(2) [OF assms(1, 2)] assms(3, 4)
  by (auto simp: az_can_define_role_def can_define_role_def permits_def)

lemma assign_role_holds:
  assumes "authorizer_of d now actor = Inr az" and "actor_ok actor" and "permits az RoleAssign s"
    and "az_can_assign_role az r s"
  shows "\<forall>p \<in> rl_permission_set r. account_holds d p s"
  using authorized_holds(2) [OF assms(1, 2)] assms(3, 4)
  by (auto simp: az_can_assign_role_def can_assign_role_def permits_def)

lemma record_event_dir [simp]: "ad_dir (snd (record_event env io who scope_id kind why payload st)) = ad_dir st"
  by (simp add: record_event_def Let_def split: option.split prod.split)

lemma persist_and_record_dir [simp]:
  "ad_dir (snd (persist_and_record env io who scope_id kind why payload st)) = ad_dir st"
  by (simp add: persist_and_record_def split: option.split)

lemmas record_dir_simps = record_assignment_def record_delegation_def record_user_event_def Let_def
  set_roles_def set_users_def set_delegations_def

lemma create_role_step:
  assumes "op_ok (io, CreateRole actor name ps) st"
  shows "authority_step (ad_dir st) (ad_dir (snd (create_role env io actor name ps st)))"
  using assms define_role_holds [of "ad_dir st" "io_now io" actor _ "set ps"]
  by (auto simp: create_role_def record_dir_simps same split: sum.split intro!: author)

lemma patch_role_step:
  assumes "actor_ok actor"
  shows "authority_step (ad_dir st) (ad_dir (snd (patch_role env io actor i name ps st)))"
proof -
  have "authority_step (ad_dir st) ((ad_dir st)\<lparr>dr_roles := catalog_insert r (st_roles st)\<rparr>)"
    if "authorizer_of (ad_dir st) (io_now io) actor = Inr az" "permits az RoleManage scope.Global"
      "catalog_get (st_roles st) (rl_id r) = Some old" "\<not> rl_protected old"
      "az_can_define_role az (sorted_list_of_set (rl_permission_set r))" for az r old
    using that define_role_holds [OF that(1) assms that(2) that(5)] by (intro author) simp_all
  then show ?thesis
    by (auto simp: patch_role_def record_dir_simps same split: sum.split option.split)
qed

lemma catalog_ok_id: "catalog_ok c \<Longrightarrow> catalog_get c i = Some r \<Longrightarrow> rl_id r = i"
  by (auto simp: catalog_ok_def catalog_get_def dest: map_of_SomeD)

lemma catalog_get_from:
  assumes "distinct (map rl_id rs)"
  shows "catalog_get (catalog_from rs) j = Some r \<longleftrightarrow> r \<in> set rs \<and> rl_id r = j"
proof -
  have "catalog_get (fold catalog_insert rs c) j = Some r \<longleftrightarrow>
      r \<in> set rs \<and> rl_id r = j \<or> j \<notin> rl_id ` set rs \<and> catalog_get c j = Some r" for c
    using assms
  proof (induction rs arbitrary: c)
    case (Cons x rs)
    then show ?case by (cases "rl_id x = j") force+
  qed simp
  then show ?thesis by (simp add: catalog_from_def)
qed

lemma catalog_from_filter:
  assumes "catalog_ok c"
  shows "catalog_get (catalog_from (filter P (map snd c))) j =
    (case catalog_get c j of Some r \<Rightarrow> if P r then Some r else None | None \<Rightarrow> None)"
proof -
  have keys: "map rl_id (map snd c) = map fst c"
    using assms by (auto simp: catalog_ok_def comp_def intro!: map_cong)
  have "distinct (map rl_id (map snd c))"
    using assms unfolding keys by (simp add: catalog_ok_def)
  then have "distinct (map rl_id (filter P (map snd c)))" by (rule distinct_map_filter)
  note get = catalog_get_from [OF this]
  have entry: "r \<in> snd ` set c \<and> rl_id r = j \<longleftrightarrow> catalog_get c j = Some r" for r
    using assms by (force simp: catalog_ok_def catalog_get_def dest: map_of_SomeD)
  have eq: "catalog_get (catalog_from (filter P (map snd c))) j = Some r \<longleftrightarrow> catalog_get c j = Some r \<and> P r" for r
    using get [of j r] entry [of r] by simp blast
  show ?thesis
  proof (cases "\<exists>r. catalog_get c j = Some r \<and> P r")
    case True
    then obtain r where "catalog_get c j = Some r" "P r" by blast
    with eq [of r] show ?thesis by simp
  next
    case False
    then have "catalog_get (catalog_from (filter P (map snd c))) j \<noteq> Some r" for r
      using eq [of r] by simp
    then have "catalog_get (catalog_from (filter P (map snd c))) j = None"
      by (cases "catalog_get (catalog_from (filter P (map snd c))) j") auto
    then show ?thesis using False by (simp split: option.split)
  qed
qed

lemma delete_role_step:
  assumes "catalog_ok (st_roles st)"
  shows "authority_step (ad_dir st) (ad_dir (snd (delete_role env io actor i st)))"
proof -
  let ?c = "catalog_from (filter (\<lambda>r. rl_id r \<noteq> i) (map snd (st_roles st)))"
  have "catalog_get ?c j = (if j = i then None else catalog_get (st_roles st) j)" for j
    using catalog_ok_id [OF assms] by (auto simp: catalog_from_filter [OF assms] split: option.split)
  then have "authority_step (ad_dir st) ((ad_dir st)\<lparr>dr_roles := ?c\<rparr>)"
    if "catalog_get (st_roles st) i = Some r" "can_be_deleted r" for r
    using that by (intro remove [where i = i and r = r]) (simp_all add: can_be_deleted_def catalog_ok_from)
  then show ?thesis
    by (auto simp: delete_role_def record_dir_simps same split: sum.split option.split)
qed

lemma reconcile_role_step:
  assumes "actor_ok actor" and "catalog_ok (st_roles st)"
  shows "authority_step (ad_dir st) (ad_dir (snd (apply_seeded_role_reconciliation env io actor i st)))"
proof -
  have "authority_step (ad_dir st) ((ad_dir st)\<lparr>dr_roles := catalog_insert (old\<lparr>rl_permission_set := ps\<rparr>) (st_roles st)\<rparr>)"
    if "authorizer_of (ad_dir st) (io_now io) actor = Inr az" "permits az RoleManage scope.Global"
      "catalog_get (st_roles st) i = Some old" "seeded_reconciliation_proposal old = Inr (missing, ps)"
      "az_can_define_role az (sorted_list_of_set ps)" for az old missing ps
  proof -
    have "\<not> rl_protected old"
      using that(4) by (auto simp: seeded_reconciliation_proposal_def seeded_missing_defaults_def split: option.splits if_splits)
    moreover have "rl_id old = i" using catalog_ok_id [OF assms(2) that(3)] .
    ultimately show ?thesis
      using that define_role_holds [OF that(1) assms(1) that(2) that(5)] by (intro author) simp_all
  qed
  then show ?thesis
    by (auto simp: apply_seeded_role_reconciliation_def record_dir_simps same split: sum.split option.split)
qed

lemma assign_role_step:
  assumes "actor_ok actor"
  shows "authority_step (ad_dir st) (ad_dir (snd (assign_role env io actor i a st)))"
proof -
  have "authority_step (ad_dir st) ((ad_dir st)\<lparr>dr_users := AList.update i (u\<lparr>us_role_assignments := push_new a (us_role_assignments u)\<rparr>) (st_users st)\<rparr>)"
    if "authorizer_of (ad_dir st) (io_now io) actor = Inr az" "permits az RoleAssign (ra_scope a)"
      "catalog_get (st_roles st) (ra_role_id a) = Some r" "az_can_assign_role az r (ra_scope a)"
      "map_of (st_users st) i = Some u" for az r u
    using that(3, 5) assign_role_holds [OF that(1) assms that(2) that(4)] by (intro assign) simp_all
  then show ?thesis
    by (auto simp: assign_role_def record_dir_simps same split: sum.split option.split)
qed

lemma unassign_role_step: "authority_step (ad_dir st) (ad_dir (snd (unassign_role env io actor i a st)))"
  by (auto simp: unassign_role_def record_dir_simps same split: sum.split option.split intro!: unassign)

lemma delegation_steps:
  "authority_step (ad_dir st) (ad_dir (snd (grant_delegation env io actor req st)))"
  "authority_step (ad_dir st) (ad_dir (snd (revoke_delegation env io actor i st)))"
  "authority_step (ad_dir st) (ad_dir (snd (set_suspended env io actor i b st)))"
  by (auto simp: grant_delegation_def revoke_delegation_def set_suspended_def record_dir_simps same delegate
      split: sum.split option.split prod.split)

text \<open>
  A new account for which no role was asked gets the default one, at the global scope: the owner
  role when it is the first account, Company Owner otherwise. That assignment is not compared with
  what the creator holds, so it is a step outside the contract; what it hands out is the permission
  set of that role at that moment.
\<close>

definition default_admission :: "directory \<Rightarrow> directory \<Rightarrow> bool" where
  "default_admission d d' \<longleftrightarrow> (\<exists>u. map_of (dr_users d) (us_id u) = None
     \<and> us_role_assignments u = [\<lparr>ra_role_id = (if dr_users d = [] then OWNER_ROLE_ID else COMPANY_OWNER_ROLE_ID),
          ra_scope = scope.Global\<rparr>]
     \<and> d' = d\<lparr>dr_users := AList.update (us_id u) u (dr_users d)\<rparr>)"

definition default_authority :: "directory \<Rightarrow> permission set" where
  "default_authority d =
     (case catalog_get (dr_roles d) (if dr_users d = [] then OWNER_ROLE_ID else COMPANY_OWNER_ROLE_ID) of
        Some r \<Rightarrow> rl_permission_set r | None \<Rightarrow> {})"

lemma create_user_default:
  assumes "map_of (st_users st) (io_new_id io) = None" and "cu_role req = None"
  shows "ad_dir (snd (create_user env io session req st)) = ad_dir st
    \<or> default_admission (ad_dir st) (ad_dir (snd (create_user env io session req st)))"
proof -
  have "default_admission (ad_dir st) ((ad_dir st)\<lparr>dr_users := AList.update (io_new_id io) u (st_users st)\<rparr>)"
    if "us_id u = io_new_id io" "us_role_assignments u = [bootstrap_assignment b]"
      "bootstrap_state_for_insert (st_users st) x y = Inr b" for u b x y
    unfolding default_admission_def using that assms(1)
    by (intro exI [of _ u]) (auto simp: bootstrap_state_for_insert_def bootstrap_assignment_def split: if_splits)
  note admits = this
  define b where "b \<longleftrightarrow> st_users st = [] \<and> ad_uninitialised st"
  define n where "n = (if b then None else session)"
  note eq = create_user_def [of env io session req st, unfolded Let_def assms(2), folded b_def, folded n_def]
  show ?thesis
  proof (cases "authorize_user_creation io n b None st")
    case (Inl e)
    then show ?thesis by (simp add: eq)
  next
    case (Inr x)
    then have x: "x = None" by (auto simp: authorize_user_creation_def split: if_splits sum.splits)
    show ?thesis
      using Inr admits unfolding eq x by (auto simp: record_dir_simps split: sum.split option.split)
  qed
qed

lemma create_user_step:
  assumes "map_of (st_users st) (io_new_id io) = None" and "cu_role req = Some a"
  shows "authority_step (ad_dir st) (ad_dir (snd (create_user env io session req st)))"
proof -
  note a = assms(2) and fresh = assms(1)
  let ?b = "st_users st = [] \<and> ad_uninitialised st"
  let ?n = "if ?b then None else session"
  show ?thesis
  proof (cases "authorize_user_creation io ?n ?b (Some a) st")
    case (Inl e)
    then show ?thesis by (simp add: create_user_def a Let_def same)
  next
    case (Inr x)
    then obtain az r where az: "authorizer_of (ad_dir st) (io_now io) (map_option (\<lambda>n. SessionCredential n None) ?n) = Inr az"
        "permits az RoleAssign (ra_scope a)" "az_can_assign_role az r (ra_scope a)"
      and r: "catalog_get (st_roles st) (ra_role_id a) = Some r" and x: "x = Some a"
      unfolding authorize_user_creation_def by (auto split: sum.splits option.splits if_splits)
    have no_bootstrap: "\<not> ?b" using Inr by (auto simp: authorize_user_creation_def)
    have "actor_ok (map_option (\<lambda>n. SessionCredential n None) ?n)" by (cases "?n") simp_all
    note holds = assign_role_holds [OF az(1) this az(2, 3)]
    have "authority_step (ad_dir st) ((ad_dir st)\<lparr>dr_users := AList.update (io_new_id io) u (st_users st)\<rparr>)"
      if "us_id u = io_new_id io" "us_role_assignments u = [a]" for u
      using admit [of "ad_dir st" u a r] that fresh r holds by simp
    then show ?thesis
      using Inr unfolding create_user_def Let_def a x if_not_P [OF no_bootstrap]
      by (simp add: no_bootstrap record_dir_simps same split: sum.split option.split)
  qed
qed

lemma patch_fields_keeps:
  assumes "patch_fields req u = (res, v)"
  shows "us_id v = us_id u" "us_role_assignments v = us_role_assignments u"
    "us_active v = us_active u \<or> pu_active req = Some (us_active v)"
  using assms by (auto simp: patch_fields_def Let_def split: option.splits sum.splits if_splits)

lemma patch_user_step: "authority_step (ad_dir st) (ad_dir (snd (patch_user env io actor i req st)))"
proof -
  have "authority_step (ad_dir st) ((ad_dir st)\<lparr>dr_users := AList.update i v (st_users st)\<rparr>)"
    if "map_of (st_users st) i = Some u" "patch_fields req u = (res, v)"
      "pu_active req = Some False \<Longrightarrow> deactivation_block_of (st_users st) u = None" for u res v
    using that(1, 3) patch_fields_keeps [OF that(2)] by (intro edit_user) auto
  then show ?thesis
    by (auto simp: patch_user_def record_dir_simps same split: sum.split option.split prod.split)
qed

lemma patch_my_fields_keeps:
  assumes "patch_my_fields req u = (res, v)"
  shows "us_id v = us_id u" "us_role_assignments v = us_role_assignments u" "us_active v = us_active u"
  using assms by (auto simp: patch_my_fields_def Let_def split: option.splits sum.splits if_splits)

lemma patch_me_profile_step: "authority_step (ad_dir st) (ad_dir (snd (patch_me_profile env io actor req st)))"
proof -
  have "authority_step (ad_dir st) ((ad_dir st)\<lparr>dr_users := AList.update i v (st_users st)\<rparr>)"
    if "map_of (st_users st) i = Some u" "patch_my_fields req u = (res, v)" for i u res v
    using that(1) patch_my_fields_keeps [OF that(2)] by (intro edit_user) auto
  then show ?thesis
    by (auto simp: patch_me_profile_def record_dir_simps same split: sum.split option.split prod.split)
qed

lemma suspend_me_step: "authority_step (ad_dir st) (ad_dir (snd (suspend_me env io actor st)))"
  by (auto simp: suspend_me_def record_dir_simps same split: sum.split option.split intro!: edit_user)

definition default_request :: "admin_io \<times> admin_op \<Rightarrow> bool" where
  "default_request op \<longleftrightarrow> (case snd op of CreateUser _ req \<Rightarrow> cu_role req = None | _ \<Rightarrow> False)"

lemma admin_exec_step:
  assumes "op_ok op st" and "catalog_ok (st_roles st)"
  shows "authority_step (ad_dir st) (ad_dir (snd (admin_exec env op st)))
    \<or> default_request op \<and> default_admission (ad_dir st) (ad_dir (snd (admin_exec env op st)))"
proof (cases op)
  case (Pair io op')
  show ?thesis
  proof (cases "\<exists>session req. op' = CreateUser session req")
    case True
    then obtain session req where op': "op' = CreateUser session req" by blast
    with Pair assms(1) have fresh: "map_of (st_users st) (io_new_id io) = None" by simp
    show ?thesis
    proof (cases "cu_role req")
      case None
      from create_user_default [OF fresh this, of env session] show ?thesis
      proof
        assume "ad_dir (snd (create_user env io session req st)) = ad_dir st"
        then show ?thesis by (simp add: Pair op' same)
      qed (simp add: Pair op' default_request_def None)
    next
      case (Some a)
      from create_user_step [OF fresh this, of env session] show ?thesis by (simp add: Pair op')
    qed
  next
    case False
    with assms Pair have "authority_step (ad_dir st) (ad_dir (snd (admin_exec env op st)))"
      by (cases op') (simp_all add: create_role_step patch_role_step delete_role_step reconcile_role_step assign_role_step
          unassign_role_step delegation_steps patch_user_step patch_me_profile_step suspend_me_step
          suspend_delegation_def resume_delegation_def del: op_ok.simps(1))
    then show ?thesis ..
  qed
qed

subsection \<open>What the contract gives\<close>

lemma account_holds_narrows:
  "account_holds d p s \<Longrightarrow> scope_covers s t (live_relation (dr_relations d)) \<Longrightarrow> account_holds d p t"
  unfolding account_holds_def using role_conveys_narrows by blast

lemma account_holds_Global: "account_holds d p scope.Global \<Longrightarrow> account_holds d p t"
  by (erule account_holds_narrows) (simp add: scope_covers_def)

lemma role_conveys_insert:
  "role_conveys (catalog_insert r roles) rel as p t \<Longrightarrow> role_conveys roles rel as p t \<or> p \<in> rl_permission_set r"
  by (auto simp: role_conveys_def split: if_splits)

lemma update_entry: "(i, v) \<in> set (AList.update k x al) \<Longrightarrow> (i, v) = (k, x) \<or> (i, v) \<in> set al"
  using set_alist_update [of k x al] by blast

text \<open>A step never adds to what is held.\<close>

lemma step_conserves:
  assumes "authority_step d d'" and "account_holds d' p t"
  shows "account_holds d p t"
  using assms
proof (induction rule: authority_step.induct)
  case (author r d)
  then show ?case
    using account_holds_Global by (auto simp: account_holds_def dest!: role_conveys_insert)
next
  case (remove d i r c)
  then show ?case by (fastforce simp: account_holds_def role_conveys_def split: if_splits)
next
  case (assign d i u a r)
  let ?v = "u\<lparr>us_role_assignments := push_new a (us_role_assignments u)\<rparr>"
  obtain j v where v: "(j, v) \<in> set (AList.update i ?v (dr_users d))"
      "role_conveys (dr_roles d) (live_relation (dr_relations d)) (us_role_assignments v) p t"
    using assign.prems by (auto simp: account_holds_def)
  show ?case
  proof (cases "(j, v) \<in> set (dr_users d)")
    case False
    then have "v = ?v" using update_entry [OF v(1)] by blast
    then consider "holds_via_role d u p t" | "p \<in> rl_permission_set r" "scope_covers (ra_scope a) t (live_relation (dr_relations d))"
      using v(2) assign.hyps(2) by (auto simp: role_conveys_def push_new_def split: if_splits)
    then show ?thesis
    proof cases
      case 1
      then show ?thesis using map_of_SomeD [OF assign.hyps(1)] by (auto simp: account_holds_def)
    next
      case 2
      then show ?thesis using assign.hyps(3) account_holds_narrows by blast
    qed
  qed (use v in \<open>auto simp: account_holds_def\<close>)
next
  case (unassign d i u a)
  let ?v = "u\<lparr>us_role_assignments := filter (\<lambda>b. b \<noteq> a) (us_role_assignments u)\<rparr>"
  obtain j v where v: "(j, v) \<in> set (AList.update i ?v (dr_users d))" "holds_via_role d v p t"
    using unassign.prems by (auto simp: account_holds_def)
  then have "(j, v) \<in> set (dr_users d) \<or> holds_via_role d u p t"
    using update_entry [OF v(1)] by (auto simp: role_conveys_def)
  then show ?case using v(2) map_of_SomeD [OF unassign.hyps(1)] by (auto simp: account_holds_def)
next
  case (edit_user d i u v)
  obtain j w where w: "(j, w) \<in> set (AList.update i v (dr_users d))" "holds_via_role d w p t"
    using edit_user.prems by (auto simp: account_holds_def)
  then have "(j, w) \<in> set (dr_users d) \<or> holds_via_role d u p t"
    using update_entry [OF w(1)] edit_user.hyps(3) by auto
  then show ?case using w(2) map_of_SomeD [OF edit_user.hyps(1)] by (auto simp: account_holds_def)
next
  case (admit d u a r)
  obtain j w where w: "(j, w) \<in> set (AList.update (us_id u) u (dr_users d))" "holds_via_role d w p t"
    using admit.prems by (auto simp: account_holds_def)
  then have "(j, w) \<in> set (dr_users d) \<or> holds_via_role d u p t" using update_entry [OF w(1)] by auto
  moreover have "account_holds d p t" if "holds_via_role d u p t"
    using that admit.hyps(2, 3, 4) account_holds_narrows by (auto simp: role_conveys_def)
  ultimately show ?case using w(2) by (auto simp: account_holds_def)
qed (auto simp: account_holds_def)

lemma default_conserves:
  assumes "default_admission d d'" and "account_holds d' p t"
  shows "account_holds d p t \<or> p \<in> default_authority d"
proof -
  from assms(1) obtain u where u: "d' = d\<lparr>dr_users := AList.update (us_id u) u (dr_users d)\<rparr>"
    "us_role_assignments u = [\<lparr>ra_role_id = (if dr_users d = [] then OWNER_ROLE_ID else COMPANY_OWNER_ROLE_ID),
          ra_scope = scope.Global\<rparr>]"
    unfolding default_admission_def by blast
  from assms(2) obtain j w where w: "(j, w) \<in> set (AList.update (us_id u) u (dr_users d))" "holds_via_role d w p t"
    by (auto simp: account_holds_def u(1))
  then have "(j, w) \<in> set (dr_users d) \<or> w = u" using update_entry [OF w(1)] by auto
  then show ?thesis
  proof
    assume "w = u"
    then have "p \<in> default_authority d"
      using w(2) by (auto simp: role_conveys_def u(2) default_authority_def)
    then show ?thesis ..
  qed (use w(2) in \<open>auto simp: account_holds_def\<close>)
qed

text \<open>The permissions that accounts created without a role were given along a run.\<close>

fun default_grants :: "admin_env \<Rightarrow> (admin_io \<times> admin_op) list \<Rightarrow> admin_state \<Rightarrow> permission set" where
  "default_grants env [] st = {}"
| "default_grants env (op # ops) st =
     (if default_request op \<and> ad_dir (snd (admin_exec env op st)) \<noteq> ad_dir st
      then default_authority (ad_dir st) else {})
     \<union> default_grants env ops (snd (admin_exec env op st))"

text \<open>The directory can be administered: the owner role is intact and an active user holds it globally.\<close>

definition is_admin_owner :: "user \<Rightarrow> bool" where
  "is_admin_owner u \<longleftrightarrow> us_active u \<and> list_ex is_owner_admin (us_role_assignments u)"

definition administrable :: "directory \<Rightarrow> bool" where
  "administrable d \<longleftrightarrow> catalog_ok (dr_roles d) \<and> users_ok (dr_users d)
     \<and> catalog_get (dr_roles d) OWNER_ROLE_ID = Some owner_role
     \<and> (\<exists>i u. map_of (dr_users d) i = Some u \<and> is_admin_owner u)"

lemma administrableI:
  assumes "catalog_ok (dr_roles d)" and "users_ok (dr_users d)" and "catalog_get (dr_roles d) OWNER_ROLE_ID = Some owner_role"
    and "map_of (dr_users d) i = Some u" and "is_admin_owner u"
  shows "administrable d"
  using assms by (auto simp: administrable_def)

lemma another_owner:
  assumes "users_ok users" and "last_owner_guard (count_owner_admins users)"
  shows "\<exists>j u. j \<noteq> i \<and> map_of users j = Some u \<and> is_admin_owner u"
proof -
  let ?S = "set (map fst (filter (\<lambda>(u, a). is_owner_admin a) (owner_pairs users)))"
  have "card ?S > 1"
    using assms(2) by (simp add: last_owner_guard_def count_owner_admins_def count_owner_admin_holders_def)
  then have "\<not> ?S \<subseteq> {i}" using card_mono [of "{i}" ?S] by auto
  then obtain j where "j \<in> ?S" "j \<noteq> i" by blast
  moreover from this obtain k u a where "(k, u) \<in> set users" "us_active u" "a \<in> set (us_role_assignments u)"
      "is_owner_admin a" "us_id u = j"
    by (auto simp: owner_pairs_def)
  ultimately show ?thesis
    using users_ok_entry [OF assms(1), of k u] users_ok_id [OF assms(1), of k u]
    by (auto simp: is_admin_owner_def list_ex_iff)
qed

lemma update_administrable:
  assumes "administrable d" and "map_of (dr_users d) i = Some u" and "us_id v = us_id u"
    and "is_admin_owner u \<Longrightarrow> \<not> is_admin_owner v \<Longrightarrow> last_owner_guard (count_owner_admins (dr_users d))"
  shows "administrable (d\<lparr>dr_users := AList.update i v (dr_users d)\<rparr>)"
proof -
  have ok: "users_ok (dr_users d)" and "catalog_ok (dr_roles d)" "catalog_get (dr_roles d) OWNER_ROLE_ID = Some owner_role"
    using assms(1) by (auto simp: administrable_def)
  moreover obtain j w where "map_of (AList.update i v (dr_users d)) j = Some w" "is_admin_owner w"
  proof (cases "is_admin_owner v")
    case True
    then show ?thesis using that [of i v] by (simp add: update_conv')
  next
    case False
    obtain k w where w: "map_of (dr_users d) k = Some w" "is_admin_owner w" using assms(1) by (auto simp: administrable_def)
    show ?thesis
    proof (cases "k = i")
      case True
      then have "last_owner_guard (count_owner_admins (dr_users d))" using w assms(2, 4) False by simp
      then obtain j x where "j \<noteq> i" "map_of (dr_users d) j = Some x" "is_admin_owner x"
        using another_owner [OF ok, of i] by blast
      then show ?thesis using that [of j x] by (simp add: update_conv')
    qed (use that [of k w] w in \<open>simp add: update_conv'\<close>)
  qed
  moreover have "users_ok (AList.update i v (dr_users d))"
    using ok assms(3) users_ok_id [OF ok assms(2)] by (simp add: users_ok_update)
  ultimately show ?thesis by (intro administrableI [of _ j w]) simp_all
qed

lemma step_administrable:
  assumes "authority_step d d'" and "administrable d"
  shows "administrable d'"
  using assms
proof (induction rule: authority_step.induct)
  case (author r d)
  then have "rl_id r \<noteq> OWNER_ROLE_ID" using default_owner(4) by (auto simp: administrable_def)
  with author show ?case by (auto simp: administrable_def catalog_ok_insert)
next
  case (remove d i r c)
  then have "i \<noteq> OWNER_ROLE_ID" using default_owner(4) by (auto simp: administrable_def)
  with remove show ?case by (auto simp: administrable_def)
next
  case (assign d i u a r)
  show ?case
    by (rule update_administrable [OF assign.prems assign.hyps(1)])
      (auto simp: is_admin_owner_def push_new_def list_ex_iff)
next
  case (unassign d i u a)
  show ?case
    by (rule update_administrable [OF unassign.prems unassign.hyps(1)])
      (use unassign.hyps(2) in \<open>auto simp: is_admin_owner_def list_ex_iff\<close>)
next
  case (edit_user d i u v)
  show ?case
    by (rule update_administrable [OF edit_user.prems edit_user.hyps(1, 2)])
      (use edit_user.hyps(3, 4) in \<open>auto simp: is_admin_owner_def deactivation_block_of_def split: if_splits\<close>)
next
  case (admit d u a r)
  then obtain i w where "map_of (dr_users d) i = Some w" "is_admin_owner w" by (auto simp: administrable_def)
  with admit show ?case
    by (intro administrableI [of _ i w]) (auto simp: administrable_def users_ok_update update_conv')
qed (auto simp: administrable_def)

lemma default_administrable:
  assumes "default_admission d d'" and "administrable d"
  shows "administrable d'"
proof -
  from assms(1) obtain u where u: "map_of (dr_users d) (us_id u) = None" "d' = d\<lparr>dr_users := AList.update (us_id u) u (dr_users d)\<rparr>"
    unfolding default_admission_def by blast
  from assms(2) obtain i w where "map_of (dr_users d) i = Some w" "is_admin_owner w" by (auto simp: administrable_def)
  with u assms(2) show ?thesis
    by (intro administrableI [of _ i w]) (auto simp: administrable_def users_ok_update update_conv')
qed

lemma is_owner_admin_iff: "is_owner_admin a \<longleftrightarrow> ra_role_id a = OWNER_ROLE_ID \<and> ra_scope a = scope.Global"
  by (cases "ra_scope a") (simp_all add: is_owner_admin_def is_global_scope_def)

lemma owner_can_everything:
  assumes "administrable d"
  shows "\<exists>u. \<forall>p t. has_permission (effective_permissions_for d u now) p t (live_relation (dr_relations d))"
proof -
  obtain i u where u: "map_of (dr_users d) i = Some u" "us_active u" "list_ex is_owner_admin (us_role_assignments u)"
    using assms by (auto simp: administrable_def is_admin_owner_def)
  then obtain a where a: "a \<in> set (us_role_assignments u)" "ra_role_id a = OWNER_ROLE_ID" "ra_scope a = scope.Global"
    unfolding list_ex_iff is_owner_admin_iff by blast
  have "p \<in> rl_permission_set owner_role" for p by (simp add: owner_role_def ALL_PERMISSIONS_complete)
  moreover have "catalog_get (dr_roles d) OWNER_ROLE_ID = Some owner_role" using assms by (simp add: administrable_def)
  ultimately have "holds_via_role d u p t" for p t
    unfolding role_conveys_def using a by (intro bexI [of _ a] exI [of _ owner_role]) (simp_all add: scope_covers_def)
  then show ?thesis unfolding resolution_exact using u by blast
qed

subsection \<open>The audit trail\<close>












subsection \<open>Properties\<close>

lemma step_catalog_ok: "authority_step d d' \<Longrightarrow> catalog_ok (dr_roles d) \<Longrightarrow> catalog_ok (dr_roles d')"
  by (induction rule: authority_step.induct) (simp_all add: catalog_ok_insert)

lemma default_catalog_ok: "default_admission d d' \<Longrightarrow> catalog_ok (dr_roles d) \<Longrightarrow> catalog_ok (dr_roles d')"
  by (auto simp: default_admission_def)

interpretation catalogued: guarded_machine "admin_exec env" op_ok "\<lambda>st. catalog_ok (st_roles st)" for env
proof
  fix op st
  assume "op_ok op st" and "catalog_ok (st_roles st)"
  then show "catalog_ok (st_roles (snd (admin_exec env op st)))"
    using admin_exec_step [of op st env] step_catalog_ok default_catalog_ok by blast
qed

interpretation administered: guarded_machine "admin_exec env" op_ok "\<lambda>st. administrable (ad_dir st)" for env
proof
  fix op st
  assume "op_ok op st" and adm: "administrable (ad_dir st)"
  moreover from adm have "catalog_ok (st_roles st)" by (simp add: administrable_def)
  ultimately show "administrable (ad_dir (snd (admin_exec env op st)))"
    using admin_exec_step [of op st env] step_administrable default_administrable by blast
qed

lemma run_conserves:
  "guarded op_ok (admin_exec env) ops st \<Longrightarrow> catalog_ok (st_roles st) \<Longrightarrow>
     account_holds (ad_dir (run (admin_exec env) ops st)) p t \<Longrightarrow>
     account_holds (ad_dir st) p t \<or> p \<in> default_grants env ops st"
proof (induction ops arbitrary: st)
  case (Cons op ops)
  let ?st = "snd (admin_exec env op st)"
  from Cons.prems(1) have ok: "op_ok op st" and rest: "guarded op_ok (admin_exec env) ops ?st" by simp_all
  have "catalog_ok (st_roles ?st)" by (rule catalogued.exec_inv [OF ok Cons.prems(2)])
  with Cons.IH [OF rest] Cons.prems(3)
  consider "account_holds (ad_dir ?st) p t" | "p \<in> default_grants env ops ?st" by auto
  then show ?case
  proof cases
    case 1
    from admin_exec_step [OF ok Cons.prems(2), of env] show ?thesis
    proof
      assume "authority_step (ad_dir st) (ad_dir ?st)"
      then show ?thesis using step_conserves 1 by blast
    next
      assume d: "default_request op \<and> default_admission (ad_dir st) (ad_dir ?st)"
      show ?thesis
      proof (cases "ad_dir ?st = ad_dir st")
        case True
        then show ?thesis using 1 by simp
      next
        case False
        then show ?thesis using default_conserves 1 d by auto
      qed
    qed
  qed simp
qed simp

lemma default_grants_empty: "(\<forall>op \<in> set ops. \<not> default_request op) \<Longrightarrow> default_grants env ops st = {}"
  by (induction ops arbitrary: st) simp_all

text \<open>
  C28: where authority comes from. After any sequence of the modelled handlers (authoring, editing,
  deleting and reconciling roles, assigning and unassigning them, granting, revoking, suspending
  and resuming delegations, creating, editing and suspending users), whatever any user may then do at any
  moment and target, either some account already held at that target through a role before the
  sequence began, or it is a permission of the default role (Owner for the first account, Company Owner for
  any other) given to an account that one of the requests created without naming a role. A sequence without
  such a request creates no authority at all. New identifiers are fresh and an API-key credential is one
  the registry resolved.
\<close>

theorem authority_conserved:
  assumes "guarded op_ok (admin_exec env) ops st" and "catalog_ok (st_roles st)"
    and "st' = run (admin_exec env) ops st"
    and "has_permission (effective_permissions_for (ad_dir st') u now) p t (live_relation (dr_relations (ad_dir st')))"
  shows "((\<exists>(i, x) \<in> set (st_users st). holds_via_role (ad_dir st) x p t) \<or> p \<in> default_grants env ops st)
    \<and> ((\<forall>op \<in> set ops. \<not> default_request op) \<longrightarrow>
         (\<exists>(i, x) \<in> set (st_users st). holds_via_role (ad_dir st) x p t))"
proof -
  have "account_holds (ad_dir st') p t" using assms(4) by (rule account_holds_resolved)
  then have "account_holds (ad_dir st) p t \<or> p \<in> default_grants env ops st"
    using run_conserves [OF assms(1, 2)] assms(3) by blast
  then show ?thesis using default_grants_empty [of ops env st] by (auto simp: account_holds_def)
qed

text \<open>
  C29: the instance can never be locked out. Starting with the canonical owner role and an active
  user who holds it globally, no sequence of the modelled handlers, whatever the requests ask for, changes that
  role or leaves the instance without an active user who may do everything everywhere. New identifiers are
  fresh and an API-key credential is one the registry resolved.
\<close>

theorem instance_stays_administrable:
  assumes "guarded op_ok (admin_exec env) ops st" and "administrable (ad_dir st)"
    and "st' = run (admin_exec env) ops st"
  shows "catalog_get (st_roles st') OWNER_ROLE_ID = Some owner_role
    \<and> (\<exists>u. \<forall>p t. has_permission (effective_permissions_for (ad_dir st') u now) p t (live_relation (dr_relations (ad_dir st'))))"
proof -
  have "administrable (ad_dir st')" using administered.run_inv [OF assms(1, 2)] assms(3) by simp
  then show ?thesis using owner_can_everything by (simp add: administrable_def)
qed


subsection \<open>Evaluated instances\<close>

definition plain_admin_env :: admin_env where
  "plain_admin_env = \<lparr>ae_ledger = sample_env\<lparr>uuid_parses := (\<lambda>_. False)\<rparr>, ae_uuid_text = (\<lambda>_. ''u''), ae_parse_rfc3339 = (\<lambda>_. None),
     ae_role_json = (\<lambda>_. Some []), ae_reconciliation_json = (\<lambda>_. Some []), ae_assignment_json = (\<lambda>_. Some []),
     ae_delegation_json = (\<lambda>_. Some []), ae_user_json = (\<lambda>_. Some [])\<rparr>"

definition plain_io :: admin_io where
  "plain_io = \<lparr>io_now = sample_time, io_granted_at = sample_time, io_event_time = sample_time, io_event_id = 1,
     io_new_id = 8, io_persist = None, io_write_through = None, io_credentials = None\<rparr>"

definition no_relations :: scope_relations where
  "no_relations = \<lparr>sr_books = (\<lambda>_. None), sr_tenants = (\<lambda>_. None), sr_acts = (\<lambda>_. None), sr_template_libraries = (\<lambda>_. None),
     sr_integrations = (\<lambda>_. None), sr_repositories = (\<lambda>_. None), sr_archives = (\<lambda>_. None)\<rparr>"

definition owner_user :: user where
  "owner_user = sample_user\<lparr>us_role_assignments := [\<lparr>ra_role_id = OWNER_ROLE_ID, ra_scope = scope.Global\<rparr>]\<rparr>"

definition owner_state :: admin_state where
  "owner_state = \<lparr>ad_dir = \<lparr>dr_users = [(7, owner_user)], dr_roles = catalog_from [owner_role, reader], dr_delegations = [],
     dr_relations = no_relations\<rparr>, ad_signup_default = 0, ad_totp_enabled = False, ad_uninitialised = False,
     ad_ledger = ledger_new\<rparr>"

definition ana :: current_actor where "ana = Some (SessionCredential ''ana'' (Some 7))"

definition clerk_request :: admin_op where
  "clerk_request = CreateRole ana ''Clerk'' [ActRead]"

definition owner_unassigns_self :: admin_op where
  "owner_unassigns_self = UnassignRole ana 7 \<lparr>ra_role_id = OWNER_ROLE_ID, ra_scope = scope.Global\<rparr>"

lemma owner_state_facts:
  "catalog_ok (st_roles owner_state)" "users_ok (st_users owner_state)"
  "catalog_get (st_roles owner_state) OWNER_ROLE_ID = Some owner_role"
  "map_of (st_users owner_state) 7 = Some owner_user" "is_admin_owner owner_user"
  "catalog_get (st_roles owner_state) (io_new_id plain_io) = None"
  by code_simp+

lemma sample_run_guarded:
  "guarded op_ok (admin_exec plain_admin_env) [(plain_io, clerk_request), (plain_io, owner_unassigns_self)] owner_state"
  using owner_state_facts(6) by (simp add: clerk_request_def owner_unassigns_self_def ana_def)



lemma owner_state_administrable: "administrable (ad_dir owner_state)"
  using owner_state_facts by (intro administrableI)

theorem authority_conserved_witness:
  "\<exists>(i, x) \<in> set (st_users owner_state). holds_via_role (ad_dir owner_state) x ActRead (scope.Book 3)"
proof -
  let ?st = "run (admin_exec plain_admin_env) [(plain_io, clerk_request), (plain_io, owner_unassigns_self)] owner_state"
  have "administrable (ad_dir ?st)"
    by (rule administered.run_inv [OF sample_run_guarded owner_state_administrable])
  then obtain u where
    "has_permission (effective_permissions_for (ad_dir ?st) u sample_time) ActRead (scope.Book 3) (live_relation (dr_relations (ad_dir ?st)))"
    using owner_can_everything by blast
  from authority_conserved [OF sample_run_guarded owner_state_facts(1) refl this] show ?thesis
    by (simp add: default_request_def clerk_request_def owner_unassigns_self_def)
qed

theorem instance_stays_administrable_witness:
  "\<exists>u. \<forall>p t. has_permission (effective_permissions_for (ad_dir (run (admin_exec plain_admin_env)
       [(plain_io, clerk_request), (plain_io, owner_unassigns_self)] owner_state)) u sample_time) p t
     (live_relation (dr_relations (ad_dir (run (admin_exec plain_admin_env)
       [(plain_io, clerk_request), (plain_io, owner_unassigns_self)] owner_state))))"
  using instance_stays_administrable [OF sample_run_guarded owner_state_administrable refl] by blast


text \<open>
  An account manager: a custom role with \<open>user.manage\<close> alone, held by the only user.
\<close>

definition account_manager :: role where
  "account_manager = \<lparr>rl_id = 30, rl_name = ''Account manager'', rl_permission_set = {UserManage}, rl_protected = False\<rparr>"

definition manager_state :: admin_state where
  "manager_state = owner_state\<lparr>ad_dir := \<lparr>dr_users = [(7, sample_user\<lparr>us_role_assignments := [\<lparr>ra_role_id = 30, ra_scope = scope.Global\<rparr>]\<rparr>)],
     dr_roles = catalog_from [account_manager, company_owner], dr_delegations = [], dr_relations = no_relations\<rparr>\<rparr>"

definition bruno_request :: create_user_request where
  "bruno_request = \<lparr>cu_username = ''bruno'', cu_display_name = None, cu_email = None, cu_role = None,
     cu_send_welcome_email = False, cu_language = ''auto''\<rparr>"

lemma manager_outcome:
  "fst (create_user plain_admin_env plain_io (Some ''ana'') bruno_request manager_state) = Ok ()"
  "map_option us_role_assignments (map_of (st_users (snd (create_user plain_admin_env plain_io (Some ''ana'') bruno_request manager_state))) 8)
     = Some [\<lparr>ra_role_id = COMPANY_OWNER_ROLE_ID, ra_scope = scope.Global\<rparr>]"
  "catalog_get (st_roles (snd (create_user plain_admin_env plain_io (Some ''ana'') bruno_request manager_state))) COMPANY_OWNER_ROLE_ID
     = Some company_owner"
  "ActDraft \<in> rl_permission_set company_owner" "io_new_id plain_io = 8"
  "catalog_get (st_roles manager_state) 30 = Some account_manager"
  by code_simp+

text \<open>
  a user created without naming a role can be given more than their creator holds. There is
  a state in which nobody holds anything but \<open>user.manage\<close> and in which creating a user, with the
  role left out of the request, succeeds and gives the new account the drafting of acts
  everywhere: the default role is not put through the subset check that a requested one is.
\<close>

theorem default_account_exceeds_creator:
  "\<exists>env io session req st st' u. create_user env io session req st = (Ok (), st')
     \<and> {(p, t). account_holds (ad_dir st) p t} \<subseteq> {UserManage} \<times> UNIV
     \<and> map_of (st_users st') (io_new_id io) = Some u \<and> holds_via_role (ad_dir st') u ActDraft scope.Global"
proof -
  let ?call = "create_user plain_admin_env plain_io (Some ''ana'') bruno_request manager_state"
  obtain u where u: "map_of (st_users (snd ?call)) (io_new_id plain_io) = Some u"
      "us_role_assignments u = [\<lparr>ra_role_id = COMPANY_OWNER_ROLE_ID, ra_scope = scope.Global\<rparr>]"
    using manager_outcome(2, 5) by auto
  have conveys: "holds_via_role (ad_dir (snd ?call)) u ActDraft scope.Global"
    using manager_outcome(3, 4) by (simp add: role_conveys_def u(2) scope_covers_def)
  have "p = UserManage" if "account_holds (ad_dir manager_state) p t" for p t
  proof -
    have "dr_users (ad_dir manager_state) = [(7, sample_user\<lparr>us_role_assignments := [\<lparr>ra_role_id = 30, ra_scope = scope.Global\<rparr>]\<rparr>)]"
      by (simp add: manager_state_def)
    then show ?thesis
      using that manager_outcome(6) by (auto simp: account_holds_def role_conveys_def account_manager_def)
  qed
  then have "{(p, t). account_holds (ad_dir manager_state) p t} \<subseteq> {UserManage} \<times> UNIV"
    by auto
  moreover have "?call = (Ok (), snd ?call)" using manager_outcome(1) by (metis prod.collapse)
  ultimately show ?thesis using u(1) conveys by blast
qed

text \<open>
  a change whose side-car write fails stays live and unaudited. There is a call that reports
  an error although the role it describes is in the catalogue in force afterwards, while the
  ledger has no event for it.
\<close>

theorem failed_persist_stays_live:
  "\<exists>env io actor name ps st e. fst (create_role env io actor name ps st) = Err e
     \<and> catalog_get (st_roles st) (io_new_id io) = None
     \<and> catalog_get (st_roles (snd (create_role env io actor name ps st))) (io_new_id io) \<noteq> None
     \<and> ad_ledger (snd (create_role env io actor name ps st)) = ad_ledger st"
proof -
  let ?io = "plain_io\<lparr>io_persist := Some Internal\<rparr>"
  have "fst (create_role plain_admin_env ?io ana ''Clerk'' [ActRead] owner_state) = Err Internal"
    "catalog_get (st_roles owner_state) (io_new_id ?io) = None"
    "catalog_get (st_roles (snd (create_role plain_admin_env ?io ana ''Clerk'' [ActRead] owner_state))) (io_new_id ?io) \<noteq> None"
    "ad_ledger (snd (create_role plain_admin_env ?io ana ''Clerk'' [ActRead] owner_state)) = ad_ledger owner_state"
    by code_simp+
  then show ?thesis by blast
qed

end
