(* ===== verification/Slots.thy ===== *)
theory Slots
  imports Prelude
begin

section \<open>Signature slots\<close>

text \<open>
  What the two slot models of the program share: the termo instrument (\<open>termo.rs\<close>) and the
  external signature envelope (\<open>external_signing.rs\<close>). Both hold a vector of slots found by their
  id with \<open>iter().position\<close>, reject duplicates with a \<open>HashSet\<close>, and hold a slot back while
  an earlier required one is open. The interface \<open>slot_collection\<close> is that discipline; its client
  lemma is that collecting along any order that respects it is never held back.
\<close>

subsection \<open>Standard-library operations\<close>

text \<open>\<open>Iterator::position\<close>.\<close>

fun find_position :: "('a \<Rightarrow> bool) \<Rightarrow> 'a list \<Rightarrow> nat option" where
  "find_position P [] = None"
| "find_position P (x # xs) = (if P x then Some 0 else map_option Suc (find_position P xs))"

lemma position_Some: "find_position P xs = Some i \<Longrightarrow> i < length xs \<and> P (xs ! i)"
  by (induction xs arbitrary: i) (auto split: if_splits)

lemma position_None_iff: "find_position P xs = None \<longleftrightarrow> (\<forall>x \<in> set xs. \<not> P x)"
  by (induction xs) auto

lemma position_distinct:
  assumes "distinct (map f xs)" and "i < length xs"
  shows "find_position (\<lambda>x. f x = f (xs ! i)) xs = Some i"
  using assms
proof (induction xs arbitrary: i)
  case (Cons x xs)
  then show ?case by (cases i) (auto simp: image_iff)
qed simp

lemma find_distinct:
  assumes "distinct (map f xs)" and "x \<in> set xs"
  shows "find (\<lambda>y. f y = f x) xs = Some x"
  using assms by (induction xs) (auto simp: image_iff)

text \<open>\<open>Iterator::min_by_key\<close>: the first element with the least key.\<close>

definition min_by_key :: "('a \<Rightarrow> 'k :: linorder) \<Rightarrow> 'a list \<Rightarrow> 'a option" where
  "min_by_key f xs = (if xs = [] then None else Some (arg_min_list f xs))"

lemma min_by_key_None_iff [simp]: "min_by_key f xs = None \<longleftrightarrow> xs = []"
  by (simp add: min_by_key_def)

lemma min_by_key_Some: "min_by_key f xs = Some x \<Longrightarrow> x \<in> set xs \<and> (\<forall>y \<in> set xs. f x \<le> f y)"
  using arg_min_list_in [of xs f] f_arg_min_list_f [of xs f]
  by (auto simp: min_by_key_def split: if_splits)

text \<open>\<open>u16::try_from(n).unwrap_or(u16::MAX)\<close> of a count.\<close>

definition count_u16 :: "nat \<Rightarrow> u16" where
  "count_u16 n = (if n < 2 ^ 16 then of_nat n else - 1)"

lemma unat_count_u16: "unat (count_u16 n) = min n (2 ^ 16 - 1)"
proof (cases "n < 2 ^ 16")
  case True
  then show ?thesis by (simp add: count_u16_def unat_of_nat)
next
  case False
  have "unat (- 1 :: u16) = 2 ^ 16 - 1" by (simp add: unsigned_minus_1_eq_mask mask_eq_exp_minus_1)
  with False show ?thesis by (simp add: count_u16_def)
qed

lemma count_u16_mono: "m \<le> n \<Longrightarrow> count_u16 m \<le> count_u16 n"
  by (simp add: word_le_nat_alt unat_count_u16)

lemma count_u16_eq_0_iff [simp]: "count_u16 n = 0 \<longleftrightarrow> n = 0"
  by (simp add: unat_eq_0 [symmetric] unat_count_u16 min_def)

text \<open>\<open>a?; b?; c?\<close>: checks in sequence, the first that fails is the result.\<close>

fun checks :: "('e + unit) list \<Rightarrow> 'e + unit" where
  "checks [] = Ok ()"
| "checks (c # cs) = (case c of Inl e \<Rightarrow> Err e | Inr _ \<Rightarrow> checks cs)"

lemma checks_ok [simp]: "is_ok (checks cs) \<longleftrightarrow> (\<forall>c \<in> set cs. is_ok c)"
  by (induction cs) (auto split: sum.split)

declare checks.simps [simp del]

lemma is_ok_discard [simp]: "is_ok (case r of Inl e \<Rightarrow> Err e | Inr _ \<Rightarrow> Ok x) \<longleftrightarrow> is_ok r"
  by (simp add: is_ok_def split: sum.split)

lemma is_ok_if [simp]: "is_ok (if c then Err e else Ok x) \<longleftrightarrow> \<not> c"
  by simp

text \<open>
  \<open>for x in xs { if !seen.insert(key(x)) { return Err(dup(x)) } check(x)?; }\<close>: it succeeds exactly
  when the keys are distinct and every element passes its check.
\<close>

definition insert_checked :: "('a \<Rightarrow> 'k) \<Rightarrow> ('a \<Rightarrow> 'e) \<Rightarrow> ('a \<Rightarrow> 'e + unit) \<Rightarrow> 'k set \<Rightarrow> 'a \<Rightarrow> 'e + 'k set" where
  "insert_checked key dup check seen x =
     (if key x \<in> seen then Err (dup x)
      else case check x of Inl e \<Rightarrow> Err e | Inr _ \<Rightarrow> Ok (insert (key x) seen))"

lemma insert_checked_ok:
  "try_fold (insert_checked key dup check) seen xs = Inr seen' \<longleftrightarrow>
     seen' = seen \<union> key ` set xs \<and> distinct (map key xs) \<and> key ` set xs \<inter> seen = {}
     \<and> (\<forall>x \<in> set xs. is_ok (check x))"
proof (induction xs arbitrary: seen)
  case (Cons x xs)
  show ?case
  proof (cases "key x \<in> seen \<or> \<not> is_ok (check x)")
    case True
    then show ?thesis by (auto simp: insert_checked_def not_is_ok_iff split: sum.split)
  next
    case False
    then have "insert_checked key dup check seen x = Ok (insert (key x) seen)"
      by (auto simp: insert_checked_def is_ok_iff)
    then show ?thesis using False Cons.IH [of "insert (key x) seen"] by auto
  qed
qed auto

lemma insert_checked_is_ok:
  "is_ok (try_fold (insert_checked key dup check) {} xs) \<longleftrightarrow>
     distinct (map key xs) \<and> (\<forall>x \<in> set xs. is_ok (check x))"
  by (simp add: is_ok_iff insert_checked_ok)

subsection \<open>Collecting in order\<close>

text \<open>A sequence of calls with the \<open>?\<close> operator: the first error ends it.\<close>

fun sign_all :: "('i \<Rightarrow> 's \<Rightarrow> ('e, unit, 's) call) \<Rightarrow> 'i list \<Rightarrow> 's \<Rightarrow> ('e, unit, 's) call" where
  "sign_all sign [] s = (Ok (), s)"
| "sign_all sign (i # ids) s =
     (case sign i s of (Inl e, s') \<Rightarrow> (Err e, s') | (Inr _, s') \<Rightarrow> sign_all sign ids s')"

text \<open>An order in which every slot is still open, and nothing ahead of it is, at its turn.\<close>

fun in_turn :: "('i \<Rightarrow> 'i set) \<Rightarrow> 'i set \<Rightarrow> 'i list \<Rightarrow> bool" where
  "in_turn ahead slots [] = True"
| "in_turn ahead slots (i # ids) =
     (i \<in> slots \<and> ahead i \<inter> slots = {} \<and> in_turn ahead (slots - {i}) ids)"

lemma in_turn_sorted:
  fixes key :: "'i \<Rightarrow> 'k :: linorder"
  assumes "sorted (map key ids)" and "distinct ids" and "slots = set ids"
    and "\<And>i j. j \<in> ahead i \<Longrightarrow> key j < key i"
  shows "in_turn ahead slots ids"
  using assms(1-3)
proof (induction ids arbitrary: slots)
  case (Cons i ids)
  have "j \<notin> ahead i" if "j \<in> slots" for j
    using that Cons.prems(1, 3) assms(4) [of j i] by auto
  moreover have "in_turn ahead (slots - {i}) ids" using Cons by auto
  ultimately show ?case using Cons.prems(3) by auto
qed simp

text \<open>
  The interface of a slot collection: signing an open slot of a collecting instrument succeeds when
  the slots ahead of it are resolved; it resolves that slot and touches no other.
\<close>

locale slot_collection =
  fixes sign :: "'i \<Rightarrow> 's \<Rightarrow> ('e + unit) \<times> 's"
    and collecting :: "'s \<Rightarrow> bool"
    and open_slots :: "'s \<Rightarrow> 'i set"
    and ahead :: "'s \<Rightarrow> 'i \<Rightarrow> 'i set"
    and view :: "'s \<Rightarrow> 'v"
  assumes sign_open: "collecting s \<Longrightarrow> i \<in> open_slots s \<Longrightarrow> ahead s i \<inter> open_slots s = {} \<Longrightarrow>
      \<exists>s'. sign i s = (Ok (), s') \<and> collecting s' \<and> open_slots s' = open_slots s - {i}
        \<and> ahead s' = ahead s \<and> view s' = view s"
begin

lemma collect_all:
  assumes "collecting s" and "in_turn (ahead s) (open_slots s) ids"
  shows "\<exists>s'. sign_all sign ids s = (Ok (), s') \<and> collecting s'
    \<and> open_slots s' = open_slots s - set ids \<and> view s' = view s"
  using assms
proof (induction ids arbitrary: s)
  case (Cons i ids)
  then obtain s' where s': "sign i s = (Ok (), s')" "collecting s'"
      "open_slots s' = open_slots s - {i}" "ahead s' = ahead s" "view s' = view s"
    using sign_open [of s i] by auto
  have "in_turn (ahead s') (open_slots s') ids" using Cons.prems(2) s'(3, 4) by simp
  from Cons.IH [OF s'(2) this] s' show ?case by auto
qed simp

end

end
