(* ===== verification/External_Signing.thy ===== *)
theory External_Signing
  imports Slots "HOL-Library.Code_Target_Nat"
begin

section \<open>External signature envelopes\<close>

text \<open>
  \<open>src/crates/chancela-core/src/external_signing.rs\<close>: an envelope of ordered signer slots that
  collects signatures outside the signing pipeline, in parallel or in sequence, with the identity
  evidence each slot asks for. Every method that changes an envelope returns its result and the
  envelope afterwards; fresh UUIDs are arguments.
\<close>

subsection \<open>Data\<close>

datatype order_policy = Parallel | SequentialOrder

datatype identity_requirement =
  ContactControl | ProviderIdentityAssertion | GovernmentIdCheck | RepresentativeCapacity

datatype slot_status = Pending | Initiated | Signed | Declined | Revoked | Expired

record signature_evidence =
  se_label :: string
  se_reference :: string
  se_identity_requirement :: "identity_requirement option"
  se_digest :: "digest option"

record signer_slot =
  es_id :: u128
  es_signer_label :: string
  es_contact_hint :: "string option"
  es_identity_requirements :: "identity_requirement list"
  es_required :: bool
  es_status :: slot_status
  es_evidence :: "signature_evidence list"

record envelope =
  en_id :: u128
  en_act_id :: u128
  en_order_policy :: order_policy
  en_slots :: "signer_slot list"
  en_completed :: bool

record envelope_summary =
  ec_completed :: bool
  ec_required_slot_count :: nat
  ec_signed_required_slot_count :: nat
  ec_blocking_required_slot_ids :: "u128 list"

datatype external_signing_error =
    DuplicateSlot u128
  | UnknownSlot u128
  | OrderBlocked u128 u128
  | InvalidSlotTransition u128 slot_status slot_status
  | UnsignedRequiredSlots "u128 list"
  | DuplicateIdentityRequirement u128 identity_requirement
  | MissingIdentityEvidence u128 "identity_requirement list"
  | EmptySignatureEvidence u128
  | NoRequiredSlot
  | EnvelopeAlreadyCompleted u128
  | SecretLikeMarker u128 string
  | EmptyEvidenceReference u128
  | EmptySignerLabel u128

subsection \<open>Slots and evidence\<close>

definition is_terminal :: "slot_status \<Rightarrow> bool" where
  "is_terminal s \<longleftrightarrow> s \<in> {Signed, Declined, Revoked, Expired}"

definition resolves_sequential_order :: "slot_status \<Rightarrow> bool" where
  "resolves_sequential_order s = is_terminal s"

definition can_transition_to :: "slot_status \<Rightarrow> slot_status \<Rightarrow> bool" where
  "can_transition_to from to \<longleftrightarrow>
     (from, to) \<in> {(Pending, Initiated), (Pending, Signed), (Pending, Declined), (Pending, Revoked),
       (Pending, Expired), (Initiated, Signed), (Initiated, Declined), (Initiated, Revoked),
       (Initiated, Expired)}"

definition SECRET_LIKE_MARKERS :: "string list" where
  "SECRET_LIKE_MARKERS =
     [''token='', ''token:'', ''access_token='', ''refresh_token='', ''password='', ''password:'',
      ''passwd='', ''pwd='', ''secret='', ''client_secret='', ''api_key='', ''apikey='',
      ''authorization:'', ''bearer '']"

definition contains_secret_like_marker :: "string \<Rightarrow> bool" where
  "contains_secret_like_marker v =
     (let normalized = map (\<lambda>c. if c = CHR ''-'' then CHR ''_'' else c) (to_ascii_lowercase v) in
      list_ex (\<lambda>marker. contains_str marker normalized) SECRET_LIKE_MARKERS)"

definition new_evidence :: "string \<Rightarrow> string \<Rightarrow> digest option \<Rightarrow> signature_evidence" where
  "new_evidence label reference digest =
     \<lparr>se_label = label, se_reference = reference, se_identity_requirement = None, se_digest = digest\<rparr>"

definition satisfying_identity_requirement ::
  "identity_requirement \<Rightarrow> signature_evidence \<Rightarrow> signature_evidence" where
  "satisfying_identity_requirement requirement e = e\<lparr>se_identity_requirement := Some requirement\<rparr>"

definition validate_for_slot :: "u128 \<Rightarrow> signature_evidence \<Rightarrow> external_signing_error + unit" where
  "validate_for_slot slot_id e =
     (if is_blank (se_reference e) then Err (EmptyEvidenceReference slot_id)
      else if contains_secret_like_marker (se_reference e)
      then Err (SecretLikeMarker slot_id ''evidence.reference'')
      else Ok ())"

definition required_signer :: "u128 \<Rightarrow> string \<Rightarrow> string option \<Rightarrow> signer_slot" where
  "required_signer i label hint =
     \<lparr>es_id = i, es_signer_label = label, es_contact_hint = hint, es_identity_requirements = [],
      es_required = True, es_status = Pending, es_evidence = []\<rparr>"

definition optional_signer :: "u128 \<Rightarrow> string \<Rightarrow> string option \<Rightarrow> signer_slot" where
  "optional_signer i label hint = (required_signer i label hint)\<lparr>es_required := False\<rparr>"

definition with_identity_requirements :: "identity_requirement list \<Rightarrow> signer_slot \<Rightarrow> signer_slot" where
  "with_identity_requirements requirements s = s\<lparr>es_identity_requirements := requirements\<rparr>"

definition missing_requirements ::
  "signature_evidence list \<Rightarrow> signer_slot \<Rightarrow> identity_requirement list" where
  "missing_requirements pending s =
     filter (\<lambda>r. \<not> list_ex (\<lambda>e. se_identity_requirement e = Some r) (es_evidence s @ pending))
       (es_identity_requirements s)"

definition ensure_identity_requirements_satisfied ::
  "signature_evidence list \<Rightarrow> signer_slot \<Rightarrow> external_signing_error + unit" where
  "ensure_identity_requirements_satisfied pending s =
     (let missing = missing_requirements pending s in
      if missing = [] then Ok () else Err (MissingIdentityEvidence (es_id s) missing))"

text \<open>A loop that stops at the first element whose check fails.\<close>

definition check_each :: "('a \<Rightarrow> 'e + unit) \<Rightarrow> 'a list \<Rightarrow> 'e + unit" where
  "check_each check xs = checks (map check xs)"

definition check_requirements :: "signer_slot \<Rightarrow> external_signing_error + unit" where
  "check_requirements s =
     (case try_fold (insert_checked (\<lambda>r. r) (DuplicateIdentityRequirement (es_id s)) (\<lambda>_. Ok ())) {}
             (es_identity_requirements s) of
        Inl e \<Rightarrow> Err e
      | Inr _ \<Rightarrow> Ok ())"

definition signer_validate :: "signer_slot \<Rightarrow> external_signing_error + unit" where
  "signer_validate s = checks
     [if is_blank (es_signer_label s) then Err (EmptySignerLabel (es_id s)) else Ok (),
      check_requirements s,
      case es_contact_hint s of
        Some hint \<Rightarrow> if contains_secret_like_marker hint
                    then Err (SecretLikeMarker (es_id s) ''slot.contact_hint'') else Ok ()
      | None \<Rightarrow> Ok (),
      check_each (validate_for_slot (es_id s)) (es_evidence s),
      if es_status s = Signed then ensure_identity_requirements_satisfied [] s else Ok ()]"

subsection \<open>The envelope\<close>

definition unsigned_required :: "envelope \<Rightarrow> u128 list" where
  "unsigned_required e = map es_id (filter (\<lambda>s. es_required s \<and> es_status s \<noteq> Signed) (en_slots e))"

definition envelope_ensure_completable :: "envelope \<Rightarrow> external_signing_error + unit" where
  "envelope_ensure_completable e =
     (if unsigned_required e \<noteq> [] then Err (UnsignedRequiredSlots (unsigned_required e))
      else if \<not> list_ex es_required (en_slots e) then Err NoRequiredSlot
      else Ok ())"

definition envelope_validate :: "envelope \<Rightarrow> external_signing_error + unit" where
  "envelope_validate e =
     (case try_fold (insert_checked es_id (\<lambda>s. DuplicateSlot (es_id s)) signer_validate) {} (en_slots e) of
        Inl err \<Rightarrow> Err err
      | Inr _ \<Rightarrow> if en_completed e then envelope_ensure_completable e else Ok ())"

definition new_envelope ::
  "u128 \<Rightarrow> u128 \<Rightarrow> order_policy \<Rightarrow> signer_slot list \<Rightarrow> external_signing_error + envelope" where
  "new_envelope new_id act_id policy slots =
     (let e = \<lparr>en_id = new_id, en_act_id = act_id, en_order_policy = policy, en_slots = slots,
             en_completed = False\<rparr> in
      case envelope_validate e of Inl err \<Rightarrow> Err err | Inr _ \<Rightarrow> Ok e)"

definition slot_by_id :: "u128 \<Rightarrow> envelope \<Rightarrow> signer_slot option" where
  "slot_by_id slot_id e = find (\<lambda>s. es_id s = slot_id) (en_slots e)"

definition envelope_completion_summary :: "envelope \<Rightarrow> envelope_summary" where
  "envelope_completion_summary e =
     \<lparr>ec_completed = en_completed e,
      ec_required_slot_count = length (filter es_required (en_slots e)),
      ec_signed_required_slot_count =
        length (filter (\<lambda>s. es_required s \<and> es_status s = Signed) (en_slots e)),
      ec_blocking_required_slot_ids = unsigned_required e\<rparr>"

definition ensure_not_completed :: "envelope \<Rightarrow> external_signing_error + unit" where
  "ensure_not_completed e = (if en_completed e then Err (EnvelopeAlreadyCompleted (en_id e)) else Ok ())"

definition slot_index :: "u128 \<Rightarrow> envelope \<Rightarrow> external_signing_error + nat" where
  "slot_index slot_id e =
     (case find_position (\<lambda>s. es_id s = slot_id) (en_slots e) of
        Some i \<Rightarrow> Ok i
      | None \<Rightarrow> Err (UnknownSlot slot_id))"

definition ensure_order_allows :: "nat \<Rightarrow> envelope \<Rightarrow> external_signing_error + unit" where
  "ensure_order_allows index e =
     (if en_order_policy e \<noteq> SequentialOrder then Ok ()
      else check_each (\<lambda>s. if es_required s \<and> \<not> resolves_sequential_order (es_status s)
          then Err (OrderBlocked (es_id (en_slots e ! index)) (es_id s)) else Ok ())
        (take index (en_slots e)))"

definition transition_slot ::
  "u128 \<Rightarrow> slot_status \<Rightarrow> signature_evidence list \<Rightarrow> envelope \<Rightarrow> (external_signing_error, unit, envelope) call" where
  "transition_slot slot_id to evidence e =
     (case checks [ensure_not_completed e, envelope_validate e, check_each (validate_for_slot slot_id) evidence] of
        Inl err \<Rightarrow> (Err err, e)
      | Inr _ \<Rightarrow>
     (case slot_index slot_id e of
        Inl err \<Rightarrow> (Err err, e)
      | Inr index \<Rightarrow>
     (case ensure_order_allows index e of
        Inl err \<Rightarrow> (Err err, e)
      | Inr _ \<Rightarrow>
     (let slot = en_slots e ! index in
      if \<not> can_transition_to (es_status slot) to
      then (Err (InvalidSlotTransition slot_id (es_status slot) to), e)
      else case (if to = Signed then ensure_identity_requirements_satisfied evidence slot else Ok ()) of
        Inl err \<Rightarrow> (Err err, e)
      | Inr _ \<Rightarrow>
          (Ok (), e\<lparr>en_slots := (en_slots e)[index :=
             slot\<lparr>es_status := to, es_evidence := es_evidence slot @ evidence\<rparr>]\<rparr>)))))"

definition initiate_slot :: "u128 \<Rightarrow> envelope \<Rightarrow> (external_signing_error, unit, envelope) call" where
  "initiate_slot slot_id = transition_slot slot_id Initiated []"

definition sign_slot ::
  "u128 \<Rightarrow> signature_evidence \<Rightarrow> envelope \<Rightarrow> (external_signing_error, unit, envelope) call" where
  "sign_slot slot_id evidence = transition_slot slot_id Signed [evidence]"

definition sign_slot_with_evidence ::
  "u128 \<Rightarrow> signature_evidence list \<Rightarrow> envelope \<Rightarrow> (external_signing_error, unit, envelope) call" where
  "sign_slot_with_evidence slot_id evidence e =
     (if evidence = [] then (Err (EmptySignatureEvidence slot_id), e)
      else transition_slot slot_id Signed evidence e)"

definition decline_slot ::
  "u128 \<Rightarrow> signature_evidence option \<Rightarrow> envelope \<Rightarrow> (external_signing_error, unit, envelope) call" where
  "decline_slot slot_id evidence = transition_slot slot_id Declined (case evidence of Some x \<Rightarrow> [x] | None \<Rightarrow> [])"

definition revoke_slot ::
  "u128 \<Rightarrow> signature_evidence option \<Rightarrow> envelope \<Rightarrow> (external_signing_error, unit, envelope) call" where
  "revoke_slot slot_id evidence = transition_slot slot_id Revoked (case evidence of Some x \<Rightarrow> [x] | None \<Rightarrow> [])"

definition expire_slot ::
  "u128 \<Rightarrow> signature_evidence option \<Rightarrow> envelope \<Rightarrow> (external_signing_error, unit, envelope) call" where
  "expire_slot slot_id evidence = transition_slot slot_id Expired (case evidence of Some x \<Rightarrow> [x] | None \<Rightarrow> [])"

definition complete_envelope :: "envelope \<Rightarrow> (external_signing_error, unit, envelope) call" where
  "complete_envelope e =
     (case checks [ensure_not_completed e, envelope_validate e, envelope_ensure_completable e] of
        Inl err \<Rightarrow> (Err err, e)
      | Inr _ \<Rightarrow> (Ok (), e\<lparr>en_completed := True\<rparr>))"

section \<open>Correctness of the envelope\<close>

datatype envelope_op =
    InitiateSlot u128
  | SignSlot u128 signature_evidence
  | SignSlotWithEvidence u128 "signature_evidence list"
  | DeclineSlot u128 "signature_evidence option"
  | RevokeSlot u128 "signature_evidence option"
  | ExpireSlot u128 "signature_evidence option"
  | Complete

fun envelope_exec :: "envelope_op \<Rightarrow> envelope \<Rightarrow> (external_signing_error, unit, envelope) call" where
  "envelope_exec (InitiateSlot i) e = initiate_slot i e"
| "envelope_exec (SignSlot i x) e = sign_slot i x e"
| "envelope_exec (SignSlotWithEvidence i xs) e = sign_slot_with_evidence i xs e"
| "envelope_exec (DeclineSlot i x) e = decline_slot i x e"
| "envelope_exec (RevokeSlot i x) e = revoke_slot i x e"
| "envelope_exec (ExpireSlot i x) e = expire_slot i x e"
| "envelope_exec Complete e = complete_envelope e"

lemmas slot_operations = initiate_slot_def sign_slot_def decline_slot_def revoke_slot_def
  expire_slot_def sign_slot_with_evidence_def

lemma check_each_ok [simp]: "is_ok (check_each c xs) \<longleftrightarrow> (\<forall>x \<in> set xs. is_ok (c x))"
  by (simp add: check_each_def)

lemma transition_slot_cases:
  obtains (refused) err where "transition_slot i to evidence e = (Err err, e)"
  | (moved) k where "transition_slot i to evidence e =
        (Ok (), e\<lparr>en_slots := (en_slots e)[k := (en_slots e ! k)
           \<lparr>es_status := to, es_evidence := es_evidence (en_slots e ! k) @ evidence\<rparr>]\<rparr>)"
      "k < length (en_slots e)" "es_id (en_slots e ! k) = i" "\<not> en_completed e" "is_ok (envelope_validate e)"
      "\<forall>x \<in> set evidence. is_ok (validate_for_slot i x)"
      "can_transition_to (es_status (en_slots e ! k)) to"
      "to = Signed \<Longrightarrow> missing_requirements evidence (en_slots e ! k) = []"
proof (cases "\<exists>err. transition_slot i to evidence e = (Err err, e)")
  case True
  with refused show thesis by blast
next
  case False
  define c where "c = checks [ensure_not_completed e, envelope_validate e, check_each (validate_for_slot i) evidence]"
  from False have "is_ok c" by (auto simp: transition_slot_def c_def is_ok_def split: sum.split)
  then have pre: "\<not> en_completed e" "is_ok (envelope_validate e)" "\<forall>x \<in> set evidence. is_ok (validate_for_slot i x)"
    unfolding c_def by (auto simp: ensure_not_completed_def simp del: checks.simps split: if_splits)
  from \<open>is_ok c\<close> False obtain k where k: "slot_index i e = Ok k" "is_ok (ensure_order_allows k e)"
      "can_transition_to (es_status (en_slots e ! k)) to"
      "to = Signed \<longrightarrow> is_ok (ensure_identity_requirements_satisfied evidence (en_slots e ! k))"
    by (auto simp: transition_slot_def c_def [symmetric] is_ok_def Let_def split: sum.splits if_splits)
  then have at: "k < length (en_slots e)" "es_id (en_slots e ! k) = i"
    using position_Some [of "\<lambda>s. es_id s = i" "en_slots e" k] by (auto simp: slot_index_def split: option.splits)
  have "transition_slot i to evidence e =
        (Ok (), e\<lparr>en_slots := (en_slots e)[k := (en_slots e ! k)
           \<lparr>es_status := to, es_evidence := es_evidence (en_slots e ! k) @ evidence\<rparr>]\<rparr>)"
    using \<open>is_ok c\<close> k by (auto simp: transition_slot_def c_def [symmetric] is_ok_iff Let_def)
  moreover have "to = Signed \<Longrightarrow> missing_requirements evidence (en_slots e ! k) = []"
    using k(4) by (auto simp: ensure_identity_requirements_satisfied_def Let_def split: if_splits)
  ultimately show thesis using moved at pre k(3) by blast
qed

text \<open>The static checks, as a predicate on the slots.\<close>

lemma signer_validate_ok:
  "is_ok (signer_validate s) \<longleftrightarrow> \<not> is_blank (es_signer_label s) \<and> distinct (es_identity_requirements s)
     \<and> (\<forall>hint. es_contact_hint s = Some hint \<longrightarrow> \<not> contains_secret_like_marker hint)
     \<and> (\<forall>x \<in> set (es_evidence s). is_ok (validate_for_slot (es_id s) x))
     \<and> (es_status s = Signed \<longrightarrow> missing_requirements [] s = [])"
proof -
  have "is_ok (check_requirements s) \<longleftrightarrow> distinct (es_identity_requirements s)"
    using insert_checked_is_ok [of "\<lambda>r. r" "DuplicateIdentityRequirement (es_id s)" "\<lambda>_. Ok ()" "es_identity_requirements s"]
    by (auto simp: check_requirements_def is_ok_def split: sum.splits)
  then show ?thesis
    by (auto simp: signer_validate_def ensure_identity_requirements_satisfied_def Let_def split: option.split)
qed

lemma envelope_validate_ok:
  "is_ok (envelope_validate e) \<longleftrightarrow> distinct (map es_id (en_slots e))
     \<and> (\<forall>s \<in> set (en_slots e). is_ok (signer_validate s))
     \<and> (en_completed e \<longrightarrow> is_ok (envelope_ensure_completable e))"
proof -
  let ?fold = "try_fold (insert_checked es_id (\<lambda>s. DuplicateSlot (es_id s)) signer_validate) {} (en_slots e)"
  have "is_ok (envelope_validate e) \<longleftrightarrow> is_ok ?fold \<and> (en_completed e \<longrightarrow> is_ok (envelope_ensure_completable e))"
    by (auto simp: envelope_validate_def is_ok_def split: sum.splits)
  then show ?thesis by (simp add: insert_checked_is_ok)
qed

lemma missing_requirements_append:
  "missing_requirements [] (s\<lparr>es_status := to, es_evidence := es_evidence s @ xs\<rparr>) = missing_requirements xs s"
  by (simp add: missing_requirements_def)

lemma moved_slot_valid:
  assumes "is_ok (signer_validate s)" and "\<forall>x \<in> set xs. is_ok (validate_for_slot (es_id s) x)"
    and "to = Signed \<Longrightarrow> missing_requirements xs s = []"
  shows "is_ok (signer_validate (s\<lparr>es_status := to, es_evidence := es_evidence s @ xs\<rparr>))"
  using assms by (auto simp: signer_validate_ok missing_requirements_append)

lemma transition_valid:
  assumes "is_ok (envelope_validate e)"
  shows "is_ok (envelope_validate (snd (transition_slot i to xs e)))"
proof (cases rule: transition_slot_cases [of i to xs e])
  case (moved k)
  let ?slot = "(en_slots e ! k)\<lparr>es_status := to, es_evidence := es_evidence (en_slots e ! k) @ xs\<rparr>"
  have "is_ok (signer_validate ?slot)"
    using moved_slot_valid [of "en_slots e ! k" xs to] moved assms by (auto simp: envelope_validate_ok)
  moreover have "map es_id ((en_slots e)[k := ?slot]) = map es_id (en_slots e)"
    using moved(2) by (simp add: map_update list_update_same_conv)
  ultimately show ?thesis
    using assms moved(1, 4) set_update_subset_insert [of "en_slots e" k ?slot]
    by (auto simp: envelope_validate_ok)
qed (simp add: assms)

lemma complete_envelope_cases:
  obtains (refused) err where "complete_envelope e = (Err err, e)"
  | (completed) "complete_envelope e = (Ok (), e\<lparr>en_completed := True\<rparr>)" "\<not> en_completed e"
      "is_ok (envelope_validate e)" "is_ok (envelope_ensure_completable e)"
proof (cases "checks [ensure_not_completed e, envelope_validate e, envelope_ensure_completable e]")
  case (Inl err)
  then show thesis using refused by (simp add: complete_envelope_def)
next
  case (Inr u)
  then have "is_ok (checks [ensure_not_completed e, envelope_validate e, envelope_ensure_completable e])" by simp
  then have "\<not> en_completed e" "is_ok (envelope_validate e)" "is_ok (envelope_ensure_completable e)"
    by (auto simp: ensure_not_completed_def split: if_splits)
  then show thesis using Inr completed by (simp add: complete_envelope_def)
qed

lemma completable_mark [simp]:
  "envelope_ensure_completable (e\<lparr>en_completed := b\<rparr>) = envelope_ensure_completable e"
  by (simp add: envelope_ensure_completable_def unsigned_required_def)

lemma complete_valid:
  "is_ok (envelope_validate e) \<Longrightarrow> is_ok (envelope_validate (snd (complete_envelope e)))"
  by (cases rule: complete_envelope_cases [of e]) (auto simp: envelope_validate_ok)

interpretation envelope_machine: machine envelope_exec "\<lambda>e. is_ok (envelope_validate e)"
proof
  fix e :: envelope and op
  assume "is_ok (envelope_validate e)"
  then show "is_ok (envelope_validate (snd (envelope_exec op e)))"
    by (cases op) (simp_all add: slot_operations transition_valid complete_valid)
qed

interpretation envelope_atomic: atomic_machine envelope_exec
proof
  fix e :: envelope and op err
  have "snd (transition_slot i to xs e) = e" if "fst (transition_slot i to xs e) = Inl err" for i to xs
    using that by (cases rule: transition_slot_cases [of i to xs e]) simp_all
  moreover have "snd (complete_envelope e) = e" if "fst (complete_envelope e) = Inl err"
    using that by (cases rule: complete_envelope_cases [of e]) simp_all
  moreover assume "fst (envelope_exec op e) = Inl err"
  ultimately show "snd (envelope_exec op e) = e"
    by (cases op) (auto simp: slot_operations split: if_splits)
qed

lemma completed_refuses: "en_completed e \<Longrightarrow> snd (envelope_exec op e) = e"
proof -
  assume complete: "en_completed e"
  then have "snd (transition_slot i to xs e) = e" for i to xs
    by (cases rule: transition_slot_cases [of i to xs e]) simp_all
  moreover from complete have "snd (complete_envelope e) = e"
    by (cases rule: complete_envelope_cases [of e]) simp_all
  ultimately show ?thesis by (cases op) (simp_all add: slot_operations)
qed

interpretation envelope_freezing: freezing_machine envelope_exec "\<lambda>_. True" en_completed "\<lambda>e. e"
  by unfold_locales (simp_all add: completed_refuses)

subsection \<open>What completion means\<close>

text \<open>The life of one slot, as the step relation the status type documents.\<close>

inductive slot_step :: "slot_status \<Rightarrow> slot_status \<Rightarrow> bool" where
  initiate: "slot_step Pending Initiated"
| resolve: "s \<in> {Pending, Initiated} \<Longrightarrow> is_terminal s' \<Longrightarrow> slot_step s s'"

inductive_simps slot_step_iff: "slot_step s s'"

lemma can_transition_iff: "can_transition_to s s' \<longleftrightarrow> slot_step s s'"
  by (cases s; cases s') (simp_all add: can_transition_to_def slot_step_iff is_terminal_def)

lemma terminal_final: "is_terminal s \<Longrightarrow> \<not> slot_step s s'"
  by (auto simp: slot_step_iff is_terminal_def)

text \<open>
  How one call changes one slot: not at all, or by a step of its life that appends evidence, and by
  evidence that is not empty when the step is the signature.
\<close>

definition slot_evolves :: "signer_slot \<Rightarrow> signer_slot \<Rightarrow> bool" where
  "slot_evolves s s' \<longleftrightarrow> s' = s \<or> (\<exists>xs. s' = s\<lparr>es_status := es_status s', es_evidence := es_evidence s @ xs\<rparr>
     \<and> slot_step (es_status s) (es_status s') \<and> (es_status s' = Signed \<longrightarrow> xs \<noteq> []))"

lemma transition_evolves:
  assumes "to = Signed \<Longrightarrow> xs \<noteq> []"
  shows "list_all2 slot_evolves (en_slots e) (en_slots (snd (transition_slot i to xs e)))"
proof (cases rule: transition_slot_cases [of i to xs e])
  case (moved k)
  then have "slot_evolves (en_slots e ! k) ((en_slots e ! k)\<lparr>es_status := to, es_evidence := es_evidence (en_slots e ! k) @ xs\<rparr>)"
    using assms by (auto simp: slot_evolves_def can_transition_iff)
  moreover have "slot_evolves s s" for s by (simp add: slot_evolves_def)
  ultimately show ?thesis
    using moved(1, 2) by (auto simp: list_all2_conv_all_nth nth_list_update)
qed (simp add: list_all2_refl slot_evolves_def)

lemma exec_evolves: "list_all2 slot_evolves (en_slots e) (en_slots (snd (envelope_exec op e)))"
proof (cases op)
  case Complete
  then show ?thesis
    by (cases rule: complete_envelope_cases [of e]) (simp_all add: list_all2_refl slot_evolves_def)
next
  case (SignSlotWithEvidence i xs)
  then show ?thesis
    using transition_evolves [of Signed xs e i]
    by (simp add: slot_operations list_all2_refl slot_evolves_def)
qed (auto intro!: transition_evolves simp: slot_operations)

text \<open>A signed slot carries evidence, and a resolved unsigned required slot stays one.\<close>

definition signed_with_evidence :: "envelope \<Rightarrow> bool" where
  "signed_with_evidence e \<longleftrightarrow> (\<forall>s \<in> set (en_slots e). es_status s = Signed \<longrightarrow> es_evidence s \<noteq> [])"

definition dead_slot :: "signer_slot \<Rightarrow> bool" where
  "dead_slot s \<longleftrightarrow> es_required s \<and> is_terminal (es_status s) \<and> es_status s \<noteq> Signed"

interpretation evidence_machine: machine envelope_exec signed_with_evidence
proof
  fix e :: envelope and op
  assume "signed_with_evidence e"
  then show "signed_with_evidence (snd (envelope_exec op e))"
    using exec_evolves [of e op]
    by (fastforce simp: signed_with_evidence_def list_all2_conv_all_nth in_set_conv_nth slot_evolves_def)
qed

lemma dead_slot_stays:
  assumes "slot_evolves s s'" and "dead_slot s"
  shows "dead_slot s'"
  using assms terminal_final by (auto simp: slot_evolves_def dead_slot_def)

lemma dead_slot_blocks: "s \<in> set (en_slots e) \<Longrightarrow> dead_slot s \<Longrightarrow> \<not> is_ok (envelope_ensure_completable e)"
  by (auto simp: envelope_ensure_completable_def unsigned_required_def dead_slot_def filter_empty_conv)

interpretation dead_machine: machine envelope_exec "\<lambda>e. (\<exists>s \<in> set (en_slots e). dead_slot s) \<and> \<not> en_completed e"
proof
  fix e :: envelope and op
  assume dead: "(\<exists>s \<in> set (en_slots e). dead_slot s) \<and> \<not> en_completed e"
  then have "\<exists>s \<in> set (en_slots (snd (envelope_exec op e))). dead_slot s"
    using exec_evolves [of e op] dead_slot_stays by (metis in_set_conv_nth list_all2_conv_all_nth)
  moreover have "\<not> en_completed (snd (transition_slot i to xs e))" for i to xs
    using dead by (cases rule: transition_slot_cases [of i to xs e]) simp_all
  moreover have "\<not> en_completed (snd (complete_envelope e))"
    using dead dead_slot_blocks by (cases rule: complete_envelope_cases [of e]) auto
  ultimately show "(\<exists>s \<in> set (en_slots (snd (envelope_exec op e))). dead_slot s) \<and> \<not> en_completed (snd (envelope_exec op e))"
    using dead by (cases op) (simp_all add: slot_operations)
qed

subsection \<open>Collecting the signatures\<close>

text \<open>What a caller must bring: for every slot some valid evidence that covers its requirements.\<close>

definition supplied :: "(u128 \<Rightarrow> signature_evidence list) \<Rightarrow> signer_slot \<Rightarrow> bool" where
  "supplied proofs s \<longleftrightarrow> proofs (es_id s) \<noteq> []
     \<and> (\<forall>x \<in> set (proofs (es_id s)). is_ok (validate_for_slot (es_id s) x))
     \<and> missing_requirements (proofs (es_id s)) s = []"

definition collecting_with :: "(u128 \<Rightarrow> signature_evidence list) \<Rightarrow> envelope \<Rightarrow> bool" where
  "collecting_with proofs e \<longleftrightarrow> is_ok (envelope_validate e) \<and> \<not> en_completed e
     \<and> (\<forall>s \<in> set (en_slots e). supplied proofs s)"

definition open_signers :: "envelope \<Rightarrow> u128 set" where
  "open_signers e = es_id ` {s \<in> set (en_slots e). \<not> is_terminal (es_status s)}"

definition shape :: "envelope \<Rightarrow> order_policy \<times> (u128 \<times> bool) list" where
  "shape e = (en_order_policy e, map (\<lambda>s. (es_id s, es_required s)) (en_slots e))"

definition signers_ahead :: "envelope \<Rightarrow> u128 \<Rightarrow> u128 set" where
  "signers_ahead e i = (case shape e of (policy, slots) \<Rightarrow>
     if policy = SequentialOrder
     then {fst (slots ! j) |j k. j < k \<and> k < length slots \<and> fst (slots ! k) = i \<and> snd (slots ! j)} else {})"

definition refused_signers :: "envelope \<Rightarrow> u128 set" where
  "refused_signers e = es_id ` {s \<in> set (en_slots e). is_terminal (es_status s) \<and> es_status s \<noteq> Signed}"

lemma slot_update_images:
  assumes "distinct (map es_id (en_slots e))" and "k < length (en_slots e)" and "es_status s = Signed"
  shows "open_signers (e\<lparr>en_slots := (en_slots e)[k := s]\<rparr>) = open_signers e - {es_id (en_slots e ! k)}"
    and "\<not> is_terminal (es_status (en_slots e ! k)) \<Longrightarrow>
      refused_signers (e\<lparr>en_slots := (en_slots e)[k := s]\<rparr>) = refused_signers e"
proof -
  have inj: "inj_on es_id (set (en_slots e))" and dist: "distinct (en_slots e)"
    using assms(1) by (simp_all add: distinct_map)
  have upd: "set ((en_slots e)[k := s]) = insert s (set (en_slots e) - {en_slots e ! k})"
    using dist assms(2) by (rule set_update_distinct)
  have resolved: "is_terminal (es_status s)" by (simp add: assms(3) is_terminal_def)
  show "open_signers (e\<lparr>en_slots := (en_slots e)[k := s]\<rparr>) = open_signers e - {es_id (en_slots e ! k)}"
    using inj_onD [OF inj] nth_mem [OF assms(2)] resolved upd by (auto simp: open_signers_def)
  show "refused_signers (e\<lparr>en_slots := (en_slots e)[k := s]\<rparr>) = refused_signers e"
    if "\<not> is_terminal (es_status (en_slots e ! k))"
    using that assms(3) upd by (auto simp: refused_signers_def)
qed

lemma sign_open_signer:
  assumes "collecting_with proofs e" and "i \<in> open_signers e" and "signers_ahead e i \<inter> open_signers e = {}"
  shows "\<exists>e'. sign_slot_with_evidence i (proofs i) e = (Ok (), e') \<and> collecting_with proofs e'
    \<and> open_signers e' = open_signers e - {i} \<and> shape e' = shape e \<and> refused_signers e' = refused_signers e"
proof -
  have valid: "is_ok (envelope_validate e)" "\<not> en_completed e" "\<forall>s \<in> set (en_slots e). supplied proofs s"
    using assms(1) by (simp_all add: collecting_with_def)
  then have dist: "distinct (map es_id (en_slots e))" by (simp add: envelope_validate_ok)
  obtain k where k: "k < length (en_slots e)" "es_id (en_slots e ! k) = i" "\<not> is_terminal (es_status (en_slots e ! k))"
    using assms(2) by (auto simp: open_signers_def in_set_conv_nth)
  define slot' where "slot' = (en_slots e ! k)\<lparr>es_status := Signed, es_evidence := es_evidence (en_slots e ! k) @ proofs i\<rparr>"
  have sup: "supplied proofs (en_slots e ! k)" using valid(3) k(1) by simp
  have "slot_index i e = Ok k"
    using position_distinct [OF dist k(1)] k(2) by (simp add: slot_index_def)
  moreover have order: "is_ok (ensure_order_allows k e)"
  proof -
    have "is_terminal (es_status (en_slots e ! j))"
      if "en_order_policy e = SequentialOrder" "j < k" "es_required (en_slots e ! j)" for j
    proof (rule ccontr)
      assume "\<not> is_terminal (es_status (en_slots e ! j))"
      then have "es_id (en_slots e ! j) \<in> open_signers e" using that k(1) by (auto simp: open_signers_def)
      moreover have "es_id (en_slots e ! j) \<in> signers_ahead e i"
        using that k by (force simp: signers_ahead_def shape_def)
      ultimately show False using assms(3) by blast
    qed
    then show ?thesis
      using k(1) by (auto simp: ensure_order_allows_def resolves_sequential_order_def in_set_conv_nth)
  qed
  moreover have "can_transition_to (es_status (en_slots e ! k)) Signed"
    using k(3) by (cases "es_status (en_slots e ! k)") (simp_all add: can_transition_to_def is_terminal_def)
  moreover have "is_ok (checks [ensure_not_completed e, envelope_validate e, check_each (validate_for_slot i) (proofs i)])"
    using valid sup k(2) by (simp add: ensure_not_completed_def supplied_def)
  ultimately have sign: "sign_slot_with_evidence i (proofs i) e = (Ok (), e\<lparr>en_slots := (en_slots e)[k := slot']\<rparr>)"
    using sup k(2) by (auto simp: sign_slot_with_evidence_def transition_slot_def supplied_def is_ok_iff Let_def
        ensure_identity_requirements_satisfied_def slot'_def)
  let ?e = "e\<lparr>en_slots := (en_slots e)[k := slot']\<rparr>"
  have "is_ok (envelope_validate ?e)"
    using transition_valid [OF valid(1), of i Signed "proofs i"] sign
    by (simp add: sign_slot_with_evidence_def split: if_splits)
  moreover have "supplied proofs slot'"
    using sup by (auto simp: supplied_def slot'_def missing_requirements_def filter_empty_conv)
  then have "\<forall>s \<in> set (en_slots ?e). supplied proofs s"
    using valid(3) set_update_subset_insert [of "en_slots e" k slot'] by auto
  ultimately have "collecting_with proofs ?e" using valid(2) by (simp add: collecting_with_def)
  moreover have "shape ?e = shape e"
    using k(1) by (simp add: shape_def map_update slot'_def list_update_same_conv)
  ultimately show ?thesis
    using sign slot_update_images [OF dist k(1), of slot'] k(2, 3) by (simp add: slot'_def)
qed

interpretation envelope_slots: slot_collection "\<lambda>i. sign_slot_with_evidence i (proofs i)"
  "collecting_with proofs" open_signers signers_ahead "\<lambda>e. (shape e, refused_signers e)" for proofs
proof
  fix e i
  assume "collecting_with proofs e" "i \<in> open_signers e" "signers_ahead e i \<inter> open_signers e = {}"
  from sign_open_signer [OF this]
  obtain e' where "sign_slot_with_evidence i (proofs i) e = (Ok (), e')" "collecting_with proofs e'"
      "open_signers e' = open_signers e - {i}" "shape e' = shape e" "refused_signers e' = refused_signers e"
    by blast
  then show "\<exists>s'. sign_slot_with_evidence i (proofs i) e = (Ok (), s') \<and> collecting_with proofs s'
      \<and> open_signers s' = open_signers e - {i} \<and> signers_ahead s' = signers_ahead e
      \<and> (shape s', refused_signers s') = (shape e, refused_signers e)"
    by (auto simp: signers_ahead_def fun_eq_iff)
qed

lemma vector_order_in_turn:
  assumes "distinct (map es_id (en_slots e))" and "\<forall>s \<in> set (en_slots e). \<not> is_terminal (es_status s)"
  shows "in_turn (signers_ahead e) (open_signers e) (map es_id (en_slots e))"
proof -
  let ?n = "length (en_slots e)"
  define key where "key i = the (find_position (\<lambda>s. es_id s = i) (en_slots e))" for i
  have key: "key (es_id (en_slots e ! k)) = k" if "k < ?n" for k
    using position_distinct [OF assms(1) that] by (simp add: key_def)
  have "map key (map es_id (en_slots e)) = [0..<?n]"
    using key by (auto intro!: nth_equalityI)
  then have "sorted (map key (map es_id (en_slots e)))" by simp
  moreover have "open_signers e = set (map es_id (en_slots e))"
    using assms(2) by (auto simp: open_signers_def)
  moreover have "key j < key i" if "j \<in> signers_ahead e i" for i j
    using that key by (auto simp: signers_ahead_def shape_def split: if_splits)
  ultimately show ?thesis using assms(1) by (intro in_turn_sorted)
qed

subsection \<open>Properties\<close>

lemma new_envelope_ok:
  "new_envelope new_id act_id policy slots = Ok e \<Longrightarrow> is_ok (envelope_validate e) \<and> en_slots e = slots
     \<and> \<not> en_completed e"
  by (auto simp: new_envelope_def Let_def is_ok_iff split: sum.splits)

text \<open>
  C26: a completed envelope is evidence. Whatever calls are made on a fresh envelope, accepted or
  refused, it keeps passing its validation; when it is completed it has a required slot, every
  required slot is signed and carries evidence, each of its identity requirements is met by an
  evidence entry, no evidence reference is blank or holds a secret, and no further call changes it.
\<close>

theorem completed_envelope_sound:
  assumes "new_envelope new_id act_id policy slots = Ok e0" and "\<forall>s \<in> set slots. es_status s = Pending"
    and "e = run envelope_exec ops e0"
  shows "is_ok (envelope_validate e) \<and> (en_completed e \<longrightarrow>
      (\<exists>s \<in> set (en_slots e). es_required s) \<and> run envelope_exec ops' e = e
      \<and> (\<forall>s \<in> set (en_slots e). es_required s \<longrightarrow>
           es_status s = Signed \<and> es_evidence s \<noteq> []
           \<and> (\<forall>r \<in> set (es_identity_requirements s). \<exists>x \<in> set (es_evidence s). se_identity_requirement x = Some r)
           \<and> (\<forall>x \<in> set (es_evidence s). \<not> is_blank (se_reference x) \<and> \<not> contains_secret_like_marker (se_reference x))))"
proof -
  have "signed_with_evidence e0"
    using new_envelope_ok [OF assms(1)] assms(2) by (simp add: signed_with_evidence_def)
  then have inv: "signed_with_evidence e" "is_ok (envelope_validate e)"
    using evidence_machine.run_inv envelope_machine.run_inv new_envelope_ok [OF assms(1)] assms(3) by blast+
  then have "is_ok (envelope_ensure_completable e)" if "en_completed e"
    using that by (simp add: envelope_validate_ok)
  moreover have "is_ok (envelope_ensure_completable e) \<Longrightarrow> (\<exists>s \<in> set (en_slots e). es_required s)
      \<and> (\<forall>s \<in> set (en_slots e). es_required s \<longrightarrow> es_status s = Signed)"
    by (auto simp: envelope_ensure_completable_def unsigned_required_def filter_empty_conv list_ex_iff split: if_splits)
  moreover have "\<exists>x \<in> set (es_evidence s). se_identity_requirement x = Some r"
    if "s \<in> set (en_slots e)" "es_status s = Signed" "r \<in> set (es_identity_requirements s)" for s r
    using inv(2) that by (auto simp: envelope_validate_ok signer_validate_ok missing_requirements_def
        filter_empty_conv list_ex_iff)
  moreover have "\<not> is_blank (se_reference x) \<and> \<not> contains_secret_like_marker (se_reference x)"
    if "s \<in> set (en_slots e)" "x \<in> set (es_evidence s)" for s x
    using inv(2) that by (force simp: envelope_validate_ok signer_validate_ok validate_for_slot_def split: if_splits)
  moreover have "run envelope_exec ops' e = e" if "en_completed e"
    using envelope_freezing.run_frozen [of e ops'] that by simp
  ultimately show ?thesis using inv unfolding signed_with_evidence_def by blast
qed

text \<open>
  a refusal is final. Once a required slot has been declined, revoked or expired, no sequence of
  calls completes the envelope, although under the sequential policy that slot no longer holds the
  later ones back.
\<close>

theorem refused_envelope_never_completes:
  assumes "s \<in> set (en_slots e)" and "es_required s" and "es_status s \<in> {Declined, Revoked, Expired}"
    and "\<not> en_completed e"
  shows "\<not> en_completed (run envelope_exec ops e)"
proof -
  have "dead_slot s" using assms(2, 3) by (auto simp: dead_slot_def is_terminal_def)
  with assms(1, 4) show ?thesis using dead_machine.run_inv [of e ops] by blast
qed

text \<open>
  C27: when a fresh envelope can be completed. With every slot pending and valid evidence that covers the
  requirements of every slot, signing the slots in vector order is accepted at each step under either
  policy and signs them all, keeping the slots otherwise; the envelope then completes exactly when one of its
  slots is a required one. (An envelope of optional slots alone is accepted by \<open>new\<close> and does not complete then.)
\<close>

theorem fresh_envelope_completes:
  assumes "new_envelope new_id act_id policy slots = Ok e" and "\<forall>s \<in> set slots. es_status s = Pending"
    and "\<forall>s \<in> set slots. supplied proofs s"
  shows "\<exists>e'. sign_all (\<lambda>i. sign_slot_with_evidence i (proofs i)) (map es_id slots) e = (Ok (), e')
    \<and> (\<forall>s \<in> set (en_slots e'). es_status s = Signed)
    \<and> map es_id (en_slots e') = map es_id slots \<and> map es_required (en_slots e') = map es_required slots
    \<and> (is_ok (fst (complete_envelope e')) \<longleftrightarrow> (\<exists>s \<in> set slots. es_required s))"
proof -
  have e: "is_ok (envelope_validate e)" "en_slots e = slots" "\<not> en_completed e"
    using new_envelope_ok [OF assms(1)] by simp_all
  have "collecting_with proofs e" using e assms(3) by (simp add: collecting_with_def)
  moreover have "in_turn (signers_ahead e) (open_signers e) (map es_id slots)"
    using vector_order_in_turn [of e] e assms(2) by (simp add: envelope_validate_ok is_terminal_def)
  ultimately obtain e' where e': "sign_all (\<lambda>i. sign_slot_with_evidence i (proofs i)) (map es_id slots) e = (Ok (), e')"
      "collecting_with proofs e'" "open_signers e' = open_signers e - es_id ` set slots"
      "shape e' = shape e" "refused_signers e' = refused_signers e"
    using envelope_slots.collect_all [of proofs e "map es_id slots"] by auto
  have "open_signers e' = {}" "refused_signers e' = {}"
    using e'(3, 5) e(2) assms(2) by (auto simp: open_signers_def refused_signers_def is_terminal_def)
  then have signed: "\<forall>s \<in> set (en_slots e'). es_status s = Signed"
    by (auto simp: open_signers_def refused_signers_def)
  have same: "map es_id (en_slots e') = map es_id slots" "map es_required (en_slots e') = map es_required slots"
    using arg_cong [OF e'(4), of "\<lambda>p. map snd (snd p)"] arg_cong [OF e'(4), of "\<lambda>p. map fst (snd p)"] e(2)
    by (simp_all add: shape_def o_def)
  have "(\<exists>s \<in> set (en_slots e'). es_required s) \<longleftrightarrow> True \<in> set (map es_required (en_slots e'))" by force
  also have "\<dots> \<longleftrightarrow> (\<exists>s \<in> set slots. es_required s)" unfolding same by force
  finally have required: "(\<exists>s \<in> set (en_slots e'). es_required s) \<longleftrightarrow> (\<exists>s \<in> set slots. es_required s)" .
  have "is_ok (envelope_ensure_completable e') \<longleftrightarrow> (\<exists>s \<in> set slots. es_required s)"
    using signed unfolding required [symmetric]
    by (auto simp: envelope_ensure_completable_def unsigned_required_def list_ex_iff)
  moreover have "is_ok (envelope_validate e')" "\<not> en_completed e'"
    using e'(2) by (simp_all add: collecting_with_def)
  ultimately have "is_ok (checks [ensure_not_completed e', envelope_validate e', envelope_ensure_completable e'])
      \<longleftrightarrow> (\<exists>s \<in> set slots. es_required s)"
    by (simp add: ensure_not_completed_def)
  then have "is_ok (fst (complete_envelope e')) \<longleftrightarrow> (\<exists>s \<in> set slots. es_required s)"
    unfolding complete_envelope_def by (auto simp: is_ok_iff split: sum.splits)
  with e'(1) signed same show ?thesis by blast
qed

subsection \<open>A concrete envelope\<close>

definition two_signers :: "signer_slot list" where
  "two_signers = [with_identity_requirements [ContactControl] (required_signer 1 ''Ana'' (Some ''***1234'')),
     optional_signer 2 ''Rui'' None]"

definition contact_proof :: signature_evidence where
  "contact_proof = satisfying_identity_requirement ContactControl (new_evidence ''provider event'' ''evt-1'' None)"

definition two_envelope :: envelope where
  "two_envelope = \<lparr>en_id = 7, en_act_id = 3, en_order_policy = SequentialOrder, en_slots = two_signers,
     en_completed = False\<rparr>"

lemma two_envelope_new: "new_envelope 7 3 SequentialOrder two_signers = Ok two_envelope"
  "\<forall>s \<in> set two_signers. es_status s = Pending" "\<exists>s \<in> set two_signers. es_required s"
  "\<forall>s \<in> set two_signers. supplied (\<lambda>_. [contact_proof]) s"
  by code_simp+

theorem completed_envelope_sound_witness:
  "is_ok (envelope_validate (run envelope_exec [SignSlot 1 contact_proof, Complete] two_envelope))
   \<and> en_completed (run envelope_exec [SignSlot 1 contact_proof, Complete] two_envelope)"
  using completed_envelope_sound [OF two_envelope_new(1, 2) refl, of "[SignSlot 1 contact_proof, Complete]" "[]"]
  by (intro conjI) (blast, code_simp)

theorem refused_envelope_never_completes_witness:
  "\<not> en_completed (run envelope_exec [SignSlot 2 contact_proof, Complete]
     (snd (decline_slot 1 None two_envelope)))"
proof -
  have "(two_signers ! 0)\<lparr>es_status := Declined\<rparr> \<in> set (en_slots (snd (decline_slot 1 None two_envelope)))"
    "es_required ((two_signers ! 0)\<lparr>es_status := Declined\<rparr>)"
    "es_status ((two_signers ! 0)\<lparr>es_status := Declined\<rparr>) \<in> {Declined, Revoked, Expired}"
    "\<not> en_completed (snd (decline_slot 1 None two_envelope))"
    by code_simp+
  then show ?thesis by (rule refused_envelope_never_completes)
qed

theorem fresh_envelope_completes_witness:
  "\<exists>e'. sign_all (\<lambda>i. sign_slot_with_evidence i [contact_proof]) (map es_id two_signers) two_envelope = (Ok (), e')
    \<and> is_ok (fst (complete_envelope e'))"
  using fresh_envelope_completes [OF two_envelope_new(1, 2, 4)] two_envelope_new(3) by blast

end
