(* ===== verification/Termo.thy ===== *)
theory Termo
  imports Book Slots "HOL-Library.Code_Target_Nat"
begin

section \<open>Termos de abertura and de encerramento\<close>

text \<open>
  \<open>src/crates/chancela-core/src/termo.rs\<close>: the drafted, signable instrument that opens or closes a
  book, its life cycle \<open>Draft, Signing, Sealed\<close>, the checks of the freeze, the sequential collection
  of signatures, the completion policy with its management floor, and the projection into the
  payloads that the ledger digests; and the writes of its public fields that the handlers of
  \<open>chancela-api\<close> make while it is a draft. Fresh UUIDs are arguments; \<open>usize\<close> counts are \<open>nat\<close>, \<open>u16\<close>
  counts are kept at their width with the saturating conversion of the code.
\<close>

subsection \<open>Data\<close>

datatype termo_kind = Abertura | Encerramento

datatype termo_state = Draft | Signing | Sealed

datatype clause_origin = TemplateDefault | UserEdited | UserAdded

record termo_clause =
  tc_id :: u128
  tc_heading :: "string option"
  tc_text :: string
  tc_origin :: clause_origin

record termo_signatory_slot =
  sl_id :: u128
  sl_name :: string
  sl_email :: "string option"
  sl_capacity :: signatory_capacity
  sl_capacity_note :: "string option"
  sl_required :: bool
  sl_order :: u16
  sl_signed :: bool
  sl_signed_at :: "offset_date_time option"
  sl_signature_id :: "u128 option"

datatype termo_completion_policy = AllRequired | AtLeast u16 | SingleQualifying

record termo_completion_summary =
  tcs_policy :: termo_completion_policy
  tcs_required_slot_count :: u16
  tcs_signed_required_slot_count :: u16
  tcs_threshold :: u16
  tcs_blocking_required_slot_ids :: "u128 list"
  tcs_complete :: bool

record termo_fields =
  tf_book_number :: "u32 option"
  tf_place :: "string option"
  tf_page_capacity :: "u32 option"
  tf_purpose :: "string option"
  tf_instrument_date :: "date option"
  tf_closing_reason :: "closing_reason option"
  tf_predecessor_note :: "string option"
  tf_entity_seat :: "string option"

record termo_instrument =
  tm_id :: u128
  tm_book_id :: u128
  tm_kind :: termo_kind
  tm_state :: termo_state
  tm_title :: string
  tm_body :: "termo_clause list"
  tm_fields :: termo_fields
  tm_signatories :: "termo_signatory_slot list"
  tm_completion_policy :: termo_completion_policy
  tm_template_id :: "string option"
  tm_created_at :: offset_date_time
  tm_signing_started_at :: "offset_date_time option"
  tm_sealed_at :: "offset_date_time option"
  tm_numbering_scheme :: "numbering_scheme option"

datatype termo_error =
    NotMutable termo_state
  | InvalidTransition termo_state termo_state
  | NotSigning termo_state
  | NoSignatories
  | NoRequiredSlots
  | ForbiddenCapacity u128 signatory_capacity
  | MissingSignatoryCapacityNote u128
  | UnexpectedSignatoryCapacityNote u128
  | DuplicateSlotId u128
  | DuplicateSlotOrder u16
  | SlotNotFound u128
  | SlotAlreadySigned u128
  | SequentialOrderBlocked u128 u128
  | RequiredSlotsNotSigned "u128 list"
  | InvalidCompletionPolicy termo_completion_policy u16
  | ManagementFloorNotSatisfiable termo_completion_policy
  | EmptyBody
  | TooManyClauses nat nat
  | DuplicateClauseId u128
  | EmptyClauseText u128
  | ClauseTextTooLong u128 nat nat
  | EmptySignatoryName u128
  | MissingField string
  | EmptyField string
  | TextTooLong string nat
  | FieldNotApplicable string termo_kind
  | PageCapacityOutOfRange u32 u32 u32
  | InvalidBookNumber u32
  | SignaturesAlreadyCollected
  | WrongKind termo_kind termo_kind

definition DEFAULT_PAGE_CAPACITY :: u32 where "DEFAULT_PAGE_CAPACITY = 100"

definition MAX_TERMO_CLAUSES :: nat where "MAX_TERMO_CLAUSES = 100"

definition MAX_CLAUSE_TEXT_BYTES :: nat where "MAX_CLAUSE_TEXT_BYTES = 8 * 1024"

definition MAX_TERMO_TEXT_CHARS :: nat where "MAX_TERMO_TEXT_CHARS = 200"

definition MAX_TERMO_PURPOSE_CHARS :: nat where "MAX_TERMO_PURPOSE_CHARS = 500"

subsection \<open>Clauses\<close>

definition from_template :: "u128 \<Rightarrow> string option \<Rightarrow> string \<Rightarrow> termo_clause" where
  "from_template new_id heading text =
     \<lparr>tc_id = new_id, tc_heading = heading, tc_text = text, tc_origin = TemplateDefault\<rparr>"

definition user_added :: "u128 \<Rightarrow> string option \<Rightarrow> string \<Rightarrow> termo_clause" where
  "user_added new_id heading text =
     \<lparr>tc_id = new_id, tc_heading = heading, tc_text = text, tc_origin = UserAdded\<rparr>"

definition edit_text :: "string \<Rightarrow> termo_clause \<Rightarrow> termo_clause" where
  "edit_text text c =
     c\<lparr>tc_text := text, tc_origin := (if tc_origin c = TemplateDefault then UserEdited else tc_origin c)\<rparr>"

definition clause_validate :: "termo_clause \<Rightarrow> termo_error + unit" where
  "clause_validate c =
     (if is_blank (tc_text c) then Err (EmptyClauseText (tc_id c))
      else if length (tc_text c) > MAX_CLAUSE_TEXT_BYTES
      then Err (ClauseTextTooLong (tc_id c) (length (tc_text c)) MAX_CLAUSE_TEXT_BYTES)
      else case tc_heading c of
        Some heading \<Rightarrow>
          if char_count heading > MAX_TERMO_TEXT_CHARS
          then Err (TextTooLong ''clause.heading'' MAX_TERMO_TEXT_CHARS) else Ok ()
      | None \<Rightarrow> Ok ())"

definition to_record :: "termo_clause \<Rightarrow> termo_clause_record" where
  "to_record c = \<lparr>cl_heading = tc_heading c, cl_text = tc_text c\<rparr>"

subsection \<open>Slots\<close>

definition is_permitted_termo_capacity :: "signatory_capacity \<Rightarrow> bool" where
  "is_permitted_termo_capacity c \<longleftrightarrow> c \<in> {Manager, Administrator, Member, Secretary, Chair}"

definition is_management_capacity :: "signatory_capacity \<Rightarrow> bool" where
  "is_management_capacity c \<longleftrightarrow> c \<in> {Manager, Administrator}"

definition required_slot :: "u128 \<Rightarrow> string \<Rightarrow> signatory_capacity \<Rightarrow> u16 \<Rightarrow> termo_signatory_slot" where
  "required_slot new_id name capacity order =
     \<lparr>sl_id = new_id, sl_name = name, sl_email = None, sl_capacity = capacity,
      sl_capacity_note = None, sl_required = True, sl_order = order, sl_signed = False,
      sl_signed_at = None, sl_signature_id = None\<rparr>"

definition optional_slot :: "u128 \<Rightarrow> string \<Rightarrow> signatory_capacity \<Rightarrow> u16 \<Rightarrow> termo_signatory_slot" where
  "optional_slot new_id name capacity order =
     (required_slot new_id name capacity order)\<lparr>sl_required := False\<rparr>"

definition with_email :: "string \<Rightarrow> termo_signatory_slot \<Rightarrow> termo_signatory_slot" where
  "with_email email s = s\<lparr>sl_email := Some email\<rparr>"

definition with_capacity_note :: "string \<Rightarrow> termo_signatory_slot \<Rightarrow> termo_signatory_slot" where
  "with_capacity_note note s = s\<lparr>sl_capacity_note := Some note\<rparr>"

definition slot_validate :: "termo_signatory_slot \<Rightarrow> termo_error + unit" where
  "slot_validate s =
     (if is_blank (sl_name s) then Err (EmptySignatoryName (sl_id s))
      else if char_count (sl_name s) > MAX_TERMO_TEXT_CHARS
      then Err (TextTooLong ''signatory.name'' MAX_TERMO_TEXT_CHARS)
      else
        (let note_present = (case sl_capacity_note s of Some note \<Rightarrow> \<not> is_blank note | None \<Rightarrow> False) in
         if sl_capacity s = OtherCapacity then
           if \<not> note_present then Err (MissingSignatoryCapacityNote (sl_id s)) else Ok ()
         else if is_permitted_termo_capacity (sl_capacity s) then
           if note_present then Err (UnexpectedSignatoryCapacityNote (sl_id s)) else Ok ()
         else Err (ForbiddenCapacity (sl_id s) (sl_capacity s))))"

definition to_declared_record :: "termo_signatory_slot \<Rightarrow> termo_signatory" where
  "to_declared_record s =
     \<lparr>ts_name = sl_name s, ts_capacity = Some (sl_capacity s), ts_capacity_note = sl_capacity_note s,
      ts_email = sl_email s\<rparr>"

definition to_collected_record :: "termo_signatory_slot \<Rightarrow> termo_collected_signature option" where
  "to_collected_record s =
     (case sl_signed_at s of
        None \<Rightarrow> None
      | Some signed_at \<Rightarrow>
          if sl_signed s
          then Some \<lparr>cs_slot_id = sl_id s, cs_name = sl_name s, cs_capacity = sl_capacity s,
                 cs_capacity_note = sl_capacity_note s, cs_signed_at = signed_at,
                 cs_signature_id = sl_signature_id s\<rparr>
          else None)"

text \<open>\<open>TermoSignatory::legacy_label\<close> of \<open>book.rs\<close>; \<open>{capacity:?}\<close> prints the variant's name.\<close>

fun capacity_debug :: "signatory_capacity \<Rightarrow> string" where
  "capacity_debug Chair = ''Chair''"
| "capacity_debug Secretary = ''Secretary''"
| "capacity_debug Member = ''Member''"
| "capacity_debug Shareholder = ''Shareholder''"
| "capacity_debug Associate = ''Associate''"
| "capacity_debug Cooperator = ''Cooperator''"
| "capacity_debug Manager = ''Manager''"
| "capacity_debug Administrator = ''Administrator''"
| "capacity_debug Attorney = ''Attorney''"
| "capacity_debug CondoOwner = ''CondoOwner''"
| "capacity_debug StatutoryAuditor = ''StatutoryAuditor''"
| "capacity_debug Guest = ''Guest''"
| "capacity_debug OtherCapacity = ''Other''"

definition legacy_label :: "termo_signatory \<Rightarrow> string" where
  "legacy_label s =
     (case ts_capacity s of
        None \<Rightarrow> ts_name s
      | Some capacity \<Rightarrow>
          (case (capacity, ts_capacity_note s) of
             (OtherCapacity, Some note) \<Rightarrow>
               if \<not> is_blank note then ts_name s @ '' ('' @ note @ '')''
               else ts_name s @ '' ('' @ capacity_debug capacity @ '')''
           | _ \<Rightarrow> ts_name s @ '' ('' @ capacity_debug capacity @ '')''))"

subsection \<open>Completion policy and fields\<close>

definition threshold :: "termo_completion_policy \<Rightarrow> u16 \<Rightarrow> u16" where
  "threshold policy required_slot_count =
     (case policy of
        AllRequired \<Rightarrow> required_slot_count
      | AtLeast n \<Rightarrow> min n required_slot_count
      | SingleQualifying \<Rightarrow> min 1 required_slot_count)"

definition default_fields :: termo_fields where
  "default_fields =
     \<lparr>tf_book_number = None, tf_place = None, tf_page_capacity = None, tf_purpose = None,
      tf_instrument_date = None, tf_closing_reason = None, tf_predecessor_note = None,
      tf_entity_seat = None\<rparr>"

definition for_abertura :: termo_fields where
  "for_abertura = default_fields\<lparr>tf_page_capacity := Some DEFAULT_PAGE_CAPACITY\<rparr>"

definition for_encerramento :: termo_fields where
  "for_encerramento = default_fields"

definition check_len :: "string \<Rightarrow> string option \<Rightarrow> nat \<Rightarrow> termo_error + unit" where
  "check_len field value max_chars =
     (case value of
        Some text \<Rightarrow>
          if is_blank text then Err (EmptyField field)
          else if char_count text > max_chars then Err (TextTooLong field max_chars)
          else Ok ()
      | None \<Rightarrow> Ok ())"

definition fields_validate_kind :: "termo_kind \<Rightarrow> termo_fields \<Rightarrow> termo_error + unit" where
  "fields_validate_kind kind f =
     (case kind of
        Abertura \<Rightarrow>
          (case tf_page_capacity f of
             None \<Rightarrow> Err (MissingField ''page_capacity'')
           | Some capacity \<Rightarrow>
               if \<not> (MIN_PAGE_CAPACITY \<le> capacity \<and> capacity \<le> MAX_PAGE_CAPACITY)
               then Err (PageCapacityOutOfRange capacity MIN_PAGE_CAPACITY MAX_PAGE_CAPACITY)
               else if tf_closing_reason f \<noteq> None
               then Err (FieldNotApplicable ''closing_reason'' kind)
               else Ok ())
      | Encerramento \<Rightarrow>
          if tf_page_capacity f \<noteq> None then Err (FieldNotApplicable ''page_capacity'' kind)
          else if tf_entity_seat f \<noteq> None then Err (FieldNotApplicable ''entity_seat'' kind)
          else (case tf_closing_reason f of
              None \<Rightarrow> Err (MissingField ''closing_reason'')
            | Some (OtherReason note) \<Rightarrow>
                if is_blank note then Err (MissingField ''closing_reason.note'') else Ok ()
            | Some _ \<Rightarrow> Ok ()))"

definition fields_validate :: "termo_kind \<Rightarrow> termo_fields \<Rightarrow> termo_error + unit" where
  "fields_validate kind f = checks
     [case tf_book_number f of
        Some number \<Rightarrow> if number < 1 then Err (InvalidBookNumber number) else Ok ()
      | None \<Rightarrow> Ok (),
      check_len ''place'' (tf_place f) MAX_TERMO_TEXT_CHARS,
      check_len ''purpose'' (tf_purpose f) MAX_TERMO_PURPOSE_CHARS,
      check_len ''predecessor_note'' (tf_predecessor_note f) MAX_TERMO_TEXT_CHARS,
      check_len ''entity_seat'' (tf_entity_seat f) MAX_TERMO_TEXT_CHARS,
      fields_validate_kind kind f]"

subsection \<open>The instrument\<close>

definition termo_draft ::
  "u128 \<Rightarrow> u128 \<Rightarrow> termo_kind \<Rightarrow> string \<Rightarrow> offset_date_time \<Rightarrow> termo_instrument" where
  "termo_draft new_id book_id kind title created_at =
     \<lparr>tm_id = new_id, tm_book_id = book_id, tm_kind = kind, tm_state = Draft, tm_title = title,
      tm_body = [],
      tm_fields = (case kind of Abertura \<Rightarrow> for_abertura | Encerramento \<Rightarrow> for_encerramento),
      tm_signatories = [], tm_completion_policy = AllRequired, tm_template_id = None,
      tm_created_at = created_at, tm_signing_started_at = None, tm_sealed_at = None,
      tm_numbering_scheme = None\<rparr>"

definition termo_is_mutable :: "termo_instrument \<Rightarrow> bool" where
  "termo_is_mutable t \<longleftrightarrow> tm_state t = Draft"

definition termo_ensure_mutable :: "termo_instrument \<Rightarrow> termo_error + unit" where
  "termo_ensure_mutable t = (if termo_is_mutable t then Ok () else Err (NotMutable (tm_state t)))"

definition termo_set_title :: "string \<Rightarrow> termo_instrument \<Rightarrow> (termo_error, unit, termo_instrument) call" where
  "termo_set_title title t =
     (case termo_ensure_mutable t of Inl e \<Rightarrow> (Err e, t) | Inr _ \<Rightarrow> (Ok (), t\<lparr>tm_title := title\<rparr>))"

definition termo_set_body :: "termo_clause list \<Rightarrow> termo_instrument \<Rightarrow> (termo_error, unit, termo_instrument) call" where
  "termo_set_body body t =
     (case termo_ensure_mutable t of Inl e \<Rightarrow> (Err e, t) | Inr _ \<Rightarrow> (Ok (), t\<lparr>tm_body := body\<rparr>))"

definition termo_add_signatory ::
  "termo_signatory_slot \<Rightarrow> termo_instrument \<Rightarrow> (termo_error, unit, termo_instrument) call" where
  "termo_add_signatory slot t =
     (case termo_ensure_mutable t of
        Inl e \<Rightarrow> (Err e, t)
      | Inr _ \<Rightarrow>
          if \<exists>existing \<in> set (tm_signatories t). sl_id existing = sl_id slot
          then (Err (DuplicateSlotId (sl_id slot)), t)
          else (Ok (), t\<lparr>tm_signatories := tm_signatories t @ [slot]\<rparr>))"

definition required_slots :: "termo_instrument \<Rightarrow> termo_signatory_slot list" where
  "required_slots t = filter sl_required (tm_signatories t)"

definition required_slot_count :: "termo_instrument \<Rightarrow> u16" where
  "required_slot_count t = count_u16 (length (required_slots t))"

definition satisfies_management_floor :: "termo_instrument \<Rightarrow> bool" where
  "satisfies_management_floor t =
     (let required = required_slot_count t;
          management = count_u16 (length (filter (\<lambda>s. is_management_capacity (sl_capacity s)) (required_slots t)))
      in if management = 0 then False
         else threshold (tm_completion_policy t) required > required - management)"

definition validate_policy :: "termo_instrument \<Rightarrow> termo_error + unit" where
  "validate_policy t =
     (let required = required_slot_count t in
      if (case tm_completion_policy t of AtLeast n \<Rightarrow> n = 0 \<or> n > required | _ \<Rightarrow> False)
      then Err (InvalidCompletionPolicy (tm_completion_policy t) required)
      else if required > 0 \<and> \<not> satisfies_management_floor t
      then Err (ManagementFloorNotSatisfiable (tm_completion_policy t))
      else Ok ())"

definition set_completion_policy ::
  "termo_completion_policy \<Rightarrow> termo_instrument \<Rightarrow> (termo_error, unit, termo_instrument) call" where
  "set_completion_policy policy t =
     (case termo_ensure_mutable t of
        Inl e \<Rightarrow> (Err e, t)
      | Inr _ \<Rightarrow>
          (let previous = tm_completion_policy t; t' = t\<lparr>tm_completion_policy := policy\<rparr> in
           case validate_policy t' of
             Inl e \<Rightarrow> (Err e, t'\<lparr>tm_completion_policy := previous\<rparr>)
           | Inr _ \<Rightarrow> (Ok (), t')))"

text \<open>One round of the slot loop of \<open>validate\<close>: the id, then the order, then the slot itself.\<close>

definition validate_slot ::
  "u128 set \<times> u16 set \<Rightarrow> termo_signatory_slot \<Rightarrow> termo_error + (u128 set \<times> u16 set)" where
  "validate_slot seen slot =
     (case seen of (slots, orders) \<Rightarrow>
        if sl_id slot \<in> slots then Err (DuplicateSlotId (sl_id slot))
        else if sl_order slot \<in> orders then Err (DuplicateSlotOrder (sl_order slot))
        else case slot_validate slot of
          Inl e \<Rightarrow> Err e
        | Inr _ \<Rightarrow> Ok (insert (sl_id slot) slots, insert (sl_order slot) orders))"

definition validate_body :: "termo_clause list \<Rightarrow> termo_error + unit" where
  "validate_body body =
     (if body = [] then Err EmptyBody
      else if length body > MAX_TERMO_CLAUSES then Err (TooManyClauses (length body) MAX_TERMO_CLAUSES)
      else case try_fold (insert_checked tc_id (\<lambda>c. DuplicateClauseId (tc_id c)) clause_validate) {} body of
        Inl e \<Rightarrow> Err e
      | Inr _ \<Rightarrow> Ok ())"

definition termo_validate :: "termo_instrument \<Rightarrow> termo_error + unit" where
  "termo_validate t = checks
     [if is_blank (tm_title t) then Err (EmptyField ''title'') else Ok (),
      if char_count (tm_title t) > MAX_TERMO_TEXT_CHARS then Err (TextTooLong ''title'' MAX_TERMO_TEXT_CHARS)
      else Ok (),
      validate_body (tm_body t),
      fields_validate (tm_kind t) (tm_fields t),
      if tm_signatories t = [] then Err NoSignatories else Ok (),
      case try_fold validate_slot ({}, {}) (tm_signatories t) of Inl e \<Rightarrow> Err e | Inr _ \<Rightarrow> Ok (),
      if required_slot_count t = 0 then Err NoRequiredSlots else Ok (),
      validate_policy t]"

definition advance_to_signing ::
  "string \<Rightarrow> offset_date_time \<Rightarrow> termo_instrument \<Rightarrow> (termo_error, unit, termo_instrument) call" where
  "advance_to_signing template_id now t =
     (if tm_state t \<noteq> Draft then (Err (InvalidTransition (tm_state t) Signing), t)
      else case termo_validate t of
        Inl e \<Rightarrow> (Err e, t)
      | Inr _ \<Rightarrow> (Ok (), t\<lparr>tm_template_id := Some template_id, tm_signing_started_at := Some now,
                         tm_state := Signing\<rparr>))"

definition withdraw_to_draft :: "termo_instrument \<Rightarrow> (termo_error, unit, termo_instrument) call" where
  "withdraw_to_draft t =
     (if tm_state t \<noteq> Signing then (Err (InvalidTransition (tm_state t) Draft), t)
      else if \<exists>slot \<in> set (tm_signatories t). sl_signed slot then (Err SignaturesAlreadyCollected, t)
      else (Ok (), t\<lparr>tm_template_id := None, tm_signing_started_at := None, tm_state := Draft\<rparr>))"

definition mark_slot_signed ::
  "u128 \<Rightarrow> u128 option \<Rightarrow> offset_date_time \<Rightarrow> termo_instrument \<Rightarrow> (termo_error, unit, termo_instrument) call" where
  "mark_slot_signed slot_id signature_id now t =
     (if tm_state t \<noteq> Signing then (Err (NotSigning (tm_state t)), t)
      else case find_position (\<lambda>slot. sl_id slot = slot_id) (tm_signatories t) of
        None \<Rightarrow> (Err (SlotNotFound slot_id), t)
      | Some index \<Rightarrow>
          (let slot = tm_signatories t ! index in
           if sl_signed slot then (Err (SlotAlreadySigned slot_id), t)
           else case min_by_key sl_order
               (filter (\<lambda>s. sl_required s \<and> \<not> sl_signed s \<and> sl_order s < sl_order slot) (tm_signatories t)) of
             Some waiting_on \<Rightarrow> (Err (SequentialOrderBlocked slot_id (sl_id waiting_on)), t)
           | None \<Rightarrow>
               (Ok (), t\<lparr>tm_signatories := (tm_signatories t)[index :=
                  slot\<lparr>sl_signed := True, sl_signed_at := Some now, sl_signature_id := signature_id\<rparr>]\<rparr>)))"

definition blocking_required_slot_ids :: "termo_instrument \<Rightarrow> u128 list" where
  "blocking_required_slot_ids t = map sl_id (filter (\<lambda>s. \<not> sl_signed s) (required_slots t))"

definition signed_required_slot_count :: "termo_instrument \<Rightarrow> u16" where
  "signed_required_slot_count t = count_u16 (length (filter sl_signed (required_slots t)))"

definition ensure_completable :: "termo_instrument \<Rightarrow> termo_error + unit" where
  "ensure_completable t =
     (let required_slot_count = required_slot_count t in
      if required_slot_count = 0 then Err NoRequiredSlots
      else if signed_required_slot_count t < threshold (tm_completion_policy t) required_slot_count
      then Err (RequiredSlotsNotSigned (blocking_required_slot_ids t))
      else Ok ())"

definition completion_summary :: "termo_instrument \<Rightarrow> termo_completion_summary" where
  "completion_summary t =
     \<lparr>tcs_policy = tm_completion_policy t, tcs_required_slot_count = required_slot_count t,
      tcs_signed_required_slot_count = signed_required_slot_count t,
      tcs_threshold = threshold (tm_completion_policy t) (required_slot_count t),
      tcs_blocking_required_slot_ids = blocking_required_slot_ids t,
      tcs_complete = is_ok (ensure_completable t)\<rparr>"

definition termo_seal :: "offset_date_time \<Rightarrow> termo_instrument \<Rightarrow> (termo_error, unit, termo_instrument) call" where
  "termo_seal now t =
     (if tm_state t \<noteq> Signing then (Err (InvalidTransition (tm_state t) Sealed), t)
      else case ensure_completable t of
        Inl e \<Rightarrow> (Err e, t)
      | Inr _ \<Rightarrow> (Ok (), t\<lparr>tm_sealed_at := Some now, tm_state := Sealed\<rparr>))"

subsection \<open>The public fields\<close>

text \<open>
  Fields, slots and numbering scheme are public: the handlers that draw up and patch a termo write
  them directly, after they have found the instrument still a draft (\<open>is_mutable\<close>). These are their
  writes with that guard; the values are the handler's.
\<close>

definition assign_fields :: "termo_fields \<Rightarrow> termo_instrument \<Rightarrow> (termo_error, unit, termo_instrument) call" where
  "assign_fields f t =
     (if \<not> termo_is_mutable t then (Err (NotMutable (tm_state t)), t) else (Ok (), t\<lparr>tm_fields := f\<rparr>))"

definition clear_signatories :: "termo_instrument \<Rightarrow> (termo_error, unit, termo_instrument) call" where
  "clear_signatories t =
     (if \<not> termo_is_mutable t then (Err (NotMutable (tm_state t)), t) else (Ok (), t\<lparr>tm_signatories := []\<rparr>))"

definition pin_numbering_scheme ::
  "numbering_scheme \<Rightarrow> termo_instrument \<Rightarrow> (termo_error, unit, termo_instrument) call" where
  "pin_numbering_scheme scheme t =
     (if \<not> termo_is_mutable t then (Err (NotMutable (tm_state t)), t)
      else (Ok (), t\<lparr>tm_numbering_scheme := Some scheme\<rparr>))"

subsection \<open>Projections\<close>

definition body_records :: "termo_instrument \<Rightarrow> termo_clause_record list" where
  "body_records t = map to_record (tm_body t)"

definition declared_signatory_records :: "termo_instrument \<Rightarrow> termo_signatory list" where
  "declared_signatory_records t = map to_declared_record (sort_key sl_order (tm_signatories t))"

definition collected_signature_records :: "termo_instrument \<Rightarrow> termo_collected_signature list" where
  "collected_signature_records t = List.map_filter to_collected_record (sort_key sl_order (tm_signatories t))"

definition effective_entity_seat :: "string \<Rightarrow> termo_instrument \<Rightarrow> termo_error + string" where
  "effective_entity_seat entity_seat t =
     (case tf_entity_seat (tm_fields t) of
        Some declared \<Rightarrow>
          if \<not> is_blank declared then Ok declared
          else if is_blank entity_seat then Err (MissingField ''entity_seat'') else Ok entity_seat
      | None \<Rightarrow> if is_blank entity_seat then Err (MissingField ''entity_seat'') else Ok entity_seat)"

definition project_abertura ::
  "string \<Rightarrow> string \<Rightarrow> string \<Rightarrow> numbering_scheme \<Rightarrow> termo_instrument \<Rightarrow> termo_error + termo_de_abertura" where
  "project_abertura entity_name entity_nipc entity_seat numbering_scheme t =
     (if tm_kind t \<noteq> Abertura then Err (WrongKind Abertura (tm_kind t))
      else case tf_instrument_date (tm_fields t) of
        None \<Rightarrow> Err (MissingField ''instrument_date'')
      | Some opening_date \<Rightarrow>
          (case effective_entity_seat entity_seat t of
             Inl e \<Rightarrow> Err e
           | Inr seat \<Rightarrow>
               (let declared = declared_signatory_records t in
                Ok \<lparr>ta_entity_name = entity_name, ta_entity_nipc = entity_nipc, ta_entity_seat = seat,
                  ta_purpose = (case tf_purpose (tm_fields t) of Some p \<Rightarrow> p | None \<Rightarrow> []),
                  ta_numbering_scheme = numbering_scheme, ta_opening_date = opening_date,
                  ta_required_signatories = map legacy_label declared,
                  ta_required_signatory_records = declared, ta_termo_instrument_id = Some (tm_id t),
                  ta_title = Some (tm_title t), ta_book_number = tf_book_number (tm_fields t),
                  ta_place = tf_place (tm_fields t), ta_page_capacity = tf_page_capacity (tm_fields t),
                  ta_body = body_records t,
                  ta_collected_signatures = collected_signature_records t\<rparr>)))"

definition project_encerramento ::
  "u64 \<Rightarrow> u32 option \<Rightarrow> termo_instrument \<Rightarrow> termo_error + termo_de_encerramento" where
  "project_encerramento ata_count pages_used_at_close t =
     (if tm_kind t \<noteq> Encerramento then Err (WrongKind Encerramento (tm_kind t))
      else case tf_instrument_date (tm_fields t) of
        None \<Rightarrow> Err (MissingField ''instrument_date'')
      | Some closing_date \<Rightarrow>
          (case tf_closing_reason (tm_fields t) of
             None \<Rightarrow> Err (MissingField ''closing_reason'')
           | Some reason \<Rightarrow>
               (let declared = declared_signatory_records t in
                Ok \<lparr>te_ata_count = ata_count, te_reason = reason, te_closing_date = closing_date,
                  te_required_signatories = map legacy_label declared,
                  te_required_signatory_records = declared, te_termo_instrument_id = Some (tm_id t),
                  te_title = Some (tm_title t), te_book_number = tf_book_number (tm_fields t),
                  te_place = tf_place (tm_fields t), te_body = body_records t,
                  te_collected_signatures = collected_signature_records t,
                  te_pages_used_at_close = pages_used_at_close\<rparr>)))"

section \<open>Correctness of the instrument\<close>

subsection \<open>What a validated instrument satisfies\<close>

lemma validate_slots_ok:
  "is_ok (try_fold validate_slot (ids, orders) slots) \<longleftrightarrow>
     distinct (map sl_id slots) \<and> sl_id ` set slots \<inter> ids = {}
     \<and> distinct (map sl_order slots) \<and> sl_order ` set slots \<inter> orders = {}
     \<and> (\<forall>s \<in> set slots. is_ok (slot_validate s))"
proof (induction slots arbitrary: ids orders)
  case (Cons s slots)
  show ?case
  proof (cases "sl_id s \<in> ids \<or> sl_order s \<in> orders \<or> \<not> is_ok (slot_validate s)")
    case True
    then show ?thesis by (auto simp: validate_slot_def not_is_ok_iff)
  next
    case False
    then have "validate_slot (ids, orders) s = Ok (insert (sl_id s) ids, insert (sl_order s) orders)"
      by (auto simp: validate_slot_def is_ok_iff)
    then show ?thesis using False Cons.IH [of "insert (sl_id s) ids" "insert (sl_order s) orders"] by auto
  qed
qed simp

definition slots_ok :: "termo_instrument \<Rightarrow> bool" where
  "slots_ok t \<longleftrightarrow> distinct (map sl_id (tm_signatories t)) \<and> distinct (map sl_order (tm_signatories t))"

lemma termo_validate_ok:
  assumes "is_ok (termo_validate t)"
  shows "slots_ok t" "required_slots t \<noteq> []" "is_ok (validate_policy t)"
    "is_ok (fields_validate (tm_kind t) (tm_fields t))"
    "\<forall>s \<in> set (tm_signatories t). is_ok (slot_validate s)"
proof -
  have ok: "is_ok (try_fold validate_slot ({}, {}) (tm_signatories t))"
    "required_slot_count t \<noteq> 0" "is_ok (validate_policy t)"
    "is_ok (fields_validate (tm_kind t) (tm_fields t))"
    using assms by (simp_all add: termo_validate_def)
  then show "slots_ok t" "required_slots t \<noteq> []" "is_ok (validate_policy t)"
    "is_ok (fields_validate (tm_kind t) (tm_fields t))"
    "\<forall>s \<in> set (tm_signatories t). is_ok (slot_validate s)"
    by (simp_all add: validate_slots_ok slots_ok_def required_slot_count_def)
qed

text \<open>
  The part of an instrument that is drawn up and signed: everything but the life-cycle marks and the
  bookkeeping of the slots. The checks read nothing else.
\<close>

definition unsigned_slot :: "termo_signatory_slot \<Rightarrow> termo_signatory_slot" where
  "unsigned_slot s = s\<lparr>sl_signed := False, sl_signed_at := None, sl_signature_id := None\<rparr>"

definition termo_content :: "termo_instrument \<Rightarrow> termo_instrument" where
  "termo_content t = t\<lparr>tm_state := Draft, tm_signatories := map unsigned_slot (tm_signatories t),
     tm_template_id := None, tm_signing_started_at := None, tm_sealed_at := None\<rparr>"

lemma unsigned_slot_simps [simp]:
  "sl_id (unsigned_slot s) = sl_id s" "sl_order (unsigned_slot s) = sl_order s"
  "sl_required (unsigned_slot s) = sl_required s" "sl_capacity (unsigned_slot s) = sl_capacity s"
  "sl_name (unsigned_slot s) = sl_name s" "sl_capacity_note (unsigned_slot s) = sl_capacity_note s"
  by (simp_all add: unsigned_slot_def)

lemma slot_validate_unsigned [simp]: "slot_validate (unsigned_slot s) = slot_validate s"
  unfolding slot_validate_def unsigned_slot_simps by (rule refl)

lemma validate_slot_unsigned [simp]: "validate_slot seen (unsigned_slot s) = validate_slot seen s"
  unfolding validate_slot_def unsigned_slot_simps slot_validate_unsigned by (rule refl)

lemma termo_content_simps [simp]:
  "tm_title (termo_content t) = tm_title t" "tm_body (termo_content t) = tm_body t"
  "tm_kind (termo_content t) = tm_kind t" "tm_fields (termo_content t) = tm_fields t"
  "tm_completion_policy (termo_content t) = tm_completion_policy t"
  "tm_signatories (termo_content t) = map unsigned_slot (tm_signatories t)"
  by (simp_all add: termo_content_def)

lemma unsigned_slot_signed [simp]:
  "unsigned_slot (s\<lparr>sl_signed := b, sl_signed_at := at, sl_signature_id := i\<rparr>) = unsigned_slot s"
  by (simp add: unsigned_slot_def)

lemma required_slots_content: "required_slots (termo_content t) = map unsigned_slot (required_slots t)"
  by (simp add: required_slots_def filter_map o_def)

lemma required_slot_count_content: "required_slot_count (termo_content t) = required_slot_count t"
  by (simp add: required_slot_count_def required_slots_content)

lemma validate_policy_content: "validate_policy (termo_content t) = validate_policy t"
proof -
  have "satisfies_management_floor (termo_content t) = satisfies_management_floor t"
    by (simp add: satisfies_management_floor_def required_slot_count_content required_slots_content
        filter_map o_def)
  then show ?thesis
    unfolding validate_policy_def required_slot_count_content termo_content_simps by (simp only:)
qed

lemma termo_validate_content: "termo_validate (termo_content t) = termo_validate t"
  unfolding termo_validate_def validate_policy_content required_slot_count_content termo_content_simps
    map_is_Nil_conv try_fold_map validate_slot_unsigned
  by (rule refl)

lemma same_content_validate:
  "termo_content t = termo_content t' \<Longrightarrow> termo_validate t = termo_validate t'"
  by (metis termo_validate_content)

subsection \<open>The instrument as a state machine\<close>

datatype termo_op =
    SetTitle string
  | SetBody "termo_clause list"
  | AddSignatory termo_signatory_slot
  | SetPolicy termo_completion_policy
  | AssignFields termo_fields
  | ClearSignatories
  | PinScheme numbering_scheme
  | AdvanceToSigning string offset_date_time
  | WithdrawToDraft
  | MarkSlotSigned u128 "u128 option" offset_date_time
  | SealTermo offset_date_time

fun termo_exec :: "termo_op \<Rightarrow> termo_instrument \<Rightarrow> (termo_error, unit, termo_instrument) call" where
  "termo_exec (SetTitle s) t = termo_set_title s t"
| "termo_exec (SetBody b) t = termo_set_body b t"
| "termo_exec (AddSignatory s) t = termo_add_signatory s t"
| "termo_exec (SetPolicy p) t = set_completion_policy p t"
| "termo_exec (AssignFields f) t = assign_fields f t"
| "termo_exec ClearSignatories t = clear_signatories t"
| "termo_exec (PinScheme s) t = pin_numbering_scheme s t"
| "termo_exec (AdvanceToSigning template now) t = advance_to_signing template now t"
| "termo_exec WithdrawToDraft t = withdraw_to_draft t"
| "termo_exec (MarkSlotSigned i sig now) t = mark_slot_signed i sig now t"
| "termo_exec (SealTermo now) t = termo_seal now t"

lemmas draft_edits = termo_set_title_def termo_set_body_def termo_add_signatory_def
  set_completion_policy_def assign_fields_def clear_signatories_def pin_numbering_scheme_def
  termo_ensure_mutable_def termo_is_mutable_def

lemma mark_slot_signed_cases:
  obtains (refused) e where "mark_slot_signed i sig now t = (Err e, t)"
  | (signed) k where "mark_slot_signed i sig now t =
        (Ok (), t\<lparr>tm_signatories := (tm_signatories t)[k := (tm_signatories t ! k)
           \<lparr>sl_signed := True, sl_signed_at := Some now, sl_signature_id := sig\<rparr>]\<rparr>)"
      "tm_state t = Signing" "k < length (tm_signatories t)" "sl_id (tm_signatories t ! k) = i"
      "\<not> sl_signed (tm_signatories t ! k)"
      "\<forall>s \<in> set (tm_signatories t). sl_required s \<and> sl_order s < sl_order (tm_signatories t ! k) \<longrightarrow> sl_signed s"
proof (cases "\<exists>e. mark_slot_signed i sig now t = (Err e, t)")
  case True
  with refused show thesis by blast
next
  case False
  then obtain k where k: "find_position (\<lambda>slot. sl_id slot = i) (tm_signatories t) = Some k"
      "tm_state t = Signing" "\<not> sl_signed (tm_signatories t ! k)"
      "filter (\<lambda>s. sl_required s \<and> \<not> sl_signed s \<and> sl_order s < sl_order (tm_signatories t ! k)) (tm_signatories t) = []"
    by (auto simp: mark_slot_signed_def Let_def split: option.splits if_splits)
  then have "k < length (tm_signatories t)" "sl_id (tm_signatories t ! k) = i"
    using position_Some [OF k(1)] by simp_all
  moreover have "mark_slot_signed i sig now t =
        (Ok (), t\<lparr>tm_signatories := (tm_signatories t)[k := (tm_signatories t ! k)
           \<lparr>sl_signed := True, sl_signed_at := Some now, sl_signature_id := sig\<rparr>]\<rparr>)"
    using k by (simp add: mark_slot_signed_def min_by_key_def)
  moreover have "\<forall>s \<in> set (tm_signatories t). sl_required s \<and> sl_order s < sl_order (tm_signatories t ! k) \<longrightarrow> sl_signed s"
    using k(4) by (auto simp: filter_empty_conv)
  ultimately show thesis using signed k(2, 3) by blast
qed

lemma mark_content: "termo_content (snd (mark_slot_signed i sig now t)) = termo_content t"
proof (cases rule: mark_slot_signed_cases [of i sig now t])
  case (signed k)
  then have "map unsigned_slot ((tm_signatories t)[k := (tm_signatories t ! k)
           \<lparr>sl_signed := True, sl_signed_at := Some now, sl_signature_id := sig\<rparr>]) = map unsigned_slot (tm_signatories t)"
    by (simp add: map_update list_update_same_conv)
  with signed(1) show ?thesis by (simp add: termo_content_def)
qed simp

lemma mark_state [simp]: "tm_state (snd (mark_slot_signed i sig now t)) = tm_state t"
  by (cases rule: mark_slot_signed_cases [of i sig now t]) simp_all

lemma mark_keeps_signed:
  "(\<exists>s \<in> set (tm_signatories t). sl_signed s) \<Longrightarrow>
     \<exists>s \<in> set (tm_signatories (snd (mark_slot_signed i sig now t))). sl_signed s"
proof (cases rule: mark_slot_signed_cases [of i sig now t])
  case (signed k)
  let ?slots = "tm_signatories (snd (mark_slot_signed i sig now t))"
  have "k < length ?slots" "sl_signed (?slots ! k)" using signed(1, 3) by simp_all
  then show ?thesis using nth_mem by blast
qed simp

text \<open>
  What holds of every instrument the methods produce: once frozen it passes the checks of the
  freeze, once sealed its completion policy is satisfied.
\<close>

definition termo_inv :: "termo_instrument \<Rightarrow> bool" where
  "termo_inv t \<longleftrightarrow> (tm_state t \<noteq> Draft \<longrightarrow> is_ok (termo_validate t))
     \<and> (tm_state t = Sealed \<longrightarrow> is_ok (ensure_completable t))"

lemma same_content_state: "termo_content (t\<lparr>tm_sealed_at := x, tm_state := y\<rparr>) = termo_content t"
  "termo_content (t\<lparr>tm_template_id := z, tm_signing_started_at := x, tm_state := y\<rparr>) = termo_content t"
  by (simp_all add: termo_content_def)

lemma ensure_completable_state [simp]:
  "ensure_completable (t\<lparr>tm_sealed_at := x, tm_state := y\<rparr>) = ensure_completable t"
  by (simp add: ensure_completable_def required_slot_count_def signed_required_slot_count_def
      blocking_required_slot_ids_def required_slots_def)

interpretation termo_machine: machine termo_exec termo_inv
proof
  fix t op
  assume inv: "termo_inv t"
  show "termo_inv (snd (termo_exec op t))"
  proof (cases op)
    case (AdvanceToSigning template now)
    with inv show ?thesis
      by (auto simp: advance_to_signing_def termo_inv_def is_ok_def same_content_validate [OF same_content_state(2)]
          split: sum.splits)
  next
    case (MarkSlotSigned i sig now)
    have "tm_state t = Signing \<or> snd (mark_slot_signed i sig now t) = t"
      by (cases rule: mark_slot_signed_cases [of i sig now t]) auto
    with MarkSlotSigned inv show ?thesis
      by (auto simp: termo_inv_def same_content_validate [OF mark_content])
  next
    case (SealTermo now)
    with inv show ?thesis
      by (auto simp: termo_seal_def termo_inv_def is_ok_def same_content_validate [OF same_content_state(1)]
          split: sum.splits)
  qed (use inv in \<open>auto simp: termo_inv_def draft_edits withdraw_to_draft_def Let_def split: sum.splits\<close>)
qed

text \<open>
  Two regions no method leaves: instruments with a collected signature, whose content is fixed, and
  sealed instruments, which are fixed altogether.
\<close>

definition signature_collected :: "termo_instrument \<Rightarrow> bool" where
  "signature_collected t \<longleftrightarrow>
     tm_state t = Signing \<and> (\<exists>s \<in> set (tm_signatories t). sl_signed s) \<or> tm_state t = Sealed"

lemma not_signing_not_marked:
  "tm_state t \<noteq> Signing \<Longrightarrow> mark_slot_signed i sig now t = (Err (NotSigning (tm_state t)), t)"
  by (simp add: mark_slot_signed_def)

interpretation termo_freezing: freezing_machine termo_exec "\<lambda>_. True" signature_collected termo_content
proof
  fix t :: termo_instrument and op
  assume frozen: "signature_collected t"
  then have not_draft: "tm_state t \<noteq> Draft" by (auto simp: signature_collected_def)
  show "signature_collected (snd (termo_exec op t))"
  proof (cases op)
    case (MarkSlotSigned i sig now)
    with frozen show ?thesis
      using mark_keeps_signed [of t i sig now] by (auto simp: signature_collected_def)
  qed (use frozen not_draft in \<open>auto simp: signature_collected_def draft_edits advance_to_signing_def
        withdraw_to_draft_def termo_seal_def split: sum.split\<close>)
  show "termo_content (snd (termo_exec op t)) = termo_content t"
    using frozen not_draft by (cases op) (auto simp: signature_collected_def draft_edits
        advance_to_signing_def withdraw_to_draft_def termo_seal_def mark_content same_content_state split: sum.split)
qed simp_all

interpretation termo_sealed: freezing_machine termo_exec "\<lambda>_. True" "\<lambda>t. tm_state t = Sealed" "\<lambda>t. t"
proof
  fix t :: termo_instrument and op
  assume sealed: "tm_state t = Sealed"
  then show "snd (termo_exec op t) = t"
    by (cases op) (simp_all add: draft_edits advance_to_signing_def withdraw_to_draft_def
        termo_seal_def not_signing_not_marked)
  with sealed show "tm_state (snd (termo_exec op t)) = Sealed" by simp
qed

text \<open>
  C24: a collected signature binds what was signed. Once a slot of a frozen instrument is signed, no
  sequence of method calls and guarded writes of its public fields changes its title, clauses, fields, slots or policy, or returns it to a
  draft; once it is sealed, nothing of it changes at all.
\<close>

theorem signed_termo_is_frozen:
  assumes "tm_state t = Signing \<and> (\<exists>s \<in> set (tm_signatories t). sl_signed s) \<or> tm_state t = Sealed"
    and "t' = run termo_exec ops t"
  shows "termo_content t' = termo_content t \<and> tm_state t' \<noteq> Draft
    \<and> (tm_state t = Sealed \<longrightarrow> t' = t)"
  using termo_freezing.run_frozen [of t ops] termo_sealed.run_frozen [of t ops] assms
  by (auto simp: signature_collected_def)

subsection \<open>The management floor\<close>

lemma threshold_le: "threshold p n \<le> n"
  by (cases p) (simp_all add: threshold_def)

text \<open>
  A policy that passed the floor cannot complete on the other slots alone, as long as the number of
  required slots fits the 16-bit counts.
\<close>

lemma floor_needs_management:
  assumes "is_ok (validate_policy t)" and "is_ok (ensure_completable t)"
    and "length (required_slots t) < 2 ^ 16"
  shows "\<exists>s \<in> set (required_slots t). sl_signed s \<and> is_management_capacity (sl_capacity s)"
proof (rule ccontr)
  let ?mgmt = "\<lambda>s. is_management_capacity (sl_capacity s)"
  define R where "R = required_slots t"
  define T where "T = threshold (tm_completion_policy t) (required_slot_count t)"
  assume "\<not> ?thesis"
  then have "\<forall>s \<in> set R. sl_signed s \<longrightarrow> \<not> ?mgmt s" by (auto simp: R_def)
  then have "length (filter sl_signed R) \<le> length (filter (\<lambda>s. \<not> ?mgmt s) R)"
    by (induction R) auto
  moreover have "length (filter (\<lambda>s. \<not> ?mgmt s) R) = length R - length (filter ?mgmt R)"
    using sum_length_filter_compl [of ?mgmt R] by simp
  ultimately have few: "length (filter sl_signed R) \<le> length R - length (filter ?mgmt R)" by simp
  have lens: "length (filter f R) \<le> length R" "length R < 2 ^ 16" for f
    using assms(3) by (simp_all add: R_def)
  have "required_slot_count t \<noteq> 0" "\<not> signed_required_slot_count t < T"
    using assms(2) by (auto simp: ensure_completable_def T_def Let_def split: if_splits)
  moreover from this have "T > required_slot_count t - count_u16 (length (filter ?mgmt R))"
    using assms(1) by (auto simp: validate_policy_def satisfies_management_floor_def T_def R_def Let_def
        word_neq_0_conv split: if_splits)
  ultimately have "unat (count_u16 (length (filter sl_signed R)))
      > unat (count_u16 (length R) - count_u16 (length (filter ?mgmt R)))"
    by (simp add: signed_required_slot_count_def required_slot_count_def R_def word_less_nat_alt word_le_nat_alt)
  moreover have "unat (count_u16 (length R) - count_u16 (length (filter ?mgmt R)))
      = length R - length (filter ?mgmt R)"
    using Word.unat_sub [OF count_u16_mono [OF lens(1) [of ?mgmt]]] lens(1) [of ?mgmt] lens(2)
    by (simp add: unat_count_u16)
  ultimately have "length (filter sl_signed R) > length R - length (filter ?mgmt R)"
    using lens(1) [of sl_signed] lens(2) by (simp add: unat_count_u16)
  with few show False by simp
qed

lemma validated_fields:
  assumes "is_ok (termo_validate t)"
  shows "case tm_kind t of
      Abertura \<Rightarrow> (\<exists>c. tf_page_capacity (tm_fields t) = Some c \<and> MIN_PAGE_CAPACITY \<le> c \<and> c \<le> MAX_PAGE_CAPACITY)
        \<and> tf_closing_reason (tm_fields t) = None
    | Encerramento \<Rightarrow> tf_closing_reason (tm_fields t) \<noteq> None \<and> tf_page_capacity (tm_fields t) = None"
proof -
  have "is_ok (fields_validate_kind (tm_kind t) (tm_fields t))"
    using termo_validate_ok(4) [OF assms] by (simp add: fields_validate_def)
  then show ?thesis
    by (cases "tm_kind t") (auto simp: fields_validate_kind_def split: option.splits if_splits)
qed

text \<open>Slots enter an instrument unsigned, as every handler makes them: then only \<open>mark_slot_signed\<close> signs one.\<close>

fun adds_unsigned :: "termo_op \<Rightarrow> bool" where
  "adds_unsigned (AddSignatory s) = (\<not> sl_signed s)"
| "adds_unsigned _ = True"

lemma signed_slot_step:
  assumes "s \<in> set (tm_signatories (snd (termo_exec op t)))" "sl_signed s" "adds_unsigned op"
  shows "(\<exists>sig now. op = MarkSlotSigned (sl_id s) sig now) \<or> s \<in> set (tm_signatories t)"
proof (cases op)
  case (MarkSlotSigned i sig now)
  show ?thesis
  proof (cases rule: mark_slot_signed_cases [of i sig now t])
    case (signed k)
    then have "s \<in> insert ((tm_signatories t ! k)\<lparr>sl_signed := True, sl_signed_at := Some now, sl_signature_id := sig\<rparr>)
        (set (tm_signatories t))"
      using assms(1) MarkSlotSigned set_update_subset_insert by fastforce
    then show ?thesis using signed(4) MarkSlotSigned by auto
  qed (use assms(1) MarkSlotSigned in simp)
qed (use assms in \<open>auto simp: draft_edits advance_to_signing_def withdraw_to_draft_def termo_seal_def Let_def
      split: sum.splits if_splits\<close>)

lemma signed_slot_marked:
  assumes "\<forall>op \<in> set ops. adds_unsigned op" "tm_signatories t = []"
    and "s \<in> set (tm_signatories (run termo_exec ops t))" "sl_signed s"
  shows "\<exists>sig now. MarkSlotSigned (sl_id s) sig now \<in> set ops"
  using assms
proof (induction ops rule: rev_induct)
  case (snoc op ops)
  then show ?case using signed_slot_step [of s op "run termo_exec ops t"] by (auto simp: run_append)
qed simp

text \<open>
  C23: every sealed instrument was signed by the management. Take an instrument of either kind, drawn up
  from a fresh draft by any sequence of its methods and of the writes of its public fields, slots and
  scheme that the handlers make while it is a draft. When it is sealed it passes every check of the freeze (an
  abertura declares a page capacity within the limits and no closing reason, an encerramento a closing
  reason and no capacity), as many required slots are signed as its policy asks, and, while there are at most 65535
  required slots, one of them is of a manager or administrator. When slots were added unsigned, as every handler
  adds them, each signed slot was signed by a call of \<open>mark_slot_signed\<close> for it.
\<close>

theorem sealed_termo_signed_by_management:
  assumes "t = run termo_exec ops (termo_draft new_id book_id kind title created)"
    and "tm_state t = Sealed"
  shows "is_ok (termo_validate t)
    \<and> (case tm_kind t of
         Abertura \<Rightarrow> (\<exists>c. tf_page_capacity (tm_fields t) = Some c \<and> MIN_PAGE_CAPACITY \<le> c \<and> c \<le> MAX_PAGE_CAPACITY)
           \<and> tf_closing_reason (tm_fields t) = None
       | Encerramento \<Rightarrow> tf_closing_reason (tm_fields t) \<noteq> None \<and> tf_page_capacity (tm_fields t) = None)
    \<and> threshold (tm_completion_policy t) (required_slot_count t) \<le> signed_required_slot_count t
    \<and> (length (required_slots t) < 2 ^ 16 \<longrightarrow>
         (\<exists>s \<in> set (required_slots t). sl_signed s \<and> is_management_capacity (sl_capacity s)))
    \<and> ((\<forall>op \<in> set ops. adds_unsigned op) \<longrightarrow>
         (\<forall>s \<in> set (tm_signatories t). sl_signed s \<longrightarrow> (\<exists>sig now. MarkSlotSigned (sl_id s) sig now \<in> set ops)))"
proof -
  have "termo_inv (termo_draft new_id book_id kind title created)"
    by (simp add: termo_inv_def termo_draft_def)
  then have "termo_inv t" using termo_machine.run_inv assms(1) by blast
  then have ok: "is_ok (termo_validate t)" "is_ok (ensure_completable t)"
    using assms(2) by (simp_all add: termo_inv_def)
  have "threshold (tm_completion_policy t) (required_slot_count t) \<le> signed_required_slot_count t"
    using ok(2) by (auto simp: ensure_completable_def Let_def split: if_splits)
  moreover have "(\<forall>op \<in> set ops. adds_unsigned op) \<longrightarrow>
      (\<forall>s \<in> set (tm_signatories t). sl_signed s \<longrightarrow> (\<exists>sig now. MarkSlotSigned (sl_id s) sig now \<in> set ops))"
    using signed_slot_marked [of ops "termo_draft new_id book_id kind title created"] assms(1)
    by (auto simp: termo_draft_def)
  ultimately show ?thesis
    using ok(1) validated_fields [OF ok(1)] floor_needs_management [OF termo_validate_ok(3) [OF ok(1)] ok(2)] by blast
qed

subsection \<open>Collecting the signatures\<close>

definition open_slot_ids :: "termo_instrument \<Rightarrow> u128 set" where
  "open_slot_ids t = sl_id ` {s \<in> set (tm_signatories t). \<not> sl_signed s}"

definition slot_keys :: "termo_instrument \<Rightarrow> (u128 \<times> u16 \<times> bool) set" where
  "slot_keys t = (\<lambda>s. (sl_id s, sl_order s, sl_required s)) ` set (tm_signatories t)"

definition slots_ahead :: "termo_instrument \<Rightarrow> u128 \<Rightarrow> u128 set" where
  "slots_ahead t i = {j. \<exists>a b q. (j, a, True) \<in> slot_keys t \<and> (i, b, q) \<in> slot_keys t \<and> a < b}"

lemma slot_keys_content: "slot_keys (termo_content t) = slot_keys t"
  by (simp add: slot_keys_def image_image)

lemma slots_ahead_iff:
  "j \<in> slots_ahead t i \<longleftrightarrow> (\<exists>r \<in> set (tm_signatories t). sl_id r = j \<and> sl_required r
     \<and> (\<exists>s \<in> set (tm_signatories t). sl_id s = i \<and> sl_order r < sl_order s))"
  unfolding slots_ahead_def slot_keys_def by force

definition collecting :: "termo_instrument \<Rightarrow> bool" where
  "collecting t \<longleftrightarrow> tm_state t = Signing \<and> slots_ok t"

lemma slots_ok_content: "slots_ok (termo_content t) = slots_ok t"
  by (simp add: slots_ok_def o_def)

lemma slots_ok_inj: "slots_ok t \<Longrightarrow> inj_on sl_id (set (tm_signatories t))"
  by (simp add: slots_ok_def distinct_map)

lemma open_slot_ids_update:
  assumes "slots_ok t" and "k < length (tm_signatories t)" and "sl_signed s"
  shows "open_slot_ids (t\<lparr>tm_signatories := (tm_signatories t)[k := s]\<rparr>)
    = open_slot_ids t - {sl_id (tm_signatories t ! k)}"
proof -
  have "distinct (tm_signatories t)" using assms(1) by (simp add: slots_ok_def distinct_map)
  then have "set ((tm_signatories t)[k := s]) = insert s (set (tm_signatories t) - {tm_signatories t ! k})"
    using assms(2) by (rule set_update_distinct)
  then show ?thesis
    using inj_onD [OF slots_ok_inj [OF assms(1)]] nth_mem [OF assms(2)] assms(3)
    by (auto simp: open_slot_ids_def)
qed

lemma mark_open_slot:
  assumes "collecting t" and "i \<in> open_slot_ids t" and "slots_ahead t i \<inter> open_slot_ids t = {}"
  shows "\<exists>t'. mark_slot_signed i sig now t = (Ok (), t') \<and> open_slot_ids t' = open_slot_ids t - {i}"
proof -
  let ?slots = "tm_signatories t"
  obtain k where k: "k < length ?slots" "i = sl_id (?slots ! k)" "\<not> sl_signed (?slots ! k)"
    using assms(2) by (auto simp: open_slot_ids_def in_set_conv_nth)
  have ok: "slots_ok t" "tm_state t = Signing" using assms(1) by (simp_all add: collecting_def)
  have "find_position (\<lambda>s. sl_id s = i) ?slots = Some k"
    using position_distinct [of sl_id ?slots k] ok k by (simp add: slots_ok_def)
  moreover have none: "filter (\<lambda>s. sl_required s \<and> \<not> sl_signed s \<and> sl_order s < sl_order (?slots ! k)) ?slots = []"
  proof (rule ccontr)
    assume "filter (\<lambda>s. sl_required s \<and> \<not> sl_signed s \<and> sl_order s < sl_order (?slots ! k)) ?slots \<noteq> []"
    then obtain r where r: "r \<in> set ?slots" "sl_required r" "\<not> sl_signed r" "sl_order r < sl_order (?slots ! k)"
      by (auto simp: filter_empty_conv)
    then have "sl_id r \<in> open_slot_ids t" by (simp add: open_slot_ids_def)
    moreover have "sl_id r \<in> slots_ahead t i"
      using r k(2) nth_mem [OF k(1)] by (auto simp: slots_ahead_iff)
    ultimately show False using assms(3) by blast
  qed
  ultimately have "mark_slot_signed i sig now t = (Ok (), t\<lparr>tm_signatories := ?slots[k := (?slots ! k)
      \<lparr>sl_signed := True, sl_signed_at := Some now, sl_signature_id := sig\<rparr>]\<rparr>)"
    using ok k by (simp add: mark_slot_signed_def min_by_key_def)
  then show ?thesis using open_slot_ids_update [OF ok(1) k(1)] k(2) by simp
qed

interpretation termo_slots: slot_collection "\<lambda>i. mark_slot_signed i sig now" collecting open_slot_ids
  slots_ahead termo_content for sig now
proof
  fix t i
  assume c: "collecting t" and "i \<in> open_slot_ids t" "slots_ahead t i \<inter> open_slot_ids t = {}"
  then obtain t' where t': "mark_slot_signed i sig now t = (Ok (), t')" "open_slot_ids t' = open_slot_ids t - {i}"
    using mark_open_slot by blast
  then have same: "termo_content t' = termo_content t" "tm_state t' = tm_state t"
    using mark_content [of i sig now t] mark_state [of i sig now t] by simp_all
  then have "collecting t'" "slots_ahead t' = slots_ahead t"
    using c slots_ok_content [of t] slots_ok_content [of t'] slot_keys_content [of t] slot_keys_content [of t']
    by (simp_all add: collecting_def slots_ahead_def fun_eq_iff)
  with t' same show "\<exists>s'. mark_slot_signed i sig now t = (Ok (), s') \<and> collecting s'
      \<and> open_slot_ids s' = open_slot_ids t - {i} \<and> slots_ahead s' = slots_ahead t \<and> termo_content s' = termo_content t"
    by blast
qed

text \<open>The slots still to sign, in their printed order.\<close>

definition signing_order :: "termo_instrument \<Rightarrow> u128 list" where
  "signing_order t = map sl_id (sort_key sl_order (filter (\<lambda>s. \<not> sl_signed s) (tm_signatories t)))"

lemma signing_order_in_turn:
  assumes "slots_ok t"
  shows "in_turn (slots_ahead t) (open_slot_ids t) (signing_order t)"
proof -
  define key where "key i = sl_order (the (find (\<lambda>s. sl_id s = i) (tm_signatories t)))" for i
  have key: "key (sl_id s) = sl_order s" if "s \<in> set (tm_signatories t)" for s
    using find_distinct [of sl_id, OF _ that] assms by (simp add: slots_ok_def key_def)
  have subset: "set (filter (\<lambda>s. \<not> sl_signed s) (tm_signatories t)) \<subseteq> set (tm_signatories t)" by auto
  have "map key (signing_order t) = map sl_order (sort_key sl_order (filter (\<lambda>s. \<not> sl_signed s) (tm_signatories t)))"
    using key subset by (auto simp: signing_order_def)
  then have "sorted (map key (signing_order t))" by simp
  moreover have "distinct (signing_order t)"
    using assms by (auto simp: signing_order_def slots_ok_def distinct_map intro: inj_on_subset)
  moreover have "open_slot_ids t = set (signing_order t)"
    by (simp add: open_slot_ids_def signing_order_def)
  moreover have "key j < key i" if "j \<in> slots_ahead t i" for i j
    using that key by (auto simp: slots_ahead_iff)
  ultimately show ?thesis by (rule in_turn_sorted)
qed

lemma all_signed_completable:
  assumes "required_slots t \<noteq> []" and "\<forall>s \<in> set (tm_signatories t). sl_signed s"
  shows "is_ok (ensure_completable t)"
proof -
  have "filter sl_signed (required_slots t) = required_slots t"
    using assms(2) by (simp add: required_slots_def cong: filter_cong)
  then have "signed_required_slot_count t = required_slot_count t"
    by (simp add: signed_required_slot_count_def required_slot_count_def)
  then show ?thesis
    using assms(1) threshold_le [of "tm_completion_policy t" "required_slot_count t"]
    by (auto simp: ensure_completable_def required_slot_count_def Let_def)
qed

text \<open>
  C25: collecting is never stuck. Once a draft has been frozen, signing its open slots in their
  printed order is accepted at every step, whatever the completion policy, and the instrument can
  then be sealed with the content that was frozen.
\<close>

theorem frozen_termo_completes:
  assumes "advance_to_signing template at t = (Ok (), t1)"
  shows "\<exists>t2. sign_all (\<lambda>i. mark_slot_signed i sig now) (signing_order t1) t1 = (Ok (), t2)
    \<and> is_ok (fst (termo_seal later t2)) \<and> termo_content t2 = termo_content t"
proof -
  have t1: "is_ok (termo_validate t)" "tm_state t1 = Signing" "termo_content t1 = termo_content t"
    using assms by (auto simp: advance_to_signing_def is_ok_def same_content_state split: sum.splits if_splits)
  then have ok: "is_ok (termo_validate t1)" by (simp add: same_content_validate [OF t1(3)])
  have "collecting t1" using t1(2) termo_validate_ok(1) [OF ok] by (simp add: collecting_def)
  from termo_slots.collect_all [OF this signing_order_in_turn [OF termo_validate_ok(1) [OF ok]]]
  obtain t2 where t2: "sign_all (\<lambda>i. mark_slot_signed i sig now) (signing_order t1) t1 = (Ok (), t2)"
    "collecting t2" "open_slot_ids t2 = open_slot_ids t1 - set (signing_order t1)"
    "termo_content t2 = termo_content t1"
    by blast
  have "open_slot_ids t2 = {}" using t2(3) by (simp add: signing_order_def open_slot_ids_def)
  then have "\<forall>s \<in> set (tm_signatories t2). sl_signed s" by (auto simp: open_slot_ids_def)
  moreover have "required_slots t2 \<noteq> []"
    using termo_validate_ok(2) [OF ok] required_slots_content [of t1] required_slots_content [of t2] t2(4) by auto
  ultimately have "is_ok (ensure_completable t2)" by (rule all_signed_completable [rotated])
  with t2(2) have "is_ok (fst (termo_seal later t2))"
    by (auto simp: termo_seal_def collecting_def is_ok_def split: sum.splits)
  with t2 t1(3) show ?thesis by auto
qed

text \<open>
  a validated instrument opens its book. Whenever an abertura that passes the checks of the
  freeze can be projected, a created book accepts the projection, takes the declared page capacity,
  which is within the limits, and keeps the projected termo.
\<close>

theorem projected_abertura_opens_book:
  assumes "is_ok (termo_validate t)" and "project_abertura name nipc seat scheme t = Ok p"
    and "bk_state b = Created"
  shows "\<exists>b' capacity. open_book p b = (Ok (), b') \<and> bk_state b' = Open
    \<and> bk_termo_abertura b' = Some p \<and> bk_page_capacity b' = Some capacity
    \<and> tf_page_capacity (tm_fields t) = Some capacity
    \<and> MIN_PAGE_CAPACITY \<le> capacity \<and> capacity \<le> MAX_PAGE_CAPACITY"
proof -
  have p: "tm_kind t = Abertura" "ta_page_capacity p = tf_page_capacity (tm_fields t)"
    using assms(2) by (auto simp: project_abertura_def Let_def split: if_splits option.splits sum.splits)
  then have "is_ok (fields_validate_kind Abertura (tm_fields t))"
    using termo_validate_ok(4) [OF assms(1)] by (simp add: fields_validate_def del: checks.simps)
  then obtain capacity where "tf_page_capacity (tm_fields t) = Some capacity"
      "MIN_PAGE_CAPACITY \<le> capacity" "capacity \<le> MAX_PAGE_CAPACITY"
    by (auto simp: fields_validate_kind_def split: option.splits if_splits)
  with p(2) assms(3) show ?thesis by (auto simp: open_book_def Let_def split: option.split)
qed

subsection \<open>A concrete instrument\<close>

definition sample_clause :: termo_clause where
  "sample_clause = user_added 50 None ''Livro de atas da assembleia geral.''"

definition sample_drafting :: "termo_op list" where
  "sample_drafting =
     [SetBody [sample_clause], AddSignatory (required_slot 1 ''Ana'' Manager 1),
      AddSignatory (required_slot 2 ''Rui'' Secretary 2), SetPolicy AllRequired]"

definition sample_signing :: "termo_op list" where
  "sample_signing = sample_drafting @ [AdvanceToSigning ''csc-termo-abertura/v1'' \<lparr>unix_nanos = 1, utc_offset = 0\<rparr>]"

definition sample_sealing :: "termo_op list" where
  "sample_sealing = sample_signing @ [MarkSlotSigned 1 None \<lparr>unix_nanos = 2, utc_offset = 0\<rparr>,
     MarkSlotSigned 2 None \<lparr>unix_nanos = 3, utc_offset = 0\<rparr>, SealTermo \<lparr>unix_nanos = 4, utc_offset = 0\<rparr>]"

definition blank_termo :: termo_instrument where
  "blank_termo = termo_draft 9 8 Abertura ''Termo de abertura'' \<lparr>unix_nanos = 0, utc_offset = 0\<rparr>"

lemma sample_termo_states:
  "tm_state (run termo_exec sample_sealing blank_termo) = Sealed"
  "is_ok (fst (advance_to_signing ''csc-termo-abertura/v1'' \<lparr>unix_nanos = 1, utc_offset = 0\<rparr> (run termo_exec sample_drafting blank_termo)))"
  "length (required_slots (run termo_exec sample_sealing blank_termo)) = 2"
  by code_simp+

text \<open>The closing instrument of the same book, with its date and reason.\<close>

definition closing_termo :: termo_instrument where
  "closing_termo = termo_draft 10 8 Encerramento ''Termo de encerramento'' \<lparr>unix_nanos = 0, utc_offset = 0\<rparr>"

definition closing_ops :: "termo_op list" where
  "closing_ops = AssignFields (for_encerramento\<lparr>tf_instrument_date := Some 9, tf_closing_reason := Some BookFull\<rparr>) # sample_sealing"

lemma closing_termo_sealed: "tm_state (run termo_exec closing_ops closing_termo) = Sealed"
  by code_simp

theorem sealed_termo_signed_by_management_witness:
  "is_ok (termo_validate (run termo_exec sample_sealing blank_termo))
   \<and> (\<exists>s \<in> set (required_slots (run termo_exec sample_sealing blank_termo)).
        sl_signed s \<and> is_management_capacity (sl_capacity s))
   \<and> is_ok (termo_validate (run termo_exec closing_ops closing_termo))"
  using sealed_termo_signed_by_management [OF refl, of sample_sealing 9 8 Abertura "''Termo de abertura''" "\<lparr>unix_nanos = 0, utc_offset = 0\<rparr>"]
    sealed_termo_signed_by_management [OF refl, of closing_ops 10 8 Encerramento "''Termo de encerramento''" "\<lparr>unix_nanos = 0, utc_offset = 0\<rparr>"]
    sample_termo_states(1, 3) closing_termo_sealed
  by (simp add: blank_termo_def closing_termo_def)

theorem signed_termo_is_frozen_witness:
  "run termo_exec [SetTitle ''Outro'', WithdrawToDraft] (run termo_exec sample_sealing blank_termo)
     = run termo_exec sample_sealing blank_termo"
  using signed_termo_is_frozen [OF disjI2 [OF sample_termo_states(1)] refl, of "[SetTitle ''Outro'', WithdrawToDraft]"]
    sample_termo_states(1) by blast

theorem frozen_termo_completes_witness:
  "\<exists>t1 t2. sign_all (\<lambda>i. mark_slot_signed i None \<lparr>unix_nanos = 2, utc_offset = 0\<rparr>) (signing_order t1) t1 = (Ok (), t2)
    \<and> is_ok (fst (termo_seal \<lparr>unix_nanos = 3, utc_offset = 0\<rparr> t2))"
proof -
  obtain t1 where "advance_to_signing ''csc-termo-abertura/v1'' \<lparr>unix_nanos = 1, utc_offset = 0\<rparr>
      (run termo_exec sample_drafting blank_termo) = (Ok (), t1)"
    using sample_termo_states(2) by (cases "advance_to_signing ''csc-termo-abertura/v1'' \<lparr>unix_nanos = 1, utc_offset = 0\<rparr>
      (run termo_exec sample_drafting blank_termo)") (auto simp: is_ok_iff)
  from frozen_termo_completes [OF this, of None "\<lparr>unix_nanos = 2, utc_offset = 0\<rparr>" "\<lparr>unix_nanos = 3, utc_offset = 0\<rparr>"]
  show ?thesis by blast
qed

definition dated_termo :: termo_instrument where
  "dated_termo = (let t = run termo_exec sample_drafting blank_termo in
     t\<lparr>tm_fields := (tm_fields t)\<lparr>tf_instrument_date := Some 7\<rparr>\<rparr>)"

theorem projected_abertura_opens_book_witness:
  "\<exists>p b'. open_book p (new_book 1 2 AssembleiaGeral) = (Ok (), b') \<and> bk_state b' = Open"
proof -
  have "is_ok (termo_validate dated_termo)"
    "is_ok (project_abertura ''Encosto'' ''503004642'' ''Lisboa'' Sequential dated_termo)"
    by code_simp+
  then obtain p where "project_abertura ''Encosto'' ''503004642'' ''Lisboa'' Sequential dated_termo = Ok p"
      "is_ok (termo_validate dated_termo)"
    by (auto simp: is_ok_iff)
  from projected_abertura_opens_book [OF this(2, 1), of "new_book 1 2 AssembleiaGeral"]
  show ?thesis by (auto simp: new_book_def)
qed

end
