(* ===== verification/Termo_Api.thy ===== *)
theory Termo_Api
  imports Seal Ledger_Recovery Termo Write_Through
begin

section \<open>Opening and closing a book by a signed termo\<close>

text \<open>
  \<open>src/crates/chancela-api/src/termo.rs\<close>: the handlers that draft a termo, freeze it for signing,
  collect its signatures, and open or close the book by it (the two-phase route; the one-shot creation and
  closing of \<open>books.rs\<close> go without a signed termo and are not modelled). A handler is one step on the state of
  the server; the locks it holds between its awaits are not modelled.

  Outside the model, as parameters (\<open>termo_env\<close>) or outcomes the environment supplies
  (\<open>termo_io\<close>): the rendering of the PDF snapshots and the template catalogue (\<open>documents.rs\<close>), the
  JSON serialiser, the date parser; the confirmation gate, the PKCS#12 and PAdES pipeline from the
  uploaded file to the bound, time-stamped PDF, reads and writes of the store. Attestation of the
  last event, the search index, the cache of signed documents and the content of the response views
  are left out, and error texts are reduced to their status.
\<close>

subsection \<open>State and environment\<close>

text \<open>The rows of the store, with the columns the handlers read.\<close>

record document =
  dc_id :: string
  dc_act_id :: u128
  dc_template_id :: string
  dc_layout :: "string option"
  dc_pdf_digest :: string
  dc_pdf_bytes :: "byte list"

record signed_pdf =
  sp_signed_pdf_digest :: string
  sp_signer_cert_subject :: "string option"

record instrument_signature =
  sg_subject :: u128
  sg_slot_id :: "string option"
  sg_document :: signed_pdf

text \<open>
  The store keeps its termos in the order of their ids and its signature rows in the order of their
  sequence numbers. A document is in the cache whenever it is in the store.
\<close>

record termo_server =
  sv_dir :: directory
  sv_entities :: "u128 \<rightharpoonup> entity"
  sv_books :: "u128 \<rightharpoonup> book"
  sv_termos :: "termo_instrument list"
  sv_signatures :: "instrument_signature list"
  sv_documents :: "u128 \<rightharpoonup> document"
  sv_local_signing :: bool
  sv_layout :: string
  sv_ledger :: ledger

record termo_io =
  ti_now :: offset_date_time
  ti_ids :: "nat \<Rightarrow> u128"
  ti_event_ids :: "u128 \<times> u128"
  ti_confirmation :: "api_error option"
  ti_read_termo :: "api_error option"
  ti_read_signatures :: "api_error option"
  ti_read_document :: "api_error option"
  ti_signing :: "api_error + signed_pdf"
  ti_write :: "api_error option"
  ti_view :: "api_error option"

record termo_env =
  te_seal :: seal_env
  te_parse_date :: "string \<Rightarrow> date option"
  te_abertura_template :: "entity_family \<Rightarrow> string option"
  te_encerramento_template :: "entity_family \<Rightarrow> string option"
  te_default_body :: "string \<Rightarrow> (string option \<times> string) list option"
  te_generate_for_termo :: "termo_de_abertura \<Rightarrow> book \<Rightarrow> entity \<Rightarrow> string option \<Rightarrow> string \<Rightarrow> api_error + document option"
  te_encerramento_layout :: "termo_instrument \<Rightarrow> book \<Rightarrow> entity \<Rightarrow> string \<Rightarrow> api_error + string option"
  te_generate_encerramento :: "termo_instrument \<Rightarrow> termo_de_encerramento \<Rightarrow> book \<Rightarrow> entity \<Rightarrow> string \<Rightarrow> api_error + document option"
  te_pinned_layout :: "document \<Rightarrow> api_error + string"
  te_encerramento_json :: "termo_de_encerramento \<Rightarrow> byte list option"
  te_manifest_json :: "string \<Rightarrow> u128 \<Rightarrow> document \<Rightarrow> instrument_signature list \<Rightarrow> byte list option"

abbreviation te_ledger :: "termo_env \<Rightarrow> ledger_env" where "te_ledger env \<equiv> led_env (te_seal env)"

abbreviation te_uuid :: "termo_env \<Rightarrow> u128 \<Rightarrow> string" where "te_uuid env \<equiv> uuid_text (te_seal env)"

subsection \<open>Errors, reads and writes\<close>

definition map_termo_error :: "termo_error \<Rightarrow> api_error" where
  "map_termo_error e =
     (case e of
        NotMutable _ \<Rightarrow> Conflict
      | InvalidTransition _ _ \<Rightarrow> Conflict
      | NotSigning _ \<Rightarrow> Conflict
      | SlotAlreadySigned _ \<Rightarrow> Conflict
      | SequentialOrderBlocked _ _ \<Rightarrow> Conflict
      | RequiredSlotsNotSigned _ \<Rightarrow> Conflict
      | SignaturesAlreadyCollected \<Rightarrow> Conflict
      | WrongKind _ _ \<Rightarrow> Conflict
      | _ \<Rightarrow> Unprocessable)"

definition seal_api_error :: "seal_error \<Rightarrow> api_error" where
  "seal_api_error e =
     (case e of
        SealBook _ \<Rightarrow> Conflict
      | SealAct _ \<Rightarrow> Conflict
      | ComplianceBlocked _ \<Rightarrow> Unprocessable
      | WarningsNotAcknowledged _ \<Rightarrow> Conflict
      | MissingManualSignatureOriginalReference \<Rightarrow> Unprocessable
      | InvalidSignatureEvidence _ \<Rightarrow> Unprocessable
      | Serialize _ \<Rightarrow> Internal)"

text \<open>\<open>result.map_err(f)\<close>, and a method called on a local copy of the instrument.\<close>

definition map_err :: "('e \<Rightarrow> 'd) \<Rightarrow> 'e + 'a \<Rightarrow> 'd + 'a" where
  "map_err f r = (case r of Inl e \<Rightarrow> Err (f e) | Inr a \<Rightarrow> Ok a)"

definition on_copy :: "(termo_error, unit, termo_instrument) call \<Rightarrow> api_error + termo_instrument" where
  "on_copy c = (case c of (Inl e, _) \<Rightarrow> Err (map_termo_error e) | (Inr _, t) \<Rightarrow> Ok t)"

definition non_empty :: "string \<Rightarrow> string option" where
  "non_empty v = (let trimmed = trim v in if trimmed = [] then None else Some trimmed)"

definition normalize_capacity_note :: "string option \<Rightarrow> string option" where
  "normalize_capacity_note note = Option.bind note (\<lambda>s. let t = trim s in if t = [] then None else Some t)"

definition load_book_termo ::
  "termo_kind \<Rightarrow> termo_io \<Rightarrow> u128 \<Rightarrow> termo_server \<Rightarrow> api_error + termo_instrument" where
  "load_book_termo kind io book_id st =
     (case ti_read_termo io of
        Some e \<Rightarrow> Err e
      | None \<Rightarrow> ok_or NotFound (find (\<lambda>t. tm_book_id t = book_id \<and> tm_kind t = kind) (sv_termos st)))"

definition instrument_signatures_for_subject :: "termo_io \<Rightarrow> u128 \<Rightarrow> termo_server \<Rightarrow> api_error + instrument_signature list" where
  "instrument_signatures_for_subject io subject st =
     (case ti_read_signatures io of
        Some e \<Rightarrow> Err e
      | None \<Rightarrow> Ok (filter (\<lambda>g. sg_subject g = subject) (sv_signatures st)))"

definition load_document :: "termo_io \<Rightarrow> u128 \<Rightarrow> termo_server \<Rightarrow> api_error + document option" where
  "load_document io subject st =
     (case ti_read_document io of Some e \<Rightarrow> Err e | None \<Rightarrow> Ok (sv_documents st subject))"

definition upsert_termo :: "termo_env \<Rightarrow> termo_instrument \<Rightarrow> termo_instrument list \<Rightarrow> termo_instrument list" where
  "upsert_termo env t ts =
     (if \<exists>x \<in> set ts. tm_id x = tm_id t then map (\<lambda>x. if tm_id x = tm_id t then t else x) ts
      else insort_key (\<lambda>x. te_uuid env (tm_id x)) t ts)"

definition upsert_document :: "document option \<Rightarrow> (u128 \<rightharpoonup> document) \<Rightarrow> (u128 \<rightharpoonup> document)" where
  "upsert_document d m = (case d of Some doc \<Rightarrow> m(dc_act_id doc \<mapsto> doc) | None \<Rightarrow> m)"

text \<open>\<open>append_instrument_signature\<close>: a row with the same subject and digest is not added twice.\<close>

definition append_instrument_signature :: "instrument_signature \<Rightarrow> instrument_signature list \<Rightarrow> instrument_signature list" where
  "append_instrument_signature g gs =
     (if \<exists>x \<in> set gs. sg_subject x = sg_subject g
           \<and> sp_signed_pdf_digest (sg_document x) = sp_signed_pdf_digest (sg_document g)
      then gs else gs @ [g])"

text \<open>One durable commit without events: the instrument, and with it a document or a signature row.\<close>

definition commit_termo ::
  "termo_env \<Rightarrow> termo_io \<Rightarrow> termo_instrument \<Rightarrow> document option \<Rightarrow> instrument_signature list \<Rightarrow> termo_server
     \<Rightarrow> (api_error, unit, termo_server) call" where
  "commit_termo env io t doc rows st =
     (case persist_write_through (te_ledger env) (ti_write io) 0 (sv_ledger st) of
        (Inl e, l) \<Rightarrow> (Err e, st\<lparr>sv_ledger := l\<rparr>)
      | (Inr _, l) \<Rightarrow> (Ok (), st\<lparr>sv_ledger := l, sv_termos := upsert_termo env t (sv_termos st),
            sv_documents := upsert_document doc (sv_documents st),
            sv_signatures := fold append_instrument_signature rows (sv_signatures st)\<rparr>))"

text \<open>
  \<open>termo_view_with_pades_availability\<close> reads the store once more for the response, after the commit;
  when that read fails the answer is an error although the change is durable.
\<close>

definition respond :: "termo_io \<Rightarrow> (api_error, unit, termo_server) call \<Rightarrow> (api_error, unit, termo_server) call" where
  "respond io c =
     (case c of (Inl e, st) \<Rightarrow> (Err e, st)
      | (Inr _, st) \<Rightarrow> (case ti_view io of Some e \<Rightarrow> (Err e, st) | None \<Rightarrow> (Ok (), st)))"

abbreviation require_book :: "termo_io \<Rightarrow> current_actor \<Rightarrow> permission \<Rightarrow> u128 \<Rightarrow> termo_server \<Rightarrow> api_error + unit" where
  "require_book io actor p book_id st \<equiv> require_permission (sv_dir st) (ti_now io) actor p (scope.Book book_id)"

subsection \<open>Drafting\<close>

record slot_input =
  si_name :: string
  si_email :: "string option"
  si_capacity :: signatory_capacity
  si_capacity_note :: "string option"
  si_required :: bool
  si_order :: u16

record termo_patch =
  pt_title :: "string option"
  pt_body :: "(string option \<times> string) list option"
  pt_book_number :: "u32 option"
  pt_place :: "string option"
  pt_page_capacity :: "u32 option"
  pt_purpose :: "string option"
  pt_date :: "string option"
  pt_closing_reason :: "closing_reason option"
  pt_predecessor_note :: "string option"
  pt_entity_seat :: "string option"
  pt_signatories :: "slot_input list option"
  pt_completion_policy :: "termo_completion_policy option"

definition input_slot :: "u128 \<Rightarrow> slot_input \<Rightarrow> termo_signatory_slot" where
  "input_slot new_id i =
     (let slot = (if si_required i then required_slot new_id (si_name i) (si_capacity i) (si_order i)
                  else optional_slot new_id (si_name i) (si_capacity i) (si_order i));
          slot = (case Option.bind (si_email i) non_empty of Some email \<Rightarrow> with_email email slot | None \<Rightarrow> slot)
      in case normalize_capacity_note (si_capacity_note i) of
           Some note \<Rightarrow> with_capacity_note note slot
         | None \<Rightarrow> slot)"

definition add_input :: "termo_instrument \<Rightarrow> u128 \<times> slot_input \<Rightarrow> api_error + termo_instrument" where
  "add_input t = (\<lambda>(new_id, i). on_copy (termo_add_signatory (input_slot new_id i) t))"

definition replace_signatory_slots ::
  "(nat \<Rightarrow> u128) \<Rightarrow> slot_input list \<Rightarrow> termo_instrument \<Rightarrow> api_error + termo_instrument" where
  "replace_signatory_slots ids slots t =
     try_fold add_input (t\<lparr>tm_signatories := []\<rparr>) (zip (map ids [0..<length slots]) slots)"

text \<open>\<open>if let Some(v) = field { .. }\<close> in sequence: each part of a patch that is present is applied.\<close>

definition patch_part :: "'a option \<Rightarrow> ('a \<Rightarrow> termo_instrument \<Rightarrow> api_error + termo_instrument)
  \<Rightarrow> api_error + termo_instrument \<Rightarrow> api_error + termo_instrument" where
  "patch_part field f r =
     (case r of Inl e \<Rightarrow> Err e | Inr t \<Rightarrow> (case field of Some v \<Rightarrow> f v t | None \<Rightarrow> Ok t))"

definition set_field :: "('a \<Rightarrow> termo_fields \<Rightarrow> termo_fields) \<Rightarrow> 'a \<Rightarrow> termo_instrument \<Rightarrow> api_error + termo_instrument" where
  "set_field upd v t = Ok (t\<lparr>tm_fields := upd v (tm_fields t)\<rparr>)"

definition set_date :: "termo_env \<Rightarrow> string \<Rightarrow> termo_instrument \<Rightarrow> api_error + termo_instrument" where
  "set_date env raw t =
     (case te_parse_date env raw of
        None \<Rightarrow> Err Unprocessable
      | Some d \<Rightarrow> Ok (t\<lparr>tm_fields := (tm_fields t)\<lparr>tf_instrument_date := Some d\<rparr>\<rparr>))"

definition set_clauses :: "(nat \<Rightarrow> u128) \<Rightarrow> (string option \<times> string) list \<Rightarrow> termo_instrument \<Rightarrow> api_error + termo_instrument" where
  "set_clauses ids body t =
     on_copy (termo_set_body (map (\<lambda>(i, h, x). user_added i h x) (zip (map ids [0..<length body]) body)) t)"

definition apply_patch :: "termo_env \<Rightarrow> (nat \<Rightarrow> u128) \<Rightarrow> termo_patch \<Rightarrow> termo_instrument \<Rightarrow> api_error + termo_instrument" where
  "apply_patch env ids p t =
     (let n = (case pt_body p of Some b \<Rightarrow> length b | None \<Rightarrow> 0) in
      patch_part (pt_completion_policy p) (\<lambda>x t. on_copy (set_completion_policy x t))
     (patch_part (pt_signatories p) (replace_signatory_slots (\<lambda>i. ids (n + i)))
     (patch_part (pt_entity_seat p) (set_field (\<lambda>v. tf_entity_seat_update (\<lambda>_. non_empty v)))
     (patch_part (pt_predecessor_note p) (set_field (\<lambda>v. tf_predecessor_note_update (\<lambda>_. non_empty v)))
     (patch_part (pt_date p) (set_date env)
     (patch_part (pt_purpose p) (set_field (\<lambda>v. tf_purpose_update (\<lambda>_. non_empty v)))
     (patch_part (pt_page_capacity p) (set_field (\<lambda>v. tf_page_capacity_update (\<lambda>_. Some v)))
     (patch_part (pt_place p) (set_field (\<lambda>v. tf_place_update (\<lambda>_. non_empty v)))
     (patch_part (pt_book_number p) (set_field (\<lambda>v. tf_book_number_update (\<lambda>_. Some v)))
     (patch_part (pt_body p) (set_clauses ids)
     (patch_part (pt_title p) (\<lambda>x t. on_copy (termo_set_title x t)) (Ok t))))))))))))"

definition apply_patch_encerramento :: "termo_env \<Rightarrow> (nat \<Rightarrow> u128) \<Rightarrow> termo_patch \<Rightarrow> termo_instrument \<Rightarrow> api_error + termo_instrument" where
  "apply_patch_encerramento env ids p t =
     (let n = (case pt_body p of Some b \<Rightarrow> length b | None \<Rightarrow> 0) in
      patch_part (pt_completion_policy p) (\<lambda>x t. on_copy (set_completion_policy x t))
     (patch_part (pt_signatories p) (replace_signatory_slots (\<lambda>i. ids (n + i)))
     (patch_part (pt_predecessor_note p) (set_field (\<lambda>v. tf_predecessor_note_update (\<lambda>_. non_empty v)))
     (patch_part (pt_closing_reason p) (set_field (\<lambda>v. tf_closing_reason_update (\<lambda>_. Some v)))
     (patch_part (pt_date p) (set_date env)
     (patch_part (pt_place p) (set_field (\<lambda>v. tf_place_update (\<lambda>_. non_empty v)))
     (patch_part (pt_book_number p) (set_field (\<lambda>v. tf_book_number_update (\<lambda>_. Some v)))
     (patch_part (pt_body p) (set_clauses ids)
     (patch_part (pt_title p) (\<lambda>x t. on_copy (termo_set_title x t)) (Ok t))))))))))"

text \<open>Which permission guards a termo, and which patch applies to it, follows its kind.\<close>

definition termo_permission :: "termo_kind \<Rightarrow> permission" where
  "termo_permission kind = (case kind of Abertura \<Rightarrow> BookOpen | Encerramento \<Rightarrow> BookClose)"

definition patch_termo ::
  "termo_kind \<Rightarrow> termo_env \<Rightarrow> termo_io \<Rightarrow> current_actor \<Rightarrow> u128 \<Rightarrow> termo_patch \<Rightarrow> termo_server
     \<Rightarrow> (api_error, unit, termo_server) call" where
  "patch_termo kind env io actor book_id p st =
     attempt (require_book io actor (termo_permission kind) book_id st) st (\<lambda>_.
     attempt (load_book_termo kind io book_id st) st (\<lambda>t.
     if \<not> termo_is_mutable t then (Err Conflict, st)
     else attempt (case kind of Abertura \<Rightarrow> apply_patch env (ti_ids io) p t
                    | Encerramento \<Rightarrow> apply_patch_encerramento env (ti_ids io) p t) st (\<lambda>t'.
     respond io (commit_termo env io t' None [] st))))"

definition patch_abertura where "patch_abertura = patch_termo Abertura"

definition patch_encerramento where "patch_encerramento = patch_termo Encerramento"

subsection \<open>Freezing\<close>

text \<open>The stale clauses of \<open>ensure_seed_matches_pinned_template\<close>: unedited seed text the template lacks.\<close>

definition ensure_seed_matches_pinned_template :: "termo_env \<Rightarrow> termo_instrument \<Rightarrow> string \<Rightarrow> api_error + unit" where
  "ensure_seed_matches_pinned_template env t template_id =
     (case te_default_body env template_id of
        None \<Rightarrow> Ok ()
      | Some seeded \<Rightarrow>
          if \<exists>c \<in> set (tm_body t). tc_origin c = TemplateDefault \<and> (tc_heading c, tc_text c) \<notin> set seeded
          then Err Unprocessable else Ok ())"

definition generate_termo_snapshot ::
  "termo_env \<Rightarrow> termo_instrument \<Rightarrow> book \<Rightarrow> entity \<Rightarrow> numbering_scheme \<Rightarrow> string \<Rightarrow> api_error + document option" where
  "generate_termo_snapshot env t b ent scheme layout =
     (case project_abertura (ent_name ent) (nipc_value (ent_nipc ent)) (ent_seat ent) scheme t of
        Inl _ \<Rightarrow> Err Unprocessable
      | Inr projected \<Rightarrow> te_generate_for_termo env projected b ent (tm_template_id t) layout)"

definition generate_encerramento_with_layout ::
  "termo_env \<Rightarrow> termo_instrument \<Rightarrow> book \<Rightarrow> entity \<Rightarrow> u64 \<Rightarrow> u32 option \<Rightarrow> string \<Rightarrow> api_error + document option" where
  "generate_encerramento_with_layout env t b ent ata_count pages layout =
     (case project_encerramento ata_count pages t of
        Inl _ \<Rightarrow> Err Unprocessable
      | Inr projected \<Rightarrow> te_generate_encerramento env t projected b ent layout)"

definition generate_encerramento_snapshot ::
  "termo_env \<Rightarrow> termo_instrument \<Rightarrow> book \<Rightarrow> entity \<Rightarrow> u64 \<Rightarrow> u32 option \<Rightarrow> string \<Rightarrow> api_error + document option" where
  "generate_encerramento_snapshot env t b ent ata_count pages instance_layout =
     (case te_encerramento_layout env t b ent instance_layout of
        Inl e \<Rightarrow> Err e
      | Inr None \<Rightarrow> Ok None
      | Inr (Some layout) \<Rightarrow> generate_encerramento_with_layout env t b ent ata_count pages layout)"

definition termo_numbering :: "termo_instrument \<Rightarrow> numbering_scheme" where
  "termo_numbering t = (case tm_numbering_scheme t of Some s \<Rightarrow> s | None \<Rightarrow> Sequential)"

definition pages_at_close :: "book \<Rightarrow> u32 option" where
  "pages_at_close b = (if has_page_capacity b then Some (bk_pages_used b) else None)"

text \<open>The book in the state the handler asks for, with its entity.\<close>

definition book_and_entity :: "book_state \<Rightarrow> u128 \<Rightarrow> termo_server \<Rightarrow> api_error + book \<times> entity" where
  "book_and_entity state book_id st =
     (case sv_books st book_id of
        None \<Rightarrow> Err NotFound
      | Some b \<Rightarrow>
          if bk_state b \<noteq> state then Err Conflict
          else ok_or NotFound (map_option (\<lambda>ent. (b, ent)) (sv_entities st (bk_entity_id b))))"

definition freeze_termo ::
  "termo_env \<Rightarrow> termo_io \<Rightarrow> termo_instrument \<Rightarrow> string \<Rightarrow> api_error + termo_instrument" where
  "freeze_termo env io t template_id =
     (if tf_instrument_date (tm_fields t) = None then Err Unprocessable
      else case ensure_seed_matches_pinned_template env t template_id of
        Inl e \<Rightarrow> Err e
      | Inr _ \<Rightarrow> on_copy (advance_to_signing template_id (ti_now io) t))"

definition advance_abertura ::
  "termo_env \<Rightarrow> termo_io \<Rightarrow> current_actor \<Rightarrow> u128 \<Rightarrow> termo_server \<Rightarrow> (api_error, unit, termo_server) call" where
  "advance_abertura env io actor book_id st =
     attempt (require_book io actor BookOpen book_id st) st (\<lambda>_.
     attempt (refused (ti_confirmation io)) st (\<lambda>_.
     attempt (book_and_entity Created book_id st) st (\<lambda>(b, ent).
     attempt (load_book_termo Abertura io book_id st) st (\<lambda>t.
     attempt (freeze_termo env io t
        (case te_abertura_template env (ent_family ent) of Some i \<Rightarrow> i | None \<Rightarrow> ''csc-termo-abertura/v1'')) st (\<lambda>t'.
     attempt (generate_termo_snapshot env t' b ent (termo_numbering t') (sv_layout st)) st (\<lambda>snapshot.
     respond io (commit_termo env io t' snapshot [] st)))))))"

definition advance_encerramento ::
  "termo_env \<Rightarrow> termo_io \<Rightarrow> current_actor \<Rightarrow> u128 \<Rightarrow> termo_server \<Rightarrow> (api_error, unit, termo_server) call" where
  "advance_encerramento env io actor book_id st =
     attempt (require_book io actor BookClose book_id st) st (\<lambda>_.
     attempt (refused (ti_confirmation io)) st (\<lambda>_.
     attempt (book_and_entity Open book_id st) st (\<lambda>(b, ent).
     attempt (load_book_termo Encerramento io book_id st) st (\<lambda>t.
     attempt (freeze_termo env io t
        (case te_encerramento_template env (ent_family ent) of Some i \<Rightarrow> i | None \<Rightarrow> ''csc-termo-encerramento/v1'')) st (\<lambda>t'.
     attempt (generate_encerramento_snapshot env t' b ent (bk_last_ata_number b) (pages_at_close b) (sv_layout st)) st (\<lambda>snapshot.
     respond io (commit_termo env io t' snapshot [] st)))))))"

subsection \<open>Collecting signatures\<close>

definition sign_termo ::
  "termo_kind \<Rightarrow> termo_env \<Rightarrow> termo_io \<Rightarrow> current_actor \<Rightarrow> u128 \<Rightarrow> u128 \<Rightarrow> u128 option \<Rightarrow> termo_server
     \<Rightarrow> (api_error, unit, termo_server) call" where
  "sign_termo kind env io actor book_id slot_id signature_id st =
     attempt (require_book io actor (termo_permission kind) book_id st) st (\<lambda>_.
     attempt (load_book_termo kind io book_id st) st (\<lambda>t.
     attempt (on_copy (mark_slot_signed slot_id signature_id (ti_now io) t)) st (\<lambda>t'.
     respond io (commit_termo env io t' None [] st))))"

definition sign_abertura where "sign_abertura = sign_termo Abertura"

definition sign_encerramento where "sign_encerramento = sign_termo Encerramento"

text \<open>The subject a termo's snapshot and signatures are stored under: the book's id for the abertura,
  the instrument's own for the encerramento.\<close>

definition termo_subject :: "u128 \<Rightarrow> termo_instrument \<Rightarrow> u128" where
  "termo_subject book_id t = (case tm_kind t of Abertura \<Rightarrow> book_id | Encerramento \<Rightarrow> tm_id t)"

text \<open>
  \<open>sign_termo_slot_pkcs12\<close>. What happens between the fixity check of the snapshot and the
  recording, all of it on the uploaded certificate and the snapshot's bytes, is the outcome
  \<open>ti_signing\<close>; the identifier of the signature is the first fresh one.
\<close>

definition sign_termo_slot_pkcs12 ::
  "termo_env \<Rightarrow> termo_io \<Rightarrow> u128 \<Rightarrow> termo_instrument \<Rightarrow> u128 \<Rightarrow> termo_server \<Rightarrow> (api_error, unit, termo_server) call" where
  "sign_termo_slot_pkcs12 env io subject t slot_id st =
     (if tm_state t \<noteq> Signing then (Err Conflict, st)
      else
     attempt (on_copy (mark_slot_signed slot_id None (ti_now io) t)) st (\<lambda>_.
     attempt (load_document io subject st) st (\<lambda>snapshot.
     attempt (ok_or Conflict snapshot) st (\<lambda>doc.
     if hex_bytes (digest_of (te_ledger env) (dc_pdf_bytes doc)) \<noteq> dc_pdf_digest doc then (Err Conflict, st)
     else
     attempt (ti_signing io) st (\<lambda>signed.
     attempt (on_copy (mark_slot_signed slot_id (Some (ti_ids io 0)) (ti_now io) t)) st (\<lambda>t'.
     respond io (commit_termo env io t' None
       [\<lparr>sg_subject = subject, sg_slot_id = Some (te_uuid env slot_id), sg_document = signed\<rparr>] st)))))))"

definition sign_termo_pkcs12 ::
  "termo_kind \<Rightarrow> termo_env \<Rightarrow> termo_io \<Rightarrow> current_actor \<Rightarrow> u128 \<Rightarrow> u128 \<Rightarrow> termo_server \<Rightarrow> (api_error, unit, termo_server) call" where
  "sign_termo_pkcs12 kind env io actor book_id slot_id st =
     attempt (require_book io actor (termo_permission kind) book_id st) st (\<lambda>_.
     attempt (require_book io actor SigningPerform book_id st) st (\<lambda>_.
     if \<not> sv_local_signing st then (Err Conflict, st)
     else attempt (load_book_termo kind io book_id st) st (\<lambda>t.
     sign_termo_slot_pkcs12 env io (termo_subject book_id t) t slot_id st)))"

definition sign_abertura_pkcs12 where "sign_abertura_pkcs12 = sign_termo_pkcs12 Abertura"

definition sign_encerramento_pkcs12 where "sign_encerramento_pkcs12 = sign_termo_pkcs12 Encerramento"

subsection \<open>Opening and closing\<close>

text \<open>
  \<open>require_real_signatures\<close>: every required slot has a row in the signature history of the subject.
  When no row names a slot, the number of rows stands for them.
\<close>

definition covered_slots :: "termo_env \<Rightarrow> instrument_signature list \<Rightarrow> u128 list \<Rightarrow> nat" where
  "covered_slots env real required =
     (if list_all (\<lambda>g. sg_slot_id g = None) real then length real
      else length (filter (\<lambda>i. list_ex (\<lambda>g. sg_slot_id g = Some (te_uuid env i)) real) required))"

definition require_real_signatures ::
  "termo_env \<Rightarrow> termo_io \<Rightarrow> u128 \<Rightarrow> termo_instrument \<Rightarrow> termo_server \<Rightarrow> api_error + unit" where
  "require_real_signatures env io subject t st =
     (case instrument_signatures_for_subject io subject st of
        Inl e \<Rightarrow> Err e
      | Inr real \<Rightarrow>
          (let required = map sl_id (required_slots t) in
           if covered_slots env real required < length required then Err Conflict else Ok ()))"

definition generated_scope :: "termo_env \<Rightarrow> book \<Rightarrow> string" where
  "generated_scope env b = ''entity:'' @ te_uuid env (bk_entity_id b) @ ''/book:'' @ te_uuid env (bk_id b)"

text \<open>
  The tail of both handlers, from the appended book event on: without signature rows one event is
  committed; with them the snapshot must be there, the manifest of the co-signatures is appended as
  a second event, and every failure takes the appended events back.
\<close>

definition commit_book ::
  "termo_env \<Rightarrow> termo_io \<Rightarrow> string \<Rightarrow> string \<Rightarrow> u128 \<Rightarrow> u128 \<Rightarrow> book \<Rightarrow> termo_instrument
     \<Rightarrow> instrument_signature list \<Rightarrow> document option \<Rightarrow> ledger \<Rightarrow> termo_server \<Rightarrow> (api_error, unit, termo_server) call" where
  "commit_book env io kind actor subject book_id b t signatures snapshot l st =
     (let committed = (\<lambda>l. st\<lparr>sv_ledger := l, sv_books := (sv_books st)(book_id \<mapsto> b),
            sv_termos := upsert_termo env t (sv_termos st)\<rparr>) in
      if signatures = [] then
        (case persist_write_through (te_ledger env) (ti_write io) 1 l of
           (Inl e, l') \<Rightarrow> (Err e, st\<lparr>sv_ledger := l'\<rparr>)
         | (Inr _, l') \<Rightarrow> (Ok (), committed l'))
      else case snapshot of
        None \<Rightarrow> (Err Internal, st\<lparr>sv_ledger := rollback_ledger_events (te_ledger env) 1 l\<rparr>)
      | Some doc \<Rightarrow>
          (case te_manifest_json env kind subject doc signatures of
             None \<Rightarrow> (Err Internal, st\<lparr>sv_ledger := rollback_ledger_events (te_ledger env) 1 l\<rparr>)
           | Some payload \<Rightarrow>
               (case try_append (te_ledger env) l (snd (ti_event_ids io)) (ti_now io) actor (generated_scope env b)
                       ''document.generated'' None payload of
                  (Inl _, l') \<Rightarrow> (Err Conflict, st\<lparr>sv_ledger := rollback_ledger_events (te_ledger env) 1 l'\<rparr>)
                | (Inr _, l') \<Rightarrow>
                    (case persist_write_through (te_ledger env) (ti_write io) 2 l' of
                       (Inl e, l'') \<Rightarrow> (Err e, st\<lparr>sv_ledger := l''\<rparr>)
                     | (Inr _, l'') \<Rightarrow>
                         (Ok (), (committed l'')\<lparr>sv_documents := upsert_document (Some doc) (sv_documents st)\<rparr>)))))"

definition open_from_termo ::
  "termo_env \<Rightarrow> termo_io \<Rightarrow> current_actor \<Rightarrow> u128 \<Rightarrow> string \<Rightarrow> numbering_scheme option \<Rightarrow> termo_server
     \<Rightarrow> (api_error, unit, termo_server) call" where
  "open_from_termo env io actor book_id req_actor req_scheme st =
     attempt (require_book io actor BookOpen book_id st) st (\<lambda>_.
     attempt (refused (ti_confirmation io)) st (\<lambda>_.
     attempt (load_book_termo Abertura io book_id st) st (\<lambda>t.
     attempt (require_real_signatures env io book_id t st) st (\<lambda>_.
     if (case req_scheme of Some s \<Rightarrow> s \<noteq> termo_numbering t | None \<Rightarrow> False) then (Err Unprocessable, st)
     else
     attempt (instrument_signatures_for_subject io book_id st) st (\<lambda>signatures.
     attempt (load_document io book_id st) st (\<lambda>snapshot.
     attempt (on_copy (termo_seal (ti_now io) t)) st (\<lambda>t'.
     attempt (book_and_entity Created book_id st) st (\<lambda>(b, ent).
     attempt (map_err map_termo_error
        (project_abertura (ent_name ent) (nipc_value (ent_nipc ent)) (ent_seat ent) (termo_numbering t) t')) st (\<lambda>projected.
     case open_and_seal_book (te_seal env) b (sv_ledger st) ent projected (actor_resolve actor req_actor)
            (fst (ti_event_ids io)) (ti_now io) of
       (Inl e, (_, l)) \<Rightarrow> (Err (seal_api_error e), st\<lparr>sv_ledger := l\<rparr>)
     | (Inr _, (next_book, l)) \<Rightarrow>
         commit_book env io ''termo.abertura.cosignatures'' (actor_resolve actor req_actor) book_id book_id
           next_book t' signatures snapshot l st)))))))))"

text \<open>The snapshot-mismatch guard of the close: what the current facts render to is what was signed.\<close>

definition snapshot_matches ::
  "termo_env \<Rightarrow> termo_instrument \<Rightarrow> book \<Rightarrow> entity \<Rightarrow> document option \<Rightarrow> string option \<Rightarrow> api_error + unit" where
  "snapshot_matches env t b ent snapshot layout =
     (case (snapshot, layout) of
        (Some doc, Some lay) \<Rightarrow>
          (case generate_encerramento_with_layout env t b ent (bk_last_ata_number b) (pages_at_close b) lay of
             Inl e \<Rightarrow> Err e
           | Inr None \<Rightarrow> Ok ()
           | Inr (Some rederived) \<Rightarrow> if dc_pdf_digest rederived \<noteq> dc_pdf_digest doc then Err Conflict else Ok ())
      | _ \<Rightarrow> Ok ())"

definition close_from_termo ::
  "termo_env \<Rightarrow> termo_io \<Rightarrow> current_actor \<Rightarrow> u128 \<Rightarrow> string \<Rightarrow> termo_server \<Rightarrow> (api_error, unit, termo_server) call" where
  "close_from_termo env io actor book_id req_actor st =
     attempt (require_book io actor BookClose book_id st) st (\<lambda>_.
     attempt (refused (ti_confirmation io)) st (\<lambda>_.
     attempt (load_book_termo Encerramento io book_id st) st (\<lambda>t.
     attempt (require_real_signatures env io (tm_id t) t st) st (\<lambda>_.
     attempt (instrument_signatures_for_subject io (tm_id t) st) st (\<lambda>signatures.
     attempt (load_document io (tm_id t) st) st (\<lambda>snapshot.
     attempt (case snapshot of
          None \<Rightarrow> Ok None
        | Some doc \<Rightarrow> (case te_pinned_layout env doc of Inl e \<Rightarrow> Err e | Inr lay \<Rightarrow> Ok (Some lay))) st (\<lambda>layout.
     attempt (on_copy (termo_seal (ti_now io) t)) st (\<lambda>t'.
     attempt (book_and_entity Open book_id st) st (\<lambda>(b, ent).
     attempt (snapshot_matches env t' b ent snapshot layout) st (\<lambda>_.
     attempt (map_err map_termo_error (project_encerramento (bk_last_ata_number b) (pages_at_close b) t')) st (\<lambda>projected.
     case close_book projected b of
       (Inl _, _) \<Rightarrow> (Err Conflict, st)
     | (Inr _, next_book) \<Rightarrow>
         attempt (ok_or Internal (Option.bind (bk_termo_encerramento next_book) (te_encerramento_json env))) st (\<lambda>payload.
         case try_append (te_ledger env) (sv_ledger st) (fst (ti_event_ids io)) (ti_now io) (actor_resolve actor req_actor)
                (generated_scope env next_book) ''book.closed'' None payload of
           (Inl _, l) \<Rightarrow> (Err Conflict, st\<lparr>sv_ledger := l\<rparr>)
         | (Inr _, l) \<Rightarrow>
             commit_book env io ''termo.encerramento.cosignatures'' (actor_resolve actor req_actor) (tm_id t) book_id
               next_book t' signatures snapshot l st))))))))))))"

section \<open>Correctness of the handlers\<close>

datatype termo_request =
    PatchTermo termo_kind termo_io current_actor u128 termo_patch
  | AdvanceAbertura termo_io current_actor u128
  | AdvanceEncerramento termo_io current_actor u128
  | SignTermo termo_kind termo_io current_actor u128 u128 "u128 option"
  | SignTermoPkcs12 termo_kind termo_io current_actor u128 u128
  | OpenFromTermo termo_io current_actor u128 string "numbering_scheme option"
  | CloseFromTermo termo_io current_actor u128 string

fun termo_serve :: "termo_env \<Rightarrow> termo_request \<Rightarrow> termo_server \<Rightarrow> (api_error, unit, termo_server) call" where
  "termo_serve env (PatchTermo kind io actor book_id p) st = patch_termo kind env io actor book_id p st"
| "termo_serve env (AdvanceAbertura io actor book_id) st = advance_abertura env io actor book_id st"
| "termo_serve env (AdvanceEncerramento io actor book_id) st = advance_encerramento env io actor book_id st"
| "termo_serve env (SignTermo kind io actor book_id slot sig) st = sign_termo kind env io actor book_id slot sig st"
| "termo_serve env (SignTermoPkcs12 kind io actor book_id slot) st = sign_termo_pkcs12 kind env io actor book_id slot st"
| "termo_serve env (OpenFromTermo io actor book_id who scheme) st = open_from_termo env io actor book_id who scheme st"
| "termo_serve env (CloseFromTermo io actor book_id who) st = close_from_termo env io actor book_id who st"

text \<open>The environment's outcomes of a request, and the request with a response that can be built.\<close>

fun request_io :: "termo_request \<Rightarrow> termo_io" where
  "request_io (PatchTermo kind io actor book_id p) = io"
| "request_io (AdvanceAbertura io actor book_id) = io"
| "request_io (AdvanceEncerramento io actor book_id) = io"
| "request_io (SignTermo kind io actor book_id slot sig) = io"
| "request_io (SignTermoPkcs12 kind io actor book_id slot) = io"
| "request_io (OpenFromTermo io actor book_id who scheme) = io"
| "request_io (CloseFromTermo io actor book_id who) = io"

definition serve_viewed :: "termo_env \<Rightarrow> termo_request \<Rightarrow> termo_server \<Rightarrow> (api_error, unit, termo_server) call" where
  "serve_viewed env req st = (if ti_view (request_io req) = None then termo_serve env req st else (Ok (), st))"

lemma respond_viewed: "ti_view io = None \<Longrightarrow> respond io c = c"
  by (auto simp: respond_def split: prod.split sum.split)

lemma snd_respond [simp]: "snd (respond io c) = snd c"
  by (auto simp: respond_def split: prod.split sum.split option.split)

subsection \<open>A failed request leaves no trace\<close>

lemma commit_termo_keeps: "failure_keeps (commit_termo env io t doc rows st) st"
  by (auto simp: commit_termo_def write_through_none failure_keeps_def split: sum.split)

text \<open>The ledger that a committing tail is handed: the one of the server and one more event.\<close>

lemma ledger_extended:
  assumes "l = \<lparr>events = events (sv_ledger st) @ [e]\<rparr>"
  shows "st\<lparr>sv_ledger := rollback_ledger_events env (Suc 0) l\<rparr> = st"
proof -
  have "\<lparr>events = events (sv_ledger st)\<rparr> = sv_ledger st" by (cases "sv_ledger st") simp
  then show ?thesis by (simp add: assms rollback_one)
qed

lemma try_append_cases:
  obtains (refused) err where "try_append env l i now a s k j p = (Err err, l)"
  | (appended) e where "try_append env l i now a s k j p = (Ok e, \<lparr>events = events l @ [e]\<rparr>)"
      "append_at env l i a s k j p now = (e, \<lparr>events = events l @ [e]\<rparr>)"
proof (cases "try_append_rejection env l s k")
  case None
  obtain e l' where app: "append_at env l i a s k j p now = (e, l')" by fastforce
  then have "l' = \<lparr>events = events l @ [e]\<rparr>" by (rule append_at_event(1))
  with None app show thesis using appended by (simp add: try_append_def)
next
  case (Some err)
  then show thesis using refused by (simp add: try_append_def)
qed

lemma same_ledger [simp]: "st\<lparr>sv_ledger := \<lparr>events = events (sv_ledger st)\<rparr>\<rparr> = st"
  by (cases "sv_ledger st") (metis ledger.surjective old.unit.exhaust termo_server.surjective termo_server.update_convs(9))

lemma commit_book_keeps:
  assumes "l = \<lparr>events = events (sv_ledger st) @ [e]\<rparr>"
  shows "failure_keeps (commit_book env io kind who subject book_id b t sigs snapshot l st) st"
proof -
  have rb: "st\<lparr>sv_ledger := rollback_ledger_events (te_ledger env) (Suc 0) l\<rparr> = st"
    using assms by (rule ledger_extended)
  show ?thesis
  proof (cases "sigs = []")
    case True
    then show ?thesis
      by (auto simp: commit_book_def failure_keeps_def assms write_through_one Let_def split: option.split)
  next
    case False
    show ?thesis
    proof (cases snapshot)
      case None
      with False rb show ?thesis by (simp add: commit_book_def failure_keeps_def)
    next
      case (Some doc)
      show ?thesis
      proof (cases "te_manifest_json env kind subject doc sigs")
        case None
        with False Some rb show ?thesis by (simp add: commit_book_def failure_keeps_def)
      next
        case manifest: (Some payload)
        show ?thesis
        proof (cases rule: try_append_cases [of "te_ledger env" l "snd (ti_event_ids io)" "ti_now io" who
              "generated_scope env b" "''document.generated''" None payload])
          case (refused err)
          with False Some manifest rb show ?thesis by (simp add: commit_book_def failure_keeps_def)
        next
          case (appended e2)
          with False Some manifest show ?thesis
            by (auto simp: commit_book_def failure_keeps_def assms write_through_two split: option.split)
        qed
      qed
    qed
  qed
qed

lemma open_and_seal_cases:
  obtains (failed) err b' where "open_and_seal_book env b l ent termo who i now = (Err err, (b', l))"
  | (opened) payload e b' where
      "open_and_seal_book env b l ent termo who i now = (Ok (ev_seq e), (b', \<lparr>events = events l @ [e]\<rparr>))"
      "open_book termo b = (Ok (), b')" "serialize_termo env termo = Ok payload"
      "ev_kind e = ''book.opened''" "ev_payload_digest e = digest_of (led_env env) payload"
proof (cases "open_book termo b")
  case (Pair r b')
  show thesis
  proof (cases r)
    case (Inl err)
    with Pair show thesis using failed by (simp add: open_and_seal_book_def)
  next
    case (Inr u)
    show thesis
    proof (cases "serialize_termo env termo")
      case err: (Inl msg)
      with Pair Inr show thesis using failed by (simp add: open_and_seal_book_def)
    next
      case ok: (Inr payload)
      define s where "s = (if ent_tenant_id ent = DEFAULT_TENANT_ID then book_scope env ent b'
          else ''tenant:'' @ uuid_text env (ent_tenant_id ent) @ ''/'' @ book_scope env ent b')"
      obtain e l' where app: "append_at (led_env env) l i who s ''book.opened'' None payload now = (e, l')" by fastforce
      have "open_and_seal_book env b l ent termo who i now = (Ok (ev_seq e), (b', l'))"
        using Pair Inr ok app by (simp add: open_and_seal_book_def append_event_def s_def Let_def)
      then show thesis using opened append_at_event [OF app] Pair Inr ok by simp
    qed
  qed
qed

lemmas handler_keeps = failure_keeps_attempt failure_keeps_intros commit_termo_keeps commit_book_keeps

lemma open_from_termo_keeps: "failure_keeps (open_from_termo env io actor book_id who scheme st) st"
proof -
  have tail: "failure_keeps (case open_and_seal_book (te_seal env) b (sv_ledger st) ent p a i now of
       (Inl e, (_, l)) \<Rightarrow> (Err (seal_api_error e), st\<lparr>sv_ledger := l\<rparr>)
     | (Inr _, (next_book, l)) \<Rightarrow> commit_book env io k a book_id book_id next_book t' sigs snap l st) st"
    for b ent p a i now t' sigs snap k
  proof (cases rule: open_and_seal_cases [of "te_seal env" b "sv_ledger st" ent p a i now])
    case (failed err b')
    then show ?thesis by (simp add: failure_keeps_def)
  next
    case (opened payload e b')
    then show ?thesis by (simp add: commit_book_keeps [OF refl])
  qed
  show ?thesis
    unfolding open_from_termo_def by (auto intro!: handler_keeps tail split: prod.split)
qed

lemma close_from_termo_keeps: "failure_keeps (close_from_termo env io actor book_id who st) st"
proof -
  have tail: "failure_keeps (case try_append (te_ledger env) (sv_ledger st) i now a s k j p of
           (Inl _, l) \<Rightarrow> (Err Conflict, st\<lparr>sv_ledger := l\<rparr>)
         | (Inr _, l) \<Rightarrow> commit_book env io kind a subject book_id b t' sigs snap l st) st"
    for i now a s k j p kind subject b t' sigs snap
  proof (cases rule: try_append_cases [of "te_ledger env" "sv_ledger st" i now a s k j p])
    case (refused err)
    then show ?thesis by (simp add: failure_keeps_def)
  next
    case (appended e)
    then show ?thesis by (simp add: commit_book_keeps [OF refl])
  qed
  show ?thesis
    unfolding close_from_termo_def by (auto intro!: handler_keeps tail split: prod.split sum.split)
qed

lemma termo_serve_keeps:
  assumes "ti_view (request_io req) = None"
  shows "failure_keeps (termo_serve env req st) st"
proof (cases req)
  case (OpenFromTermo io actor book_id who scheme)
  then show ?thesis by (simp add: open_from_termo_keeps)
next
  case (CloseFromTermo io actor book_id who)
  then show ?thesis by (simp add: close_from_termo_keeps)
qed (use assms in \<open>auto intro!: handler_keeps simp: respond_viewed patch_termo_def advance_abertura_def advance_encerramento_def
      sign_termo_def sign_termo_pkcs12_def sign_termo_slot_pkcs12_def split: prod.split\<close>)

interpretation termo_atomic: atomic_machine "serve_viewed env" for env
proof
  fix req and st :: termo_server and e
  assume "fst (serve_viewed env req st) = Inl e"
  then show "snd (serve_viewed env req st) = st"
    using termo_serve_keeps [of req env st] by (auto simp: serve_viewed_def failure_keeps_def split: if_splits)
qed

text \<open>
  C22: a refused request leaves no trace. Whatever the request, and wherever it fails (permission,
  confirmation, validation, signing, a missing snapshot, serialisation, the write to the store),
  a handler that answers with an error has changed nothing: no instrument, book, document or
  signature row, and the events appended on the way are out of the ledger again. The one exception
  is an error in building the response, after the commit.
\<close>

theorem refused_request_leaves_no_trace:
  assumes "fst (termo_serve env req st) = Err e" and "ti_view (request_io req) = None"
  shows "snd (termo_serve env req st) = st"
  using termo_atomic.failed_unchanged [of env req st e] assms by (simp add: serve_viewed_def)

subsection \<open>How a stored instrument evolves\<close>

text \<open>
  One request moves at most one stored instrument: a draft is redrafted, or the instrument takes a
  step of its own state machine. No request adds an instrument, removes one or renames it.
\<close>

definition termo_evolves :: "termo_instrument \<Rightarrow> termo_instrument \<Rightarrow> bool" where
  "termo_evolves t t' \<longleftrightarrow> tm_id t' = tm_id t
     \<and> (tm_state t = Draft \<and> tm_state t' = Draft \<or> (\<exists>op. t' = snd (termo_exec op t)))"

definition replace_termo :: "termo_instrument \<Rightarrow> termo_instrument list \<Rightarrow> termo_instrument list" where
  "replace_termo t ts = map (\<lambda>x. if tm_id x = tm_id t then t else x) ts"

definition termos_evolve :: "termo_instrument list \<Rightarrow> termo_instrument list \<Rightarrow> bool" where
  "termos_evolve ts ts' \<longleftrightarrow> ts' = ts \<or> (\<exists>t \<in> set ts. \<exists>t'. termo_evolves t t' \<and> ts' = replace_termo t' ts)"

lemma upsert_stored: "t \<in> set ts \<Longrightarrow> tm_id t' = tm_id t \<Longrightarrow> upsert_termo env t' ts = replace_termo t' ts"
  by (auto simp: upsert_termo_def replace_termo_def)

lemma load_book_termo_Ok:
  assumes "load_book_termo kind io book_id st = Ok t"
  shows "t \<in> set (sv_termos st)" "tm_book_id t = book_id" "tm_kind t = kind"
  using assms by (auto simp: load_book_termo_def ok_or_Ok_iff find_Some_iff split: option.splits)

lemma on_copy_Ok_iff: "on_copy c = Ok t \<longleftrightarrow> c = (Ok (), t)"
  by (auto simp: on_copy_def split: prod.split sum.split)

lemma termo_exec_id: "tm_id (snd (termo_exec op t)) = tm_id t"
proof (cases op)
  case (MarkSlotSigned i sig now)
  then show ?thesis by (cases rule: mark_slot_signed_cases [of i sig now t]) simp_all
qed (auto simp: draft_edits advance_to_signing_def withdraw_to_draft_def termo_seal_def Let_def split: sum.split)

lemma evolves_exec: "termo_exec op t = (r, t') \<Longrightarrow> termo_evolves t t'"
  using termo_exec_id [of op t] by (auto simp: termo_evolves_def intro: exI [of _ op])

text \<open>A patch of a draft leaves a draft with the same identity.\<close>

definition redrafted :: "termo_instrument \<Rightarrow> termo_instrument \<Rightarrow> bool" where
  "redrafted t t' \<longleftrightarrow> tm_id t' = tm_id t \<and> tm_state t' = tm_state t"

lemma redrafted_patch_part:
  assumes "patch_part field f r = Ok t'"
    and "\<And>t1. r = Ok t1 \<Longrightarrow> redrafted t t1" and "\<And>v t1 t2. f v t1 = Ok t2 \<Longrightarrow> redrafted t1 t2"
  shows "redrafted t t'"
  using assms by (fastforce simp: patch_part_def redrafted_def split: sum.splits option.splits)

lemma redrafted_edit:
  "termo_set_title s t = (Ok (), t') \<Longrightarrow> redrafted t t'"
  "termo_set_body b t = (Ok (), t') \<Longrightarrow> redrafted t t'"
  "termo_add_signatory slot t = (Ok (), t') \<Longrightarrow> redrafted t t'"
  "set_completion_policy p t = (Ok (), t') \<Longrightarrow> redrafted t t'"
  by (auto simp: draft_edits redrafted_def Let_def split: sum.splits if_splits)

lemma redrafted_slots: "try_fold add_input t slots = Ok t' \<Longrightarrow> redrafted t t'"
proof (induction slots arbitrary: t)
  case (Cons s slots)
  then obtain t1 where t1: "add_input t s = Ok t1" "try_fold add_input t1 slots = Ok t'"
    by (auto split: sum.splits)
  then have "redrafted t t1"
    by (cases s) (auto simp: add_input_def on_copy_Ok_iff intro: redrafted_edit(3))
  with Cons.IH [OF t1(2)] show ?case by (simp add: redrafted_def)
qed (simp add: redrafted_def)

lemma redrafted_part:
  "set_field upd v t = Ok t' \<Longrightarrow> redrafted t t'" "set_date env raw t = Ok t' \<Longrightarrow> redrafted t t'"
  "set_clauses ids body t = Ok t' \<Longrightarrow> redrafted t t'"
  "replace_signatory_slots ids' slots t = Ok t' \<Longrightarrow> redrafted t t'"
  "on_copy (termo_set_title s t) = Ok t' \<Longrightarrow> redrafted t t'"
  "on_copy (set_completion_policy p t) = Ok t' \<Longrightarrow> redrafted t t'"
  using redrafted_slots [of "t\<lparr>tm_signatories := []\<rparr>" _ t']
  by (auto simp: set_field_def set_date_def set_clauses_def replace_signatory_slots_def on_copy_Ok_iff
      redrafted_edit redrafted_def dest: redrafted_edit [unfolded redrafted_def] split: option.splits)

lemma redrafted_refl: "Ok t = Ok t1 \<Longrightarrow> redrafted t t1"
  by (simp add: redrafted_def)

lemma redrafted_apply_patch: "apply_patch env ids p t = Ok t' \<Longrightarrow> redrafted t t'"
  unfolding apply_patch_def Let_def
  by (erule redrafted_patch_part redrafted_part redrafted_refl)+

lemma redrafted_apply_patch_encerramento: "apply_patch_encerramento env ids p t = Ok t' \<Longrightarrow> redrafted t t'"
  unfolding apply_patch_encerramento_def Let_def
  by (erule redrafted_patch_part redrafted_part redrafted_refl)+

lemma commit_termo_evolves:
  assumes "t \<in> set (sv_termos st)" and "termo_evolves t t'"
  shows "termos_evolve (sv_termos st) (sv_termos (snd (commit_termo env io t' doc rows st)))"
  using assms upsert_stored [of t "sv_termos st" t']
  by (auto simp: commit_termo_def termos_evolve_def termo_evolves_def split: prod.split sum.split)

lemma commit_book_evolves:
  assumes "t \<in> set (sv_termos st)" and "termo_evolves t t'"
  shows "termos_evolve (sv_termos st)
    (sv_termos (snd (commit_book env io kind who subject book_id b t' sigs snapshot l st)))"
  using assms upsert_stored [of t "sv_termos st" t']
  by (auto simp: commit_book_def termos_evolve_def termo_evolves_def Let_def
      split: prod.split sum.split option.split)

text \<open>The handlers, guard by guard.\<close>

definition moves_termos :: "termo_server \<Rightarrow> (api_error, unit, termo_server) call \<Rightarrow> bool" where
  "moves_termos st c \<longleftrightarrow> termos_evolve (sv_termos st) (sv_termos (snd c))"

lemma moves_termos_attempt:
  "(\<And>a. r = Ok a \<Longrightarrow> moves_termos st (k a)) \<Longrightarrow> moves_termos st (attempt r st k)"
  by (cases r) (simp_all add: moves_termos_def termos_evolve_def)

lemma moves_termos_stop: "moves_termos st (Err e, st)" "moves_termos st (Err e, st\<lparr>sv_ledger := l\<rparr>)"
  by (simp_all add: moves_termos_def termos_evolve_def)

lemma moves_termos_commit:
  assumes "load_book_termo kind io book_id st = Ok t" and "termo_evolves t t'"
  shows "moves_termos st (commit_termo env io' t' doc rows st)"
    and "moves_termos st (commit_book env io' k who subject book_id' b t' sigs snapshot l st)"
  using commit_termo_evolves [OF load_book_termo_Ok(1) [OF assms(1)] assms(2)]
    commit_book_evolves [OF load_book_termo_Ok(1) [OF assms(1)] assms(2)]
  by (simp_all add: moves_termos_def)

lemma moves_termos_respond: "moves_termos st c \<Longrightarrow> moves_termos st (respond io c)"
  by (simp add: moves_termos_def)

lemmas moves_termos_intros = moves_termos_attempt moves_termos_stop moves_termos_respond moves_termos_commit

lemma evolves_on_copy:
  "on_copy (mark_slot_signed i sig now t) = Ok t' \<Longrightarrow> termo_evolves t t'"
  "on_copy (termo_seal now t) = Ok t' \<Longrightarrow> termo_evolves t t'"
  "freeze_termo env io t template = Ok t' \<Longrightarrow> termo_evolves t t'"
  using evolves_exec [of "MarkSlotSigned i sig now" t] evolves_exec [of "SealTermo now" t]
    evolves_exec [of "AdvanceToSigning template (ti_now io)" t]
  by (auto simp: on_copy_Ok_iff freeze_termo_def split: if_splits sum.splits)

lemma evolves_patch:
  assumes "termo_is_mutable t"
    and "(case kind of Abertura \<Rightarrow> apply_patch env ids p t | Encerramento \<Rightarrow> apply_patch_encerramento env ids p t) = Ok t'"
  shows "termo_evolves t t'"
proof -
  have "redrafted t t'"
    using assms(2) by (cases kind) (auto intro: redrafted_apply_patch redrafted_apply_patch_encerramento)
  with assms(1) show ?thesis by (simp add: redrafted_def termo_evolves_def termo_is_mutable_def)
qed

lemma termo_serve_moves: "moves_termos st (termo_serve env req st)"
proof (cases req)
  case (PatchTermo kind io actor book_id p)
  then show ?thesis by (auto intro!: moves_termos_intros evolves_patch simp: patch_termo_def)
next
  case (AdvanceAbertura io actor book_id)
  then show ?thesis
    by (auto intro!: moves_termos_intros intro: evolves_on_copy simp: advance_abertura_def split: prod.split)
next
  case (AdvanceEncerramento io actor book_id)
  then show ?thesis
    by (auto intro!: moves_termos_intros intro: evolves_on_copy simp: advance_encerramento_def split: prod.split)
next
  case (SignTermo kind io actor book_id slot sig)
  then show ?thesis by (auto intro!: moves_termos_intros intro: evolves_on_copy simp: sign_termo_def)
next
  case (SignTermoPkcs12 kind io actor book_id slot)
  then show ?thesis
    by (auto intro!: moves_termos_intros simp: sign_termo_pkcs12_def sign_termo_slot_pkcs12_def)
      (assumption, erule evolves_on_copy)
next
  case (OpenFromTermo io actor book_id who scheme)
  then show ?thesis
    by (auto intro!: moves_termos_intros simp: open_from_termo_def split: prod.split sum.split)
      (assumption, erule evolves_on_copy)
next
  case (CloseFromTermo io actor book_id who)
  then show ?thesis
    by (auto intro!: moves_termos_intros simp: close_from_termo_def split: prod.split sum.split)
      (assumption, erule evolves_on_copy)
qed

text \<open>The invariant of the stored instruments, and the signed ones among them.\<close>

definition termos_ok :: "termo_server \<Rightarrow> bool" where
  "termos_ok st \<longleftrightarrow> distinct (map tm_id (sv_termos st)) \<and> (\<forall>t \<in> set (sv_termos st). termo_inv t)"

lemma evolves_inv: "termo_evolves t t' \<Longrightarrow> termo_inv t \<Longrightarrow> termo_inv t'"
  using termo_machine.exec_inv by (auto simp: termo_evolves_def termo_inv_def)

lemma evolves_signed:
  assumes "termo_evolves t t'" and "signature_collected t"
  shows "signature_collected t' \<and> termo_content t' = termo_content t"
proof -
  have "tm_state t \<noteq> Draft" using assms(2) by (auto simp: signature_collected_def)
  then obtain op where "t' = snd (termo_exec op t)" using assms(1) by (auto simp: termo_evolves_def)
  then show ?thesis
    using termo_freezing.stays_frozen [OF TrueI assms(2)] termo_freezing.frozen_view [OF TrueI assms(2)] by simp
qed

lemma replace_ids: "map tm_id (replace_termo t ts) = map tm_id ts"
  by (induction ts) (auto simp: replace_termo_def)

interpretation termo_server: machine "termo_serve env" termos_ok for env
proof
  fix st req
  assume ok: "termos_ok st"
  show "termos_ok (snd (termo_serve env req st))"
    using termo_serve_moves [of st env req] ok evolves_inv
    by (auto simp: moves_termos_def termos_evolve_def termos_ok_def replace_ids) (auto simp: replace_termo_def)
qed

text \<open>What is fixed about one stored instrument once it carries a signature.\<close>

definition signed_content :: "u128 \<Rightarrow> termo_server \<Rightarrow> termo_instrument option" where
  "signed_content i st =
     map_option termo_content (find (\<lambda>t. tm_id t = i \<and> signature_collected t) (sv_termos st))"

lemma find_replace:
  assumes "distinct (map tm_id ts)" and "t \<in> set ts" and "tm_id t' = tm_id t"
  shows "find (\<lambda>x. tm_id x = i \<and> P x) (replace_termo t' ts) =
    (if i = tm_id t then if P t' then Some t' else None else find (\<lambda>x. tm_id x = i \<and> P x) ts)"
  using assms
proof (induction ts)
  case (Cons x ts)
  have "find (\<lambda>x. tm_id x = i \<and> P x) (replace_termo t' ts) = find (\<lambda>x. tm_id x = i \<and> P x) ts"
    if "tm_id t \<notin> tm_id ` set ts"
  proof -
    have "replace_termo t' ts = ts" unfolding replace_termo_def using that Cons.prems(3) by (intro map_idI) (metis image_eqI)
    then show ?thesis by simp
  qed
  moreover have "find (\<lambda>x. tm_id x = tm_id t \<and> P x) ts = None" if "tm_id t \<notin> tm_id ` set ts"
    using that by (auto simp: find_None_iff image_iff)
  ultimately show ?case using Cons by (cases "t = x") (auto simp: replace_termo_def)
qed simp

lemma find_id:
  fixes t :: termo_instrument
  assumes "distinct (map tm_id ts)" and "t \<in> set ts"
  shows "find (\<lambda>x. tm_id x = tm_id t \<and> P x) ts = (if P t then Some t else None)"
proof -
  have "replace_termo t ts = ts"
    unfolding replace_termo_def using assms by (intro map_idI) (auto simp: distinct_map dest: inj_onD)
  then show ?thesis using find_replace [OF assms refl, of "tm_id t" P] by simp
qed

interpretation termo_server_freezing:
  freezing_machine "termo_serve env" termos_ok "\<lambda>st. signed_content i st \<noteq> None" "signed_content i" for env i
proof
  fix st req
  assume ok: "termos_ok st" and signed: "signed_content i st \<noteq> None"
  show "signed_content i (snd (termo_serve env req st)) = signed_content i st"
  proof (cases "sv_termos (snd (termo_serve env req st)) = sv_termos st")
    case False
    then obtain t t' where t: "t \<in> set (sv_termos st)" "termo_evolves t t'"
        "sv_termos (snd (termo_serve env req st)) = replace_termo t' (sv_termos st)"
      using termo_serve_moves [of st env req] by (auto simp: moves_termos_def termos_evolve_def)
    have dist: "distinct (map tm_id (sv_termos st))" "tm_id t' = tm_id t"
      using ok t(2) by (simp_all add: termos_ok_def termo_evolves_def)
    show ?thesis
    proof (cases "i = tm_id t")
      case True
      have "find (\<lambda>x. tm_id x = i \<and> signature_collected x) (sv_termos st) = Some t" "signature_collected t"
        using signed True find_id [OF dist(1) t(1), of signature_collected]
        by (simp_all add: signed_content_def split: if_splits)
      then show ?thesis
        using evolves_signed [OF t(2)] find_replace [OF dist(1) t(1) dist(2)] True t(3)
        by (simp add: signed_content_def)
    qed (simp add: signed_content_def t(3) find_replace [OF dist(1) t(1) dist(2)])
  qed (simp add: signed_content_def)
  with signed show "signed_content i (snd (termo_serve env req st)) \<noteq> None" by simp
qed

lemma signed_content_Some:
  assumes "signed_content i st = Some c"
  obtains t where "t \<in> set (sv_termos st)" "tm_id t = i" "signature_collected t" "termo_content t = c"
proof -
  obtain t where t: "find (\<lambda>t. tm_id t = i \<and> signature_collected t) (sv_termos st) = Some t" "c = termo_content t"
    using assms by (auto simp: signed_content_def)
  then have "t \<in> set (sv_termos st)" "tm_id t = i" "signature_collected t"
    by (auto simp: find_Some_iff)
  with t(2) that show thesis by blast
qed

text \<open>
  C21: no sequence of requests alters what was signed. Start from stored instruments with distinct
  ids that satisfy the invariant of their state machine. Whatever requests are served, by whom and
  with whatever failures in between, an instrument that carried a collected signature is still
  stored, is no draft, and has the title, clauses, fields, slots and policy it was signed with; and
  every stored instrument still satisfies the invariant, so that one past drafting passes the
  checks of the freeze and a sealed one has the signatures its policy asks for.
\<close>

theorem requests_keep_signed_content:
  assumes "distinct (map tm_id (sv_termos st)) \<and> (\<forall>x \<in> set (sv_termos st). termo_inv x)"
    and "t \<in> set (sv_termos st)"
    and "tm_state t = Signing \<and> (\<exists>s \<in> set (tm_signatories t). sl_signed s) \<or> tm_state t = Sealed"
    and "st' = run (termo_serve env) requests st"
  shows "(\<exists>t' \<in> set (sv_termos st'). tm_id t' = tm_id t \<and> tm_state t' \<noteq> Draft
      \<and> termo_content t' = termo_content t)
    \<and> (\<forall>x \<in> set (sv_termos st'). termo_inv x)"
proof -
  have ok: "termos_ok st" using assms(1) by (simp add: termos_ok_def)
  have "signed_content (tm_id t) st = Some (termo_content t)"
    using assms(1-3) find_id [of "sv_termos st" t signature_collected]
    by (simp add: signed_content_def signature_collected_def)
  then have "signed_content (tm_id t) st' = Some (termo_content t)"
    using termo_server_freezing.run_frozen [OF ok, of "tm_id t" env requests] assms(4) by simp
  moreover have "termos_ok st'" using termo_server.run_inv [OF ok] assms(4) by simp
  ultimately show ?thesis
    by (elim signed_content_Some) (auto simp: termos_ok_def signature_collected_def)
qed

subsection \<open>What a successful opening has established\<close>

lemma map_err_Ok_iff: "map_err f r = Ok a \<longleftrightarrow> r = Ok a"
  by (auto simp: map_err_def split: sum.split)

lemma open_tail_Ok_iff:
  "(case c of (Inl e, (_, l)) \<Rightarrow> (Err (f e), g l) | (Inr _, (b, l)) \<Rightarrow> k b l) = (Ok x, st')
     \<longleftrightarrow> (\<exists>seq b l. c = (Ok seq, (b, l)) \<and> k b l = (Ok x, st'))"
  by (auto split: prod.split sum.split)

lemma open_from_termo_Ok:
  assumes "open_from_termo env io actor book_id who scheme st = (Ok (), st')"
  obtains t sigs snapshot t' b ent p seq b' l where
    "require_book io actor BookOpen book_id st = Ok ()" "ti_confirmation io = None"
    "load_book_termo Abertura io book_id st = Ok t"
    "require_real_signatures env io book_id t st = Ok ()"
    "scheme = None \<or> scheme = Some (termo_numbering t)"
    "instrument_signatures_for_subject io book_id st = Ok sigs"
    "termo_seal (ti_now io) t = (Ok (), t')"
    "book_and_entity Created book_id st = Ok (b, ent)"
    "project_abertura (ent_name ent) (nipc_value (ent_nipc ent)) (ent_seat ent) (termo_numbering t) t' = Ok p"
    "open_and_seal_book (te_seal env) b (sv_ledger st) ent p (actor_resolve actor who)
       (fst (ti_event_ids io)) (ti_now io) = (Ok seq, (b', l))"
    "commit_book env io ''termo.abertura.cosignatures'' (actor_resolve actor who) book_id book_id
       b' t' sigs snapshot l st = (Ok (), st')"
  using assms
  by (auto simp: open_from_termo_def attempt_Ok_iff on_copy_Ok_iff refused_Ok_iff map_err_Ok_iff
      open_tail_Ok_iff intro: that split: if_splits option.splits)

lemma commit_book_Ok:
  assumes "commit_book env io kind who subject book_id b t sigs snapshot l st = (Ok (), st')"
  shows "sv_books st' = (sv_books st)(book_id \<mapsto> b) \<and> sv_termos st' = upsert_termo env t (sv_termos st)"
    and "sigs = [] \<Longrightarrow> sv_ledger st' = l"
    and "sigs \<noteq> [] \<Longrightarrow> \<exists>doc payload d. snapshot = Some doc \<and> te_manifest_json env kind subject doc sigs = Some payload
       \<and> sv_ledger st' = \<lparr>events = events l @ [d]\<rparr> \<and> ev_kind d = ''document.generated''
       \<and> ev_payload_digest d = digest_of (te_ledger env) payload"
proof -
  show "sv_books st' = (sv_books st)(book_id \<mapsto> b) \<and> sv_termos st' = upsert_termo env t (sv_termos st)"
    using assms by (auto simp: commit_book_def Let_def split: if_splits prod.splits sum.splits option.splits)
  show "sv_ledger st' = l" if "sigs = []"
    using assms that by (auto simp: commit_book_def persist_write_through_def Let_def split: option.splits)
  assume "sigs \<noteq> []"
  then obtain doc payload where doc: "snapshot = Some doc" "te_manifest_json env kind subject doc sigs = Some payload"
    using assms by (auto simp: commit_book_def Let_def split: option.splits)
  show "\<exists>doc payload d. snapshot = Some doc \<and> te_manifest_json env kind subject doc sigs = Some payload
       \<and> sv_ledger st' = \<lparr>events = events l @ [d]\<rparr> \<and> ev_kind d = ''document.generated''
       \<and> ev_payload_digest d = digest_of (te_ledger env) payload"
  proof (cases rule: try_append_cases [of "te_ledger env" l "snd (ti_event_ids io)" "ti_now io" who
              "generated_scope env b" "''document.generated''" None payload])
    case (refused err)
    with assms doc \<open>sigs \<noteq> []\<close> show ?thesis by (simp add: commit_book_def Let_def)
  next
    case (appended d)
    then have "sv_ledger st' = \<lparr>events = events l @ [d]\<rparr>"
      using assms doc \<open>sigs \<noteq> []\<close>
      by (auto simp: commit_book_def persist_write_through_def Let_def split: option.splits)
    with append_at_event [OF appended(2)] doc show ?thesis by simp
  qed
qed

lemma try_append_inv:
  assumes "try_append env l i now a s k j p = (r, l')" and "ledger_inv env l"
  shows "ledger_inv env l'"
  using ledger_machine.exec_inv [OF assms(2), of "TryAppend i now a s k j p"] assms(1) by simp

lemma commit_book_inv:
  assumes "commit_book env io kind who subject book_id b t sigs snapshot l st = (Ok (), st')"
    and "ledger_inv (te_ledger env) l"
  shows "ledger_inv (te_ledger env) (sv_ledger st')"
  using assms try_append_inv [OF _ assms(2)]
  by (auto simp: commit_book_def persist_write_through_def Let_def split: if_splits prod.splits sum.splits option.splits)

lemma sealed_copy:
  assumes "termo_seal now t = (Ok (), t')"
  shows "tm_state t = Signing" "is_ok (ensure_completable t)" "t' = t\<lparr>tm_sealed_at := Some now, tm_state := Sealed\<rparr>"
  using assms by (auto simp: termo_seal_def is_ok_def split: if_splits sum.splits)

lemma book_and_entity_Ok:
  assumes "book_and_entity s book_id st = Ok (b, ent)"
  shows "sv_books st book_id = Some b" "bk_state b = s" "sv_entities st (bk_entity_id b) = Some ent"
  using assms by (auto simp: book_and_entity_def ok_or_Ok_iff split: option.splits if_splits)

text \<open>The ledger verifies and has the chain of the book's entity, whose id it is filed under.\<close>

definition ledger_records_entity :: "termo_env \<Rightarrow> termo_server \<Rightarrow> u128 \<Rightarrow> bool" where
  "ledger_records_entity env st i \<longleftrightarrow> ledger_inv (te_ledger env) (sv_ledger st) \<and> uuid_text_ok (te_seal env)
     \<and> chain_heads (sv_ledger st) (Company (te_uuid env i)) \<noteq> None
     \<and> (case sv_entities st i of Some ent \<Rightarrow> ent_id ent = i \<and> ent_tenant_id ent = DEFAULT_TENANT_ID | None \<Rightarrow> False)"

text \<open>
  What the opening of a book has to state of its instrument and of the entity, field by field. The
  seat is the one declared in the instrument, or the registered one; slots appear in their printed
  order; a signature is listed for each signed slot.
\<close>

definition states_instrument :: "termo_instrument \<Rightarrow> entity \<Rightarrow> termo_de_abertura \<Rightarrow> bool" where
  "states_instrument t ent p \<longleftrightarrow>
     ta_entity_name p = ent_name ent \<and> ta_entity_nipc p = nipc_value (ent_nipc ent)
     \<and> ta_entity_seat p = (case tf_entity_seat (tm_fields t) of
          Some declared \<Rightarrow> if is_blank declared then ent_seat ent else declared | None \<Rightarrow> ent_seat ent)
     \<and> \<not> is_blank (ta_entity_seat p)
     \<and> ta_purpose p = (case tf_purpose (tm_fields t) of Some purpose \<Rightarrow> purpose | None \<Rightarrow> [])
     \<and> ta_numbering_scheme p = (case tm_numbering_scheme t of Some pinned \<Rightarrow> pinned | None \<Rightarrow> Sequential)
     \<and> tf_instrument_date (tm_fields t) = Some (ta_opening_date p)
     \<and> ta_required_signatory_records p = map (\<lambda>s. \<lparr>ts_name = sl_name s, ts_capacity = Some (sl_capacity s),
          ts_capacity_note = sl_capacity_note s, ts_email = sl_email s\<rparr>) (sort_key sl_order (tm_signatories t))
     \<and> ta_required_signatories p = map legacy_label (ta_required_signatory_records p)
     \<and> ta_termo_instrument_id p = Some (tm_id t) \<and> ta_title p = Some (tm_title t)
     \<and> ta_book_number p = tf_book_number (tm_fields t) \<and> ta_place p = tf_place (tm_fields t)
     \<and> ta_page_capacity p = tf_page_capacity (tm_fields t)
     \<and> ta_body p = map (\<lambda>c. \<lparr>cl_heading = tc_heading c, cl_text = tc_text c\<rparr>) (tm_body t)
     \<and> ta_collected_signatures p = map (\<lambda>s. \<lparr>cs_slot_id = sl_id s, cs_name = sl_name s, cs_capacity = sl_capacity s,
          cs_capacity_note = sl_capacity_note s, cs_signed_at = the (sl_signed_at s), cs_signature_id = sl_signature_id s\<rparr>)
          (filter (\<lambda>s. sl_signed s \<and> sl_signed_at s \<noteq> None) (sort_key sl_order (tm_signatories t)))"

lemma collected_signatures_listed:
  "List.map_filter to_collected_record slots = map (\<lambda>s. \<lparr>cs_slot_id = sl_id s, cs_name = sl_name s, cs_capacity = sl_capacity s,
      cs_capacity_note = sl_capacity_note s, cs_signed_at = the (sl_signed_at s), cs_signature_id = sl_signature_id s\<rparr>)
      (filter (\<lambda>s. sl_signed s \<and> sl_signed_at s \<noteq> None) slots)"
  by (induction slots) (auto simp: to_collected_record_def split: option.split)

lemma projection_states_instrument:
  assumes "project_abertura (ent_name ent) (nipc_value (ent_nipc ent)) (ent_seat ent) (termo_numbering t) t' = Ok p"
    and "t' = t\<lparr>tm_sealed_at := x, tm_state := y\<rparr>"
  shows "states_instrument t ent p"
  using assms
  by (auto simp: project_abertura_def states_instrument_def effective_entity_seat_def termo_numbering_def Let_def
      declared_signatory_records_def collected_signature_records_def body_records_def to_record_def to_declared_record_def
      collected_signatures_listed split: if_splits option.splits sum.splits)

text \<open>
  The evidence the gate asks for: for every required slot a signature row of the book that names it. Rows
  may name no slot (those of older stores); when none of the book's rows does, there only have to
  be as many as required slots.
\<close>

definition evidenced :: "termo_env \<Rightarrow> termo_server \<Rightarrow> u128 \<Rightarrow> termo_instrument \<Rightarrow> bool" where
  "evidenced env st subject t \<longleftrightarrow>
     (\<forall>s \<in> set (required_slots t). \<exists>g \<in> set (sv_signatures st).
        sg_subject g = subject \<and> sg_slot_id g = Some (te_uuid env (sl_id s)))
     \<or> (\<forall>g \<in> set (sv_signatures st). sg_subject g = subject \<longrightarrow> sg_slot_id g = None)
        \<and> length (required_slots t) \<le> length (filter (\<lambda>g. sg_subject g = subject) (sv_signatures st))"

lemma required_signatures_evidenced:
  assumes "require_real_signatures env io subject t st = Ok ()"
  shows "evidenced env st subject t"
proof -
  let ?rows = "filter (\<lambda>g. sg_subject g = subject) (sv_signatures st)"
  let ?named = "\<lambda>i. list_ex (\<lambda>g. sg_slot_id g = Some (te_uuid env i)) ?rows"
  have covered: "length (required_slots t) \<le> covered_slots env ?rows (map sl_id (required_slots t))"
    using assms by (auto simp: require_real_signatures_def instrument_signatures_for_subject_def Let_def
        split: option.splits if_splits)
  show ?thesis
  proof (cases "list_all (\<lambda>g. sg_slot_id g = None) ?rows")
    case True
    then show ?thesis using covered by (auto simp: covered_slots_def evidenced_def list_all_iff)
  next
    case False
    then have "length (map sl_id (required_slots t)) \<le> length (filter ?named (map sl_id (required_slots t)))"
      using covered by (simp add: covered_slots_def)
    then have "\<forall>i \<in> set (map sl_id (required_slots t)). ?named i"
      by (metis length_filter_less not_le)
    then show ?thesis by (auto simp: evidenced_def list_ex_iff)
  qed
qed

text \<open>
  C19: on the termo route a book is opened only by its signed termo. When the request to open a book from
  its termo succeeds, the actor held the permission at the book and the stored abertura of the book was
  frozen, passed the checks of the freeze, had the signatures its policy asks for, one of them of the management (up
  to 65535 required slots), and for every required slot a signature row that names it, or, when no row of
  the book names a slot, as many rows as required slots; a numbering scheme named in the request was the pinned one.
  The book was in preparation and is now open; its opening states that very instrument and the
  entity field by field (\<open>states_instrument\<close>), capacity and number are the declared ones, the stored instrument
  is sealed, the first event appended records the opening by the digest of what it states, and at most the
  manifest of the signatures follows. On a ledger that verifies and records the entity, of the default
  tenant, the ledger still verifies.
\<close>

theorem book_opened_by_signed_termo:
  assumes "open_from_termo env io actor book_id who scheme st = (Ok (), st')"
    and "\<forall>x \<in> set (sv_termos st). termo_inv x"
  shows "is_ok (require_permission (sv_dir st) (ti_now io) actor BookOpen (scope.Book book_id))
    \<and> (\<exists>t \<in> set (sv_termos st). tm_book_id t = book_id \<and> tm_kind t = Abertura \<and> tm_state t = Signing
        \<and> is_ok (termo_validate t) \<and> is_ok (ensure_completable t)
        \<and> (length (required_slots t) < 2 ^ 16 \<longrightarrow>
             (\<exists>s \<in> set (required_slots t). sl_signed s \<and> is_management_capacity (sl_capacity s)))
        \<and> evidenced env st book_id t
        \<and> t\<lparr>tm_sealed_at := Some (ti_now io), tm_state := Sealed\<rparr> \<in> set (sv_termos st')
        \<and> (\<exists>b b' ent p e payload rest. sv_books st book_id = Some b \<and> bk_state b = Created
             \<and> sv_entities st (bk_entity_id b) = Some ent
             \<and> sv_books st' = (sv_books st)(book_id \<mapsto> b') \<and> bk_state b' = Open
             \<and> bk_termo_abertura b' = Some p \<and> states_instrument t ent p
             \<and> (scheme = None \<or> scheme = Some (ta_numbering_scheme p))
             \<and> bk_page_capacity b' = tf_page_capacity (tm_fields t)
             \<and> (tf_book_number (tm_fields t) \<noteq> None \<longrightarrow> bk_book_number b' = tf_book_number (tm_fields t))
             \<and> events (sv_ledger st') = events (sv_ledger st) @ e # rest \<and> ev_kind e = ''book.opened''
             \<and> serialize_termo (te_seal env) p = Ok payload
             \<and> ev_payload_digest e = digest_of (te_ledger env) payload
             \<and> (rest = [] \<or> (\<exists>d. rest = [d] \<and> ev_kind d = ''document.generated''))
             \<and> (ledger_records_entity env st (bk_entity_id b) \<longrightarrow> is_ok (verify (te_ledger env) (sv_ledger st')))))"
proof -
  obtain t sigs snapshot t' b ent p seq b' l where s:
    "require_book io actor BookOpen book_id st = Ok ()"
    "load_book_termo Abertura io book_id st = Ok t" "require_real_signatures env io book_id t st = Ok ()"
    "scheme = None \<or> scheme = Some (termo_numbering t)" "termo_seal (ti_now io) t = (Ok (), t')"
    "book_and_entity Created book_id st = Ok (b, ent)"
    "project_abertura (ent_name ent) (nipc_value (ent_nipc ent)) (ent_seat ent) (termo_numbering t) t' = Ok p"
    "open_and_seal_book (te_seal env) b (sv_ledger st) ent p (actor_resolve actor who)
       (fst (ti_event_ids io)) (ti_now io) = (Ok seq, (b', l))"
    "commit_book env io ''termo.abertura.cosignatures'' (actor_resolve actor who) book_id book_id
       b' t' sigs snapshot l st = (Ok (), st')"
    by (rule open_from_termo_Ok [OF assms(1)]) (rule that)
  note t = load_book_termo_Ok [OF s(2)] and sealed = sealed_copy [OF s(5)] and be = book_and_entity_Ok [OF s(6)]
    and commit = commit_book_Ok [OF s(9)]
  have inv: "is_ok (termo_validate t)"
    using assms(2) t(1) sealed(1) by (auto simp: termo_inv_def)
  have states: "states_instrument t ent p" by (rule projection_states_instrument [OF s(7) sealed(3)])
  obtain payload e where e: "l = \<lparr>events = events (sv_ledger st) @ [e]\<rparr>" "open_book p b = (Ok (), b')"
      "serialize_termo (te_seal env) p = Ok payload" "ev_kind e = ''book.opened''"
      "ev_payload_digest e = digest_of (te_ledger env) payload"
    using s(8) by (cases rule: open_and_seal_cases [of "te_seal env" b "sv_ledger st" ent p "actor_resolve actor who"
          "fst (ti_event_ids io)" "ti_now io"]) auto
  obtain rest where rest: "events (sv_ledger st') = events (sv_ledger st) @ e # rest"
      "rest = [] \<or> (\<exists>d. rest = [d] \<and> ev_kind d = ''document.generated'')"
    using commit(2, 3) e(1) by (cases "sigs = []") auto
  obtain capacity where "tf_page_capacity (tm_fields t) = Some capacity"
    using validated_fields [OF inv] t(3) by auto
  then have opened: "bk_state b' = Open" "bk_termo_abertura b' = Some p" "bk_page_capacity b' = tf_page_capacity (tm_fields t)"
    "tf_book_number (tm_fields t) \<noteq> None \<longrightarrow> bk_book_number b' = tf_book_number (tm_fields t)"
    using e(2) states by (auto simp: open_book_def states_instrument_def Let_def split: option.splits if_splits)
  have stored: "t\<lparr>tm_sealed_at := Some (ti_now io), tm_state := Sealed\<rparr> \<in> set (sv_termos st')"
    using commit(1) upsert_stored [OF t(1), of t'] t(1) sealed(3) by (auto simp: replace_termo_def)
  have floor: "length (required_slots t) < 2 ^ 16 \<longrightarrow>
      (\<exists>s \<in> set (required_slots t). sl_signed s \<and> is_management_capacity (sl_capacity s))"
    using floor_needs_management [OF termo_validate_ok(3) [OF inv] sealed(2)] by blast
  have verifies: "ledger_records_entity env st (bk_entity_id b) \<longrightarrow> is_ok (verify (te_ledger env) (sv_ledger st'))"
    using open_and_seal_ledger(1, 2) [OF s(8)] commit_book_inv [OF s(9)] be(3)
    by (auto simp: ledger_records_entity_def ledger_inv_def)
  have scheme: "scheme = None \<or> scheme = Some (ta_numbering_scheme p)"
    using s(4) states by (simp add: states_instrument_def termo_numbering_def)
  have permitted: "is_ok (require_permission (sv_dir st) (ti_now io) actor BookOpen (scope.Book book_id))"
    using s(1) by (simp add: is_ok_def)
  have "sv_books st' = (sv_books st)(book_id \<mapsto> b')" using commit(1) by blast
  with be opened states scheme rest e(3-5) verifies show ?thesis
    using permitted t sealed(1, 2) inv floor required_signatures_evidenced [OF s(3)] stored by blast
qed

subsection \<open>What a successful closing has established\<close>

lemma tail_Ok_iff:
  "(case c of (Inl e, l) \<Rightarrow> (Err (f e), g l) | (Inr r, l) \<Rightarrow> k r l) = (Ok x, st')
     \<longleftrightarrow> (\<exists>r l. c = (Ok r, l) \<and> k r l = (Ok x, st'))"
  by (auto split: prod.split sum.split)

lemma try_append_appended:
  assumes "try_append env l i now a s k j p = (Ok e, l')"
  shows "l' = \<lparr>events = events l @ [e]\<rparr>" "ev_kind e = k" "ev_payload_digest e = digest_of env p"
    "distinct (map ln_chain (ev_links e))"
proof -
  have "append_at env l i a s k j p now = (e, l')"
    using assms by (cases rule: try_append_cases [of env l i now a s k j p]) auto
  from append_at_event [OF this] show "l' = \<lparr>events = events l @ [e]\<rparr>" "ev_kind e = k"
    "ev_payload_digest e = digest_of env p" "distinct (map ln_chain (ev_links e))" by (simp_all add: comp_def)
qed

lemma close_from_termo_Ok:
  assumes "close_from_termo env io actor book_id who st = (Ok (), st')"
  obtains t sigs snapshot layout t' b ent p b' payload e where
    "require_book io actor BookClose book_id st = Ok ()"
    "load_book_termo Encerramento io book_id st = Ok t"
    "require_real_signatures env io (tm_id t) t st = Ok ()"
    "load_document io (tm_id t) st = Ok snapshot"
    "(case snapshot of None \<Rightarrow> Ok None
        | Some doc \<Rightarrow> (case te_pinned_layout env doc of Inl e \<Rightarrow> Err e | Inr lay \<Rightarrow> Ok (Some lay))) = Ok layout"
    "termo_seal (ti_now io) t = (Ok (), t')"
    "book_and_entity Open book_id st = Ok (b, ent)"
    "snapshot_matches env t' b ent snapshot layout = Ok ()"
    "project_encerramento (bk_last_ata_number b) (pages_at_close b) t' = Ok p"
    "close_book p b = (Ok (), b')"
    "Option.bind (bk_termo_encerramento b') (te_encerramento_json env) = Some payload"
    "ev_kind e = ''book.closed''" "ev_payload_digest e = digest_of (te_ledger env) payload"
    "ledger_inv (te_ledger env) (sv_ledger st) \<longrightarrow>
       ledger_inv (te_ledger env) \<lparr>events = events (sv_ledger st) @ [e]\<rparr>"
    "commit_book env io ''termo.encerramento.cosignatures'' (actor_resolve actor who) (tm_id t) book_id
       b' t' sigs snapshot \<lparr>events = events (sv_ledger st) @ [e]\<rparr> st = (Ok (), st')"
proof -
  obtain t sigs snapshot layout t' b ent p b' payload e l where s:
    "require_book io actor BookClose book_id st = Ok ()" "load_book_termo Encerramento io book_id st = Ok t"
    "require_real_signatures env io (tm_id t) t st = Ok ()" "load_document io (tm_id t) st = Ok snapshot"
    "(case snapshot of None \<Rightarrow> Ok None
        | Some doc \<Rightarrow> (case te_pinned_layout env doc of Inl e \<Rightarrow> Err e | Inr lay \<Rightarrow> Ok (Some lay))) = Ok layout"
    "termo_seal (ti_now io) t = (Ok (), t')" "book_and_entity Open book_id st = Ok (b, ent)"
    "snapshot_matches env t' b ent snapshot layout = Ok ()"
    "project_encerramento (bk_last_ata_number b) (pages_at_close b) t' = Ok p" "close_book p b = (Ok (), b')"
    "Option.bind (bk_termo_encerramento b') (te_encerramento_json env) = Some payload"
    "try_append (te_ledger env) (sv_ledger st) (fst (ti_event_ids io)) (ti_now io) (actor_resolve actor who)
       (generated_scope env b') ''book.closed'' None payload = (Ok e, l)"
    "commit_book env io ''termo.encerramento.cosignatures'' (actor_resolve actor who) (tm_id t) book_id
       b' t' sigs snapshot l st = (Ok (), st')"
    using assms
    by (auto simp: close_from_termo_def attempt_Ok_iff on_copy_Ok_iff refused_Ok_iff map_err_Ok_iff ok_or_Ok_iff
        tail_Ok_iff)
  note e = try_append_appended [OF s(12)]
  have "ledger_inv (te_ledger env) (sv_ledger st) \<longrightarrow>
      ledger_inv (te_ledger env) \<lparr>events = events (sv_ledger st) @ [e]\<rparr>"
    using try_append_inv [OF s(12)] e(1) by simp
  from that [OF s(1-11) e(2, 3) this s(13) [unfolded e(1)]] show thesis .
qed

text \<open>
  C20: a book is closed on what was signed. When the request to close a book succeeds, the actor
  held the permission at the book and the stored encerramento was frozen, passed the checks of the
  freeze, had the signatures its policy asks for and real signature rows covering every required
  slot; a stored snapshot is, digest for digest, what the book's present count of atas and pages
  still renders to; the book was open and is now closed with a termo that carries that count, the
  first event appended records it by its digest, and a ledger that verified still does.
\<close>

theorem book_closed_on_what_was_signed:
  assumes "close_from_termo env io actor book_id who st = (Ok (), st')"
    and "\<forall>x \<in> set (sv_termos st). termo_inv x"
  shows "is_ok (require_permission (sv_dir st) (ti_now io) actor BookClose (scope.Book book_id))
    \<and> (\<exists>t \<in> set (sv_termos st). tm_book_id t = book_id \<and> tm_kind t = Encerramento \<and> tm_state t = Signing
        \<and> is_ok (termo_validate t) \<and> is_ok (ensure_completable t)
        \<and> length (required_slots t) \<le> covered_slots env
             (filter (\<lambda>g. sg_subject g = tm_id t) (sv_signatures st)) (map sl_id (required_slots t))
        \<and> (\<exists>b ent b' p e payload rest. sv_books st book_id = Some b \<and> bk_state b = Open
             \<and> sv_entities st (bk_entity_id b) = Some ent
             \<and> (\<forall>doc lay rendered. sv_documents st (tm_id t) = Some doc \<and> te_pinned_layout env doc = Ok lay
                  \<and> generate_encerramento_with_layout env (t\<lparr>tm_sealed_at := Some (ti_now io), tm_state := Sealed\<rparr>) b ent
                       (bk_last_ata_number b) (pages_at_close b) lay = Ok (Some rendered)
                  \<longrightarrow> dc_pdf_digest rendered = dc_pdf_digest doc)
             \<and> sv_books st' = (sv_books st)(book_id \<mapsto> b') \<and> bk_state b' = Closed
             \<and> bk_termo_encerramento b' = Some p \<and> te_ata_count p = bk_last_ata_number b
             \<and> te_pages_used_at_close p = pages_at_close b \<and> te_termo_instrument_id p = Some (tm_id t)
             \<and> events (sv_ledger st') = events (sv_ledger st) @ e # rest \<and> ev_kind e = ''book.closed''
             \<and> te_encerramento_json env p = Some payload
             \<and> ev_payload_digest e = digest_of (te_ledger env) payload
             \<and> (ledger_inv (te_ledger env) (sv_ledger st) \<longrightarrow> is_ok (verify (te_ledger env) (sv_ledger st')))))"
proof -
  obtain t sigs snapshot layout t' b ent p b' payload e where s:
    "require_book io actor BookClose book_id st = Ok ()" "load_book_termo Encerramento io book_id st = Ok t"
    "require_real_signatures env io (tm_id t) t st = Ok ()" "load_document io (tm_id t) st = Ok snapshot"
    "(case snapshot of None \<Rightarrow> Ok None
        | Some doc \<Rightarrow> (case te_pinned_layout env doc of Inl e \<Rightarrow> Err e | Inr lay \<Rightarrow> Ok (Some lay))) = Ok layout"
    "termo_seal (ti_now io) t = (Ok (), t')" "book_and_entity Open book_id st = Ok (b, ent)"
    "snapshot_matches env t' b ent snapshot layout = Ok ()"
    "project_encerramento (bk_last_ata_number b) (pages_at_close b) t' = Ok p" "close_book p b = (Ok (), b')"
    "Option.bind (bk_termo_encerramento b') (te_encerramento_json env) = Some payload"
    "ev_kind e = ''book.closed''" "ev_payload_digest e = digest_of (te_ledger env) payload"
    "ledger_inv (te_ledger env) (sv_ledger st) \<longrightarrow>
       ledger_inv (te_ledger env) \<lparr>events = events (sv_ledger st) @ [e]\<rparr>"
    "commit_book env io ''termo.encerramento.cosignatures'' (actor_resolve actor who) (tm_id t) book_id
       b' t' sigs snapshot \<lparr>events = events (sv_ledger st) @ [e]\<rparr> st = (Ok (), st')"
    by (rule close_from_termo_Ok [OF assms(1)])
  note t = load_book_termo_Ok [OF s(2)] and sealed = sealed_copy [OF s(6)] and be = book_and_entity_Ok [OF s(7)]
  define q where "q = p\<lparr>te_ata_count := bk_last_ata_number b, te_pages_used_at_close := pages_at_close b\<rparr>"
  have valid: "is_ok (termo_validate t)" using assms(2) t(1) sealed(1) by (auto simp: termo_inv_def)
  obtain rest where led: "events (sv_ledger st') = events (sv_ledger st) @ e # rest"
    using commit_book_Ok(2, 3) [OF s(15)] by (cases "sigs = []") auto
  have closed: "bk_state b' = Closed" "bk_termo_encerramento b' = Some q"
    using s(10) by (auto simp: close_book_def pages_at_close_def q_def Let_def split: if_splits)
  have q: "te_ata_count q = bk_last_ata_number b" "te_pages_used_at_close q = pages_at_close b"
    "te_termo_instrument_id q = Some (tm_id t)"
    using s(9) sealed(3) by (auto simp: project_encerramento_def q_def Let_def split: if_splits option.splits)
  have covered: "length (required_slots t) \<le> covered_slots env
       (filter (\<lambda>g. sg_subject g = tm_id t) (sv_signatures st)) (map sl_id (required_slots t))"
    using s(3) by (auto simp: require_real_signatures_def instrument_signatures_for_subject_def Let_def
        split: option.splits if_splits)
  have same: "dc_pdf_digest rendered = dc_pdf_digest doc"
    if "sv_documents st (tm_id t) = Some doc \<and> te_pinned_layout env doc = Ok lay
      \<and> generate_encerramento_with_layout env (t\<lparr>tm_sealed_at := Some (ti_now io), tm_state := Sealed\<rparr>) b ent
           (bk_last_ata_number b) (pages_at_close b) lay = Ok (Some rendered)"
    for doc lay rendered
    using that s(4, 5, 8) sealed(3) by (auto simp: load_document_def snapshot_matches_def split: option.splits if_splits)
  have verified: "ledger_inv (te_ledger env) (sv_ledger st) \<longrightarrow> is_ok (verify (te_ledger env) (sv_ledger st'))"
    using commit_book_inv [OF s(15)] s(14) by (simp add: ledger_inv_def)
  have payload: "te_encerramento_json env q = Some payload" using s(11) closed(2) by simp
  show ?thesis
    by (intro conjI bexI [of _ t] exI [of _ b] exI [of _ ent] exI [of _ b'] exI [of _ q] exI [of _ e]
        exI [of _ payload] exI [of _ rest] allI impI)
      (use s(1, 12, 13) verified t sealed be valid covered closed q led payload same commit_book_Ok(1) [OF s(15)]
        in \<open>simp_all add: is_ok_def\<close>)
qed

subsection \<open>A concrete server\<close>

text \<open>
  The credential is a key with three permissions. Book 2 is in preparation with its abertura signed,
  book 18 open with its encerramento signed; the rendering is a stub.
\<close>

lemma open_from_termo_succeeds:
  assumes "require_book io actor BookOpen book_id st = Ok ()" "ti_confirmation io = None"
    "load_book_termo Abertura io book_id st = Ok t" "require_real_signatures env io book_id t st = Ok ()"
    "instrument_signatures_for_subject io book_id st = Ok sigs" "load_document io book_id st = Ok snapshot"
    "termo_seal (ti_now io) t = (Ok (), t')" "book_and_entity Created book_id st = Ok (b, ent)"
    "project_abertura (ent_name ent) (nipc_value (ent_nipc ent)) (ent_seat ent) (termo_numbering t) t' = Ok p"
    "open_and_seal_book (te_seal env) b (sv_ledger st) ent p (actor_resolve actor who)
       (fst (ti_event_ids io)) (ti_now io) = (Ok seq, (b', l))"
  shows "open_from_termo env io actor book_id who None st =
    commit_book env io ''termo.abertura.cosignatures'' (actor_resolve actor who) book_id book_id b' t' sigs snapshot l st"
  using assms by (simp add: open_from_termo_def on_copy_def refused_def map_err_def)

definition desk_actor :: current_actor where
  "desk_actor = Some (ApiKeyCredential \<lparr>rp_actor_label = ''desk'',
     rp_effective_permissions = \<lparr>role_grants = {(BookOpen, scope.Global), (BookClose, scope.Global), (SigningPerform, scope.Global)},
       delegated_grants = {}\<rparr>, rp_kind = ApiKeyPrincipal 1 7\<rparr>)"

definition desk_document :: document where
  "desk_document = \<lparr>dc_id = ''d'', dc_act_id = 2, dc_template_id = ''t'', dc_layout = None, dc_pdf_digest = ''d'', dc_pdf_bytes = [1]\<rparr>"

definition desk_env :: termo_env where
  "desk_env = \<lparr>te_seal = plain_seal_env, te_parse_date = (\<lambda>_. None), te_abertura_template = (\<lambda>_. None),
     te_encerramento_template = (\<lambda>_. None), te_default_body = (\<lambda>_. None),
     te_generate_for_termo = (\<lambda>p b ent template layout. Ok (Some desk_document)),
     te_encerramento_layout = (\<lambda>t b ent layout. Ok (Some layout)),
     te_generate_encerramento = (\<lambda>t p b ent layout. Ok (Some desk_document)),
     te_pinned_layout = (\<lambda>doc. Ok ''standard''), te_encerramento_json = (\<lambda>p. Some [2]),
     te_manifest_json = (\<lambda>kind subject doc rows. Some [3])\<rparr>"

definition desk_io :: termo_io where
  "desk_io = \<lparr>ti_now = sample_time, ti_ids = (\<lambda>i. 100 + of_nat i), ti_event_ids = (40, 41), ti_confirmation = None,
     ti_read_termo = None, ti_read_signatures = None, ti_read_document = None,
     ti_signing = Err Unprocessable, ti_write = None, ti_view = None\<rparr>"

definition desk_signature :: "u128 \<Rightarrow> instrument_signature" where
  "desk_signature subject = \<lparr>sg_subject = subject, sg_slot_id = Some ''u'',
     sg_document = \<lparr>sp_signed_pdf_digest = ''s'', sp_signer_cert_subject = None\<rparr>\<rparr>"

definition desk_slot :: termo_signatory_slot where
  "desk_slot = (required_slot 1 ''Ana'' Manager 1)\<lparr>sl_signed := True, sl_signed_at := Some sample_time\<rparr>"

definition desk_termo :: "u128 \<Rightarrow> u128 \<Rightarrow> termo_kind \<Rightarrow> termo_fields \<Rightarrow> termo_instrument" where
  "desk_termo i book_id kind fs = (termo_draft i book_id kind ''Termo'' sample_time)\<lparr>tm_state := Signing,
     tm_body := [user_added 50 None ''Livro''], tm_fields := fs\<lparr>tf_instrument_date := Some 7\<rparr>,
     tm_signatories := [desk_slot], tm_template_id := Some ''t'', tm_signing_started_at := Some sample_time\<rparr>"

definition desk_abertura :: termo_instrument where
  "desk_abertura = desk_termo 9 2 Abertura for_abertura"

definition desk_encerramento :: termo_instrument where
  "desk_encerramento = desk_termo 19 18 Encerramento (for_encerramento\<lparr>tf_closing_reason := Some BookFull\<rparr>)"

definition desk_relations :: scope_relations where
  "desk_relations = \<lparr>sr_books = (\<lambda>_. None), sr_tenants = (\<lambda>_. None), sr_acts = (\<lambda>_. None), sr_template_libraries = (\<lambda>_. None),
     sr_integrations = (\<lambda>_. None), sr_repositories = (\<lambda>_. None), sr_archives = (\<lambda>_. None)\<rparr>"

definition desk_book :: book where
  "desk_book = (new_book 18 5 AssembleiaGeral)\<lparr>bk_state := Open, bk_last_ata_number := 4\<rparr>"

definition desk_with :: "ledger \<Rightarrow> termo_instrument list \<Rightarrow> termo_server" where
  "desk_with l termos = \<lparr>sv_dir = \<lparr>dr_users = [], dr_roles = catalog_from [], dr_delegations = [], dr_relations = desk_relations\<rparr>,
     sv_entities = [5 \<mapsto> sample_entity], sv_books = [2 \<mapsto> new_book 2 5 AssembleiaGeral, 18 \<mapsto> desk_book],
     sv_termos = termos, sv_signatures = [desk_signature 2, desk_signature 19],
     sv_documents = [2 \<mapsto> desk_document, 19 \<mapsto> desk_document], sv_local_signing = True, sv_layout = ''standard'',
     sv_ledger = l\<rparr>"

definition desk :: "ledger \<Rightarrow> termo_server" where
  "desk l = desk_with l [desk_abertura, desk_encerramento]"

lemmas desk_termo_defs = desk_abertura_def desk_encerramento_def desk_termo_def termo_draft_def

lemma desk_termos [simp]:
  "tm_book_id desk_abertura = 2" "tm_kind desk_abertura = Abertura" "tm_id desk_abertura = 9"
  "tm_state desk_abertura = Signing" "tm_signatories desk_abertura = [desk_slot]"
  "tm_book_id desk_encerramento = 18" "tm_kind desk_encerramento = Encerramento" "tm_id desk_encerramento = 19"
  "tm_state desk_encerramento = Signing" "tm_signatories desk_encerramento = [desk_slot]"
  by (simp_all add: desk_termo_defs)

lemma desk_validated: "is_ok (termo_validate desk_abertura)" "is_ok (termo_validate desk_encerramento)"
  by code_simp+

lemma desk_inv: "\<forall>t \<in> set (sv_termos (desk l)). termo_inv t"
  by (simp add: desk_def desk_with_def termo_inv_def desk_validated)

lemma desk_reads:
  "load_book_termo Abertura desk_io 2 (desk l) = Ok desk_abertura"
  "load_book_termo Encerramento desk_io 18 (desk l) = Ok desk_encerramento"
  "instrument_signatures_for_subject desk_io 2 (desk l) = Ok [desk_signature 2]"
  "instrument_signatures_for_subject desk_io 19 (desk l) = Ok [desk_signature 19]"
  "load_document desk_io 2 (desk l) = Ok (Some desk_document)"
  "load_document desk_io 19 (desk l) = Ok (Some desk_document)"
  "book_and_entity Created 2 (desk l) = Ok (new_book 2 5 AssembleiaGeral, sample_entity)"
  "book_and_entity Open 18 (desk l) = Ok (desk_book, sample_entity)"
  "require_real_signatures desk_env desk_io 2 desk_abertura (desk l) = Ok ()"
  "require_real_signatures desk_env desk_io 19 desk_encerramento (desk l) = Ok ()"
  by (simp_all add: load_book_termo_def instrument_signatures_for_subject_def load_document_def book_and_entity_def
      require_real_signatures_def covered_slots_def required_slots_def desk_slot_def required_slot_def
      desk_io_def desk_def desk_with_def desk_signature_def desk_env_def plain_uuid_text ok_or_def desk_book_def new_book_def)

lemma desk_permitted:
  "require_book desk_io desk_actor BookOpen 2 (desk l) = Ok ()"
  "require_book desk_io desk_actor BookClose 18 (desk l) = Ok ()"
  by code_simp+

abbreviation desk_sealed :: "termo_instrument \<Rightarrow> termo_instrument" where
  "desk_sealed t \<equiv> t\<lparr>tm_sealed_at := Some sample_time, tm_state := Sealed\<rparr>"

lemma desk_seals:
  "termo_seal (ti_now desk_io) desk_abertura = (Ok (), desk_sealed desk_abertura)"
  "termo_seal (ti_now desk_io) desk_encerramento = (Ok (), desk_sealed desk_encerramento)"
proof -
  have "ensure_completable desk_abertura = Ok ()" "ensure_completable desk_encerramento = Ok ()" by code_simp+
  then show "termo_seal (ti_now desk_io) desk_abertura = (Ok (), desk_sealed desk_abertura)"
    "termo_seal (ti_now desk_io) desk_encerramento = (Ok (), desk_sealed desk_encerramento)"
    by (simp_all add: termo_seal_def desk_io_def)
qed

text \<open>The tail of a commit with one signature row.\<close>

lemma desk_commits:
  assumes "is_ok (fst (try_append (te_ledger desk_env) l 41 sample_time ''desk'' (generated_scope desk_env b)
      ''document.generated'' None [3]))"
  shows "\<exists>st'. commit_book desk_env desk_io kind ''desk'' subject book_id b t [row] (Some desk_document) l st = (Ok (), st')"
  using assms
  by (auto simp: commit_book_def persist_write_through_def desk_io_def desk_env_def is_ok_iff Let_def
      split: prod.split sum.split)

definition desk_opening :: "(seal_error, u64, book \<times> ledger) call" where
  "desk_opening =
     (case project_abertura (ent_name sample_entity) (nipc_value (ent_nipc sample_entity)) (ent_seat sample_entity)
         (termo_numbering desk_abertura) (desk_sealed desk_abertura) of
        Inl _ \<Rightarrow> (Err (Serialize []), (desk_book, ledger_new))
      | Inr p \<Rightarrow> open_and_seal_book plain_seal_env (new_book 2 5 AssembleiaGeral) entity_ledger sample_entity p ''desk'' 40 sample_time)"

lemma desk_opening_ok: "is_ok (fst desk_opening)"
  by code_simp

lemma entity_ledger_sound:
  "links_canonical (events entity_ledger)" "is_ok (verify (led_env plain_seal_env) entity_ledger)"
  "chain_heads entity_ledger (Company ''u'') \<noteq> None" "ent_tenant_id sample_entity = DEFAULT_TENANT_ID"
  by code_simp+

lemma desk_scope: "generated_scope desk_env b = ''entity:u/book:u''" "te_seal desk_env = plain_seal_env"
  by (simp_all add: generated_scope_def desk_env_def plain_seal_env_def sample_seal_env_def)

lemma desk_appends:
  assumes "ledger_inv (led_env plain_seal_env) l"
    and "chain_heads l (Company ''u'') \<noteq> None" "chain_heads l (chain_id.Book ''u'') \<noteq> None"
  shows "is_ok (fst (try_append (led_env plain_seal_env) l i now a ''entity:u/book:u'' k None p))"
proof -
  have "set (memberships u ''entity:u/book:u'' k) = {Company ''u'', chain_id.Book ''u''}" for u
    using memberships_book_scope [of "''u''" "''u''" u k] by simp
  then have "\<forall>c \<in> set (memberships (uuid_parses (led_env plain_seal_env)) ''entity:u/book:u'' k).
      chain_heads l c = None \<longrightarrow> genesis_fits c k"
    using assms(2, 3) by (auto simp del: not_None_eq)
  then show ?thesis
    using assms(1) unfolding try_append_is_ok ledger_inv_def by (simp only: rejection_of_verified)
qed

lemma desk_opens: "\<exists>st'. open_from_termo desk_env desk_io desk_actor 2 ''ana'' None (desk entity_ledger) = (Ok (), st')"
proof -
  obtain seq b l where o: "desk_opening = (Ok seq, (b, l))"
    using desk_opening_ok by (metis is_ok_iff prod.collapse)
  then obtain p where p: "project_abertura (ent_name sample_entity) (nipc_value (ent_nipc sample_entity))
        (ent_seat sample_entity) (termo_numbering desk_abertura) (desk_sealed desk_abertura) = Ok p"
      "open_and_seal_book plain_seal_env (new_book 2 5 AssembleiaGeral) entity_ledger sample_entity p ''desk'' 40 sample_time
         = (Ok seq, (b, l))"
    by (auto simp: desk_opening_def split: sum.splits)
  have c: "is_ok (fst (try_append (te_ledger desk_env) l 41 sample_time ''desk'' (generated_scope desk_env b)
         ''document.generated'' None [3]))"
    using open_and_seal_ledger [OF p(2) entity_ledger_sound(4, 1, 2) plain_uuid_text(1)] entity_ledger_sound(3)
    by (simp add: desk_scope plain_uuid_text desk_appends ledger_inv_def)
  have io: "ti_confirmation desk_io = None" "actor_resolve desk_actor ''ana'' = ''desk''" "fst (ti_event_ids desk_io) = 40"
    "ti_now desk_io = sample_time" "sv_ledger (desk entity_ledger) = entity_ledger"
    by (simp_all add: desk_io_def desk_actor_def actor_resolve_def desk_def desk_with_def)
  show ?thesis
    using desk_commits [OF c] open_from_termo_succeeds [OF desk_permitted(1) [of entity_ledger] io(1) desk_reads(1, 9, 3, 5) desk_seals(1)
        desk_reads(7) p(1), where who = "''ana''" and seq = seq and b' = b and l = l] p(2) io by (simp add: desk_scope)
qed

theorem book_opened_by_signed_termo_witness:
  "\<exists>st' b. open_from_termo desk_env desk_io desk_actor 2 ''ana'' None (desk entity_ledger) = (Ok (), st')
     \<and> sv_books st' 2 = Some b \<and> bk_state b = Open"
proof -
  obtain st' where "open_from_termo desk_env desk_io desk_actor 2 ''ana'' None (desk entity_ledger) = (Ok (), st')"
    using desk_opens by blast
  with book_opened_by_signed_termo [OF this desk_inv] show ?thesis by fastforce
qed

lemma close_from_termo_succeeds:
  assumes "require_book io actor BookClose book_id st = Ok ()" "ti_confirmation io = None"
    "load_book_termo Encerramento io book_id st = Ok t" "require_real_signatures env io (tm_id t) t st = Ok ()"
    "instrument_signatures_for_subject io (tm_id t) st = Ok sigs" "load_document io (tm_id t) st = Ok (Some doc)"
    "te_pinned_layout env doc = Ok lay" "termo_seal (ti_now io) t = (Ok (), t')"
    "book_and_entity Open book_id st = Ok (b, ent)" "snapshot_matches env t' b ent (Some doc) (Some lay) = Ok ()"
    "project_encerramento (bk_last_ata_number b) (pages_at_close b) t' = Ok p" "close_book p b = (Ok (), b')"
    "Option.bind (bk_termo_encerramento b') (te_encerramento_json env) = Some payload"
    "try_append (te_ledger env) (sv_ledger st) (fst (ti_event_ids io)) (ti_now io) (actor_resolve actor who)
       (generated_scope env b') ''book.closed'' None payload = (Ok e, l)"
  shows "close_from_termo env io actor book_id who st =
    commit_book env io ''termo.encerramento.cosignatures'' (actor_resolve actor who) (tm_id t) book_id b' t' sigs (Some doc) l st"
  using assms by (simp add: close_from_termo_def on_copy_def refused_def map_err_def ok_or_def)

lemma desk_projected_closing:
  "is_ok (project_encerramento (bk_last_ata_number desk_book) (pages_at_close desk_book) (desk_sealed desk_encerramento))"
  by code_simp

lemma desk_closes: "\<exists>st'. close_from_termo desk_env desk_io desk_actor 18 ''ana'' (desk opened_ledger) = (Ok (), st')"
proof -
  obtain p where p: "project_encerramento (bk_last_ata_number desk_book) (pages_at_close desk_book)
      (desk_sealed desk_encerramento) = Ok p"
    using desk_projected_closing by (auto simp: is_ok_iff)
  obtain b' where b': "close_book p desk_book = (Ok (), b')" "bk_termo_encerramento b' \<noteq> None"
    by (simp add: close_book_def desk_book_def Let_def)
  have inv: "ledger_inv (led_env plain_seal_env) opened_ledger" using opened_ledger_sound by (simp add: ledger_inv_def)
  obtain e l where e: "try_append (led_env plain_seal_env) opened_ledger 40 sample_time ''desk''
      ''entity:u/book:u'' ''book.closed'' None [2] = (Ok e, l)"
    using desk_appends [OF inv opened_ledger_sound(3, 4)] by (metis is_ok_iff prod.collapse)
  have "chain_heads l c \<noteq> None" if "c = Company ''u'' \<or> c = chain_id.Book ''u''" for c
    using that opened_ledger_sound(3, 4) try_append_appended(1, 4) [OF e]
    by (auto simp: chain_heads_eq insert_link_heads_apply split: option.splits)
  then have c: "is_ok (fst (try_append (te_ledger desk_env) l 41 sample_time ''desk'' (generated_scope desk_env b')
      ''document.generated'' None [3]))"
    using try_append_inv [OF e inv] by (simp add: desk_scope desk_appends)
  have io: "ti_confirmation desk_io = None" "actor_resolve desk_actor ''ana'' = ''desk''" "fst (ti_event_ids desk_io) = 40"
    "ti_now desk_io = sample_time" "sv_ledger (desk opened_ledger) = opened_ledger"
    "te_pinned_layout desk_env desk_document = Ok ''standard''"
    "Option.bind (bk_termo_encerramento b') (te_encerramento_json desk_env) = Some [2]"
    using b'(2) by (auto simp: desk_io_def desk_actor_def actor_resolve_def desk_def desk_with_def desk_env_def)
  have "snapshot_matches desk_env (desk_sealed desk_encerramento) desk_book sample_entity (Some desk_document) (Some ''standard'') = Ok ()"
    using p by (simp add: snapshot_matches_def generate_encerramento_with_layout_def desk_env_def)
  from close_from_termo_succeeds [OF desk_permitted(2) [of opened_ledger] io(1) desk_reads(2) _ _ _ io(6) desk_seals(2) desk_reads(8) this p b'(1) io(7),
      where sigs = "[desk_signature 19]" and who = "''ana''" and e = e and l = l]
  show ?thesis using desk_reads(4, 6, 10) e io desk_commits [OF c] by (simp add: desk_scope)
qed

theorem book_closed_on_what_was_signed_witness:
  "\<exists>st' b. close_from_termo desk_env desk_io desk_actor 18 ''ana'' (desk opened_ledger) = (Ok (), st')
     \<and> sv_books st' 18 = Some b \<and> bk_state b = Closed"
proof -
  obtain st' where "close_from_termo desk_env desk_io desk_actor 18 ''ana'' (desk opened_ledger) = (Ok (), st')"
    using desk_closes by blast
  with book_closed_on_what_was_signed [OF this desk_inv] show ?thesis by fastforce
qed

theorem refused_request_leaves_no_trace_witness:
  "snd (termo_serve desk_env (OpenFromTermo desk_io None 2 ''ana'' None) (desk entity_ledger)) = desk entity_ledger"
proof (rule refused_request_leaves_no_trace)
  show "fst (termo_serve desk_env (OpenFromTermo desk_io None 2 ''ana'' None) (desk entity_ledger)) = Err Unauthorized"
    by (simp add: open_from_termo_def require_permission_def authorizer_of_def resolve_principal_id_def)
  show "ti_view (request_io (OpenFromTermo desk_io None 2 ''ana'' None)) = None" by (simp add: desk_io_def)
qed

theorem requests_keep_signed_content_witness:
  "\<exists>t' \<in> set (sv_termos (run (termo_serve desk_env) [OpenFromTermo desk_io desk_actor 2 ''ana'' None,
       CloseFromTermo desk_io desk_actor 18 ''ana''] (desk entity_ledger))).
     tm_id t' = 9 \<and> termo_content t' = termo_content desk_abertura"
proof -
  have "distinct (map tm_id (sv_termos (desk entity_ledger))) \<and> (\<forall>x \<in> set (sv_termos (desk entity_ledger)). termo_inv x)"
    "desk_abertura \<in> set (sv_termos (desk entity_ledger))" "sl_signed desk_slot"
    using desk_inv [of entity_ledger] by (simp_all add: desk_def desk_with_def desk_slot_def)
  from requests_keep_signed_content [OF this(1, 2) _ refl] this(3) show ?thesis by fastforce
qed

end
