(* ===== verification/Spec2Isabelle.thy ===== *)
theory Spec2Isabelle
  imports Ledger_Tamper Ledger_Recovery Fixity_Report Profile Numerals Role_Admin External_Signing Termo_Api
begin

text \<open>
  Verification of the core of Chancela, a Rust system that keeps the minute books of Portuguese
  companies and other bodies: acts (atas) are drafted, signed and sealed into numbered books, every
  step is recorded in an append-only, hash-chained event ledger, and an authorisation engine decides
  who may do what. The sources are under \<open>src/crates\<close>.

  \<^bold>\<open>The parts and how they meet.\<close> The domain crate \<open>chancela-core\<close> holds entities, acts, books,
  opening and closing instruments (termos) and signing envelopes as plain data with methods that
  take \<open>&mut self\<close>. \<open>seal.rs\<close> ties an act, its book and the ledger of \<open>chancela-ledger\<close> together: it
  asks the rule pack of the entity, takes the next ata number, appends an event with the digest of
  the payload and freezes the act. \<open>chancela-authz\<close> evaluates roles, assignments and delegations over
  a tree of scopes, \<open>chancela-apikey\<close> attenuates them for keys. \<open>chancela-api\<close> owns the stores behind
  locks and exposes handlers: each reads, checks permissions, calls the core on copies, appends to
  the ledger and commits, or takes the ledger back.

  \<^bold>\<open>How the code is represented.\<close> A struct is a record, an enum a datatype, a machine integer a word
  of its width (\<open>u16\<close>, \<open>u32\<close>, \<open>u64\<close>, \<open>u128\<close>; addition wraps as in a release build), a string the list
  of its UTF-8 bytes, \<open>Result\<close> the sum type with \<open>Ok\<close> and \<open>Err\<close>. A method on \<open>&mut self\<close> returns its
  result paired with the state it leaves, on the error branches too, so that partial effects are
  visible. A loop with an early return is a recursive function; no definition needs fuel, since
  every loop of the modelled code walks a list or a walk of fixed length (the scope tree is walked
  through eight scopes, the number the code uses). Hash maps are association lists with the
  operations the code uses, or functions to options where only look-ups matter. A panic is the
  value \<open>None\<close> where a theorem says it is not reached (the profile calendar).

  \<^bold>\<open>Theories, in the order they build on each other.\<close>

  \<^item> \<open>Prelude\<close>: widths, bytes, results, loops, text functions, and the interfaces that the components
    share: \<open>lockstep\<close> (two loops over the same list agree step by step), \<open>machine\<close> (an invariant
    kept by every operation is kept by every run), \<open>guarded_machine\<close> (the same under a condition on the
    operations), \<open>atomic_machine\<close> (an operation that fails leaves the state) and \<open>freezing_machine\<close>
    (once a condition holds, a view of the state no longer changes).
  \<^item> \<open>Chain_Id\<close>, \<open>Ledger\<close>, \<open>Ledger_Tamper\<close>, \<open>Ledger_Recovery\<close>: \<open>chancela-ledger/src/lib.rs\<close>. Chain identities
    with their text form and order; the event preimage and \<open>append\<close>; \<open>verify\<close> and \<open>verify_chain\<close>; what a
    head pins down (interface \<open>hash_chain\<close>, interpreted on the spine and on each chain); locating
    breaks, the integrity report, the validating append, re-anchoring and its disclosure, bundles.
  \<^item> \<open>Entity\<close>, \<open>Act\<close>, \<open>Book\<close>: \<open>entity.rs\<close>, \<open>act.rs\<close>, \<open>book.rs\<close>, with the errors of \<open>error.rs\<close>. The
    operations of an act and of a book are collected in \<open>act_exec\<close> and \<open>book_exec\<close> and interpreted as
    machines: life cycle, gates, what stays fixed after the seal, the page account, the reservations of
    several acts, ata numbering.
  \<^item> \<open>Seal\<close>: \<open>seal.rs\<close>. Evidence, digested payloads, \<open>open_and_seal_book\<close>, \<open>seal_act_with_evidence\<close>,
    seal anchors and \<open>verify_act_fixity\<close>.
  \<^item> \<open>Fixity_Report\<close>: the rest of \<open>seal.rs\<close>, the report over a corpus of acts and books.
  \<^item> \<open>Rules\<close>, \<open>Profile\<close>: \<open>rules.rs\<close>, \<open>profile.rs\<close>. The five family packs and the overlay of the statutes;
    \<open>mandatory_contents\<close> is the declarative reading of what blocks a seal. The profile of a legal
    type, its calendar presets and the due-date planner.
  \<^item> \<open>Numerals\<close>: \<open>chancela-templates/src/numerals.rs\<close>, the words a template writes for a number; a reader
    with its own dictionary, \<open>read_cardinal\<close> and \<open>read_ordinal\<close>, says what they mean.
  \<^item> \<open>Permission\<close>, \<open>Authz_Scope\<close>, \<open>Authz\<close>, \<open>Authz_Roles\<close>: \<open>chancela-authz\<close>. The catalogue of permissions,
    the scope tree and its walk (interface \<open>coverage\<close>), effective permissions and the ceilings on
    authoring, assigning and delegating, the seeded roles and the grandfather migrations.
  \<^item> \<open>Api_Key\<close>: \<open>chancela-apikey\<close>. Issue, verification and resolution of keys.
  \<^item> \<open>Directory\<close>, \<open>Write_Through\<close>, \<open>Role_Admin\<close>: \<open>authz.rs\<close>, \<open>roles.rs\<close>, \<open>delegations.rs\<close>, \<open>users.rs\<close>,
    \<open>account.rs\<close>, \<open>email.rs\<close> and the parts of \<open>lib.rs\<close> they use, in \<open>chancela-api\<close>. Start-up migrations
    (interface \<open>catalog_grant\<close>), resolution of a principal, the write-through of a change with its
    ledger event, and these handlers: \<open>create_role\<close>, \<open>patch_role\<close>, \<open>delete_role\<close>,
    \<open>apply_seeded_role_reconciliation\<close>, \<open>assign_role\<close>, \<open>unassign_role\<close>, \<open>grant_delegation\<close>, \<open>revoke_delegation\<close>,
    \<open>suspend_delegation\<close>, \<open>resume_delegation\<close>, \<open>create_user\<close>, \<open>patch_user\<close>, \<open>patch_me_profile\<close>, \<open>suspend_me\<close>. Other
    handlers that change users are listed under what is not modelled.
  \<^item> \<open>Slots\<close>, \<open>Termo\<close>, \<open>External_Signing\<close>: \<open>termo.rs\<close>, \<open>external_signing.rs\<close>. Two models of ordered signing
    slots; \<open>slot_collection\<close> is the interface that gives both their completion theorem. The instrument's
    machine has its methods and the writes of its public fields that the handlers make while it is a draft.
  \<^item> \<open>Termo_Api\<close>: \<open>chancela-api/src/termo.rs\<close> with the functions of \<open>dto.rs\<close>, \<open>documents.rs\<close> and of
    \<open>chancela-store\<close> it calls. The handlers that patch, freeze, sign, open and close, over the whole server
    state; \<open>termo_serve\<close> runs a request.

  \<^bold>\<open>What is proved.\<close>

  \<^item> Ledger: a head commits to every hashed field of the history (not to event ids and justifications) or
    exhibits a SHA-256 collision among the named preimages; a
    ledger built by validating appends verifies; on events with at most one link for each chain the global
    check agrees with the checks of the single chains; a located break is the one the verifier reports; a
    re-anchor keeps the content, discloses itself, and succeeds exactly when what it makes verifies.
  \<^item> Sealing: a success assigns the next number and is verifiable at once; a failure changes nothing; a
    sealed act is tamper-evident, and stays verified on a ledger whose spine verifies; the report over a corpus is exact; what is sealed
    under the pack of its entity has the mandatory contents, and a pack blocks nothing else.
  \<^item> Statutes and calendar: the majority is decided without overflow; when the notice period is looked
    at; the planner does not panic and stays within its year.
  \<^item> Numbers in words: what a template writes is read back as the number.
  \<^item> Termos: on the termo route (\<open>open_from_termo\<close>, \<open>close_from_termo\<close>) a book is opened and closed only by a
    frozen, signed instrument; the opening states that instrument and the entity as it is then, the closing
    is compared with the rendered snapshot. The default one-shot routes open and close a book without a signed
    termo and are not modelled, and the opening is not compared with the snapshot that was signed.
    Signed content never changes; a refused request leaves no trace, unless only its response failed; a frozen draft can always be
    completed. Envelopes: a completed one is sound, a fresh one can be completed when it has a required slot.
  \<^item> Authorisation: a grant covers its scope and what lies at most seven hops below it, which is
    containment for every tenant, entity, book and act; the modelled administrative requests create no authority but for one
    case, proved too: an account created without a role gets the default role, whatever its creator holds; they
    never leave the instance without an owner, and what succeeds is recorded; what a start-up does to an edited directory; a key never exceeds its creator.
  \<^item> Acts and books: each operation moves along one edge of the life cycle; the gates; a sealed act is
    fixed but for its archiving and the unguarded list of retired snapshots; the page capacity from an opening without reserved
    pages on; a reservation is honoured while the other acts keep to theirs.

  \<^bold>\<open>Parameters.\<close> Code outside the sources is an argument: SHA-256, the serialisers, the RFC 3339
  formatter, the text of a UUID and its parser, fresh identifiers and clocks, the outcome of each read
  and write of a store, the rendering of a PDF, the PKCS#12 and PAdES pipeline, the confirmation gate,
  the validator of rich-text bodies, the wording of a finding, the range of the calendar, the arguments
  a template engine hands to a filter. What a
  theorem needs of them is a named hypothesis: \<open>uuid_text_ok\<close>, injectivity of a serialiser, the range
  \<open>gregorian\<close> (written with its own month lengths and leap rule), and \<open>op_ok\<close>: new identifiers are fresh and an
  API-key credential is one the registry resolved. Hypotheses on data are \<open>event_wf\<close> (the text fields of an event are free of the
  unit separator 0x1F, digests have 32 bytes, at most one link for each chain), \<open>links_canonical\<close> (at most one
  link for each chain, none for the spine, as \<open>append\<close> writes them), \<open>catalog_ok\<close> and \<open>users_ok\<close> (maps filed under the ids of their
  entries), \<open>shallow\<close> (a chain of parents that ends within seven hops) and \<open>others_keep\<close> (no act takes
  more reserved pages than it was granted). Nothing is assumed of SHA-256: where a theorem rests on collision resistance it
  returns the two colliding inputs. Each such theorem has an instance evaluated on concrete functions.

  \<^bold>\<open>Bounds.\<close> Ledger theorems that index positions take fewer than \<open>2 ^ 64\<close> events, the width of the
  sequence number. The termo theorems that count slots take at most 65535 required slots, where the
  counts of the code saturate. The calendar theorem takes today in the years -9998 to 9998 and the
  constitution in -9999 to 9997, since the planner looks a year or two ahead. These are hypotheses of the theorems, not changes of the model.

  \<^bold>\<open>Not modelled.\<close> The SQL of \<open>chancela-store\<close> beyond the statements named above, and the crates over
  cryptographic, XML, PDF or network libraries (\<open>chancela-signing\<close>, \<open>-pades\<close>, \<open>-xades\<close>, \<open>-cades\<close>,
  \<open>-tsl\<close>, \<open>-tsa\<close>, \<open>-doc\<close>, \<open>-templates\<close>, \<open>-connectors\<close>, \<open>-registry\<close>, \<open>-cmd\<close>, \<open>-csc\<close>, \<open>-scap\<close>, \<open>-smartcard\<close>):
  their logic is that of the libraries they drive (the numerals of the templates apart). Of \<open>chancela-api\<close>: other handlers that change users
  (\<open>signup\<close> and \<open>accept_invite\<close> of \<open>signup.rs\<close>, privacy erasure, \<open>set_secret\<close>, \<open>remove_secret\<close>, the attestation-key,
  recovery, passkey and second-factor handlers, resets and restores), the one-shot creation and closing of books
  and the handlers of acts (\<open>books.rs\<close>, \<open>acts.rs\<close>), and the rest, mostly
  request parsing, views and in-memory registries around the parts above; \<open>chancela-mcp\<close>, which forwards
  to them, the search and action-centre projections, command-line and server binaries, and the web and
  desktop applications. A request is one
  step and a run is a sequence of whole requests: interleavings inside a request are not modelled. The rate limiter of the API keys computes on floating point.
  Display texts, translations and serde defaults are left out throughout.
\<close>

section \<open>Properties that span components\<close>

text \<open>
  Chain identities round-trip. Every chain an event joins, whatever its scope and kind, is
  parsed back from its canonical text; a UUID parser never accepts the empty text.
\<close>

theorem membership_chains_parse_back:
  assumes "\<not> uuid_parses env []" and "c \<in> set (memberships (uuid_parses env) scope kind)"
  shows "parse_chain_id (canonical c) = Ok c"
  using memberships_ids [OF assms] by (auto simp: parse_canonical)

theorem membership_chains_parse_back_witness:
  "parse_chain_id (canonical (chain_id.Book ''B'')) = Ok (chain_id.Book ''B'')"
proof -
  have "\<not> uuid_parses sample_env []"
    "chain_id.Book ''B'' \<in> set (memberships (uuid_parses sample_env) ''entity:E/book:B'' ''act.sealed'')"
    by code_simp+
  then show ?thesis by (rule membership_chains_parse_back)
qed

end
